(* ===== verification/Prelude.thy ===== *)
theory Prelude
  imports Main "HOL-Library.Word"
begin

text \<open>
  The shared vocabulary of the development: Go's fixed-width integers, byte strings and
  error values, the effectful computations in which every handler is written, and a small
  Hoare calculus for them. A handler is a function from the state of the world to a result
  and a new state; the result is \<open>Inl e\<close> where the Go function returns a non-nil error
  and \<open>Inr x\<close> where it returns \<open>x, nil\<close>. The state that is returned with an error is the
  state the world is in when the function gives up, so that a crash or a failing call in
  the middle of a handler is visible.
\<close>

named_theorems wp_rule \<open>introduction rules of the Hoare calculus\<close>
named_theorems sql_simps \<open>how SQL statements act on tables\<close>

section \<open>Go integers and byte strings\<close>

text \<open>\<open>int64\<close> arithmetic wraps around: the representative in \<open>[-2^63, 2^63)\<close>.\<close>

definition i64 :: "int \<Rightarrow> int" where
  "i64 x = (x + 2 ^ 63) mod 2 ^ 64 - 2 ^ 63"

lemma i64_id: "- (2 ^ 63) \<le> x \<Longrightarrow> x < 2 ^ 63 \<Longrightarrow> i64 x = x"
  by (simp add: i64_def)

lemma i64_range: "- (2 ^ 63) \<le> i64 x \<and> i64 x < 2 ^ 63"
  by (simp add: i64_def)

text \<open>
  A Go \<open>string\<close> is a byte sequence, here a \<^typ>\<open>string\<close> (one \<open>char\<close> per byte).
  \<open>strings.TrimSpace\<close> removes leading and trailing Unicode white space. The list holds the
  UTF-8 encodings of all code points with the White\_Space property.
\<close>

definition space_runes :: "string list" where
  "space_runes = [[CHR 0x09], [CHR 0x0A], [CHR 0x0B], [CHR 0x0C], [CHR 0x0D], [CHR 0x20],
     [CHR 0xC2, CHR 0x85], [CHR 0xC2, CHR 0xA0], [CHR 0xE1, CHR 0x9A, CHR 0x80],
     [CHR 0xE2, CHR 0x80, CHR 0x80], [CHR 0xE2, CHR 0x80, CHR 0x81], [CHR 0xE2, CHR 0x80, CHR 0x82],
     [CHR 0xE2, CHR 0x80, CHR 0x83], [CHR 0xE2, CHR 0x80, CHR 0x84], [CHR 0xE2, CHR 0x80, CHR 0x85],
     [CHR 0xE2, CHR 0x80, CHR 0x86], [CHR 0xE2, CHR 0x80, CHR 0x87], [CHR 0xE2, CHR 0x80, CHR 0x88],
     [CHR 0xE2, CHR 0x80, CHR 0x89], [CHR 0xE2, CHR 0x80, CHR 0x8A], [CHR 0xE2, CHR 0x80, CHR 0xA8],
     [CHR 0xE2, CHR 0x80, CHR 0xA9], [CHR 0xE2, CHR 0x80, CHR 0xAF], [CHR 0xE2, CHR 0x81, CHR 0x9F],
     [CHR 0xE3, CHR 0x80, CHR 0x80]]"

definition has_prefix :: "string \<Rightarrow> string \<Rightarrow> bool" where
  "has_prefix s p \<longleftrightarrow> take (length p) s = p"

definition has_suffix :: "string \<Rightarrow> string \<Rightarrow> bool" where
  "has_suffix s p \<longleftrightarrow> has_prefix (rev s) (rev p)"

text \<open>\<open>strip_runes rs n s\<close> drops up to \<open>n\<close> leading members of \<open>rs\<close>; a string of
  length \<open>n\<close> has at most \<open>n\<close> of them.\<close>

fun strip_runes :: "string list \<Rightarrow> nat \<Rightarrow> string \<Rightarrow> string" where
  "strip_runes rs 0 s = s"
| "strip_runes rs (Suc n) s =
     (case find (has_prefix s) rs of
        None \<Rightarrow> s
      | Some p \<Rightarrow> strip_runes rs n (drop (length p) s))"

definition trim_left :: "string \<Rightarrow> string" where
  "trim_left s = strip_runes space_runes (length s) s"

definition trim_right :: "string \<Rightarrow> string" where
  "trim_right s = rev (strip_runes (map rev space_runes) (length s) (rev s))"

definition TrimSpace :: "string \<Rightarrow> string" where
  "TrimSpace s = trim_right (trim_left s)"

section \<open>Error values\<close>

text \<open>
  The sentinel errors of the packages, the errors of the drivers, errors made by
  \<open>fmt.Errorf\<close> without \<open>%w\<close> (\<open>Err\<close>) and with it (\<open>Wrap\<close>). \<open>errors.Is\<close> looks
  through \<open>Wrap\<close>.
\<close>

datatype goerr =
    ErrNotFound | ErrNotCancellable | ErrConflict
  | ErrNoRows | RedisNil
  | PgUnique string \<comment> \<open>SQLSTATE 23505 with the constraint's name\<close>
  | PgCheck string \<comment> \<open>SQLSTATE 23514 or 23503\<close>
  | TxAborted \<comment> \<open>SQLSTATE 25P02, or a COMMIT that rolled back\<close>
  | Canceled \<comment> \<open>context.Canceled\<close>
  | Unavailable \<comment> \<open>time-out, refused or lost connection\<close>
  | ReplyErr string \<comment> \<open>an error reply of Redis\<close>
  | ErrInvalidURL | ErrPrivateAddress | ErrBlockedHost | ErrDNSResolution
  | Err string
  | Wrap string goerr

fun errors_Is :: "goerr \<Rightarrow> goerr \<Rightarrow> bool" where
  "errors_Is (Wrap m e) t = (Wrap m e = t \<or> errors_Is e t)"
| "errors_Is e t = (e = t)"

section \<open>Computations with state and errors\<close>

type_synonym ('w, 'a) act = "'w \<Rightarrow> (goerr + 'a) \<times> 'w"

definition ret :: "'a \<Rightarrow> ('w, 'a) act" where
  "ret a w = (Inr a, w)"

definition fail :: "goerr \<Rightarrow> ('w, 'a) act" where
  "fail e w = (Inl e, w)"

text \<open>\<open>x, err := m; if err != nil { return err }; f x\<close>\<close>

definition bind :: "('w, 'a) act \<Rightarrow> ('a \<Rightarrow> ('w, 'b) act) \<Rightarrow> ('w, 'b) act" where
  "bind m f w = (case m w of (Inl e, w') \<Rightarrow> (Inl e, w') | (Inr a, w') \<Rightarrow> f a w')"

text \<open>\<open>if err := m; err != nil { return fmt.Errorf("s: %w", err) }\<close>\<close>

definition wrap :: "string \<Rightarrow> ('w, 'a) act \<Rightarrow> ('w, 'a) act" where
  "wrap s m w = (case m w of (Inl e, w') \<Rightarrow> (Inl (Wrap s e), w') | (Inr a, w') \<Rightarrow> (Inr a, w'))"

text \<open>\<open>x, err := m\<close> with both results inspected by what follows.\<close>

definition result_of :: "('w, 'a) act \<Rightarrow> ('w, goerr + 'a) act" where
  "result_of m w = (case m w of (r, w') \<Rightarrow> (Inr r, w'))"

section \<open>A Hoare calculus\<close>

text \<open>
  \<open>valid P m Q\<close>: from every state that satisfies \<open>P\<close>, \<open>m\<close> ends in a result and a
  state that satisfy \<open>Q\<close>; \<open>Q\<close> speaks about error results too.
\<close>

definition valid ::
    "('w \<Rightarrow> bool) \<Rightarrow> ('w, 'a) act \<Rightarrow> (goerr + 'a \<Rightarrow> 'w \<Rightarrow> bool) \<Rightarrow> bool" where
  "valid P m Q \<longleftrightarrow> (\<forall>w. P w \<longrightarrow> Q (fst (m w)) (snd (m w)))"

text \<open>The common shape of a postcondition: \<open>Q\<close> on success, \<open>E\<close> on error.\<close>

definition post :: "('a \<Rightarrow> 'w \<Rightarrow> bool) \<Rightarrow> ('w \<Rightarrow> bool) \<Rightarrow> goerr + 'a \<Rightarrow> 'w \<Rightarrow> bool" where
  "post Q E r w = (case r of Inl e \<Rightarrow> E w | Inr a \<Rightarrow> Q a w)"

lemma post_simps [simp]:
  "post Q E (Inl e) w = E w"
  "post Q E (Inr a) w = Q a w"
  by (simp_all add: post_def)

lemma validI: "(\<And>w r w'. P w \<Longrightarrow> m w = (r, w') \<Longrightarrow> Q r w') \<Longrightarrow> valid P m Q"
  by (auto simp: valid_def)

lemma validD: "valid P m Q \<Longrightarrow> P w \<Longrightarrow> m w = (r, w') \<Longrightarrow> Q r w'"
  by (metis fst_conv snd_conv valid_def)

lemma valid_conseq:
  "valid P m Q \<Longrightarrow> (\<And>w. P' w \<Longrightarrow> P w) \<Longrightarrow> (\<And>r w. Q r w \<Longrightarrow> Q' r w) \<Longrightarrow> valid P' m Q'"
  by (auto simp: valid_def)

lemma valid_pre: "valid P m Q \<Longrightarrow> (\<And>w. P' w \<Longrightarrow> P w) \<Longrightarrow> valid P' m Q"
  by (rule valid_conseq)

lemma valid_ret [wp_rule]: "(\<And>w. P w \<Longrightarrow> Q a w) \<Longrightarrow> valid P (ret a) (post Q E)"
  by (simp add: valid_def ret_def)

lemma valid_fail [wp_rule]: "(\<And>w. P w \<Longrightarrow> E w) \<Longrightarrow> valid P (fail e) (post Q E)"
  by (simp add: valid_def fail_def)

lemma valid_bind:
  assumes "valid P m (post R E)" and "\<And>a. valid (R a) (f a) (post Q E)"
  shows "valid P (bind m f) (post Q E)"
proof (rule validI)
  fix w r w'
  assume P: "P w" and b: "bind m f w = (r, w')"
  obtain r1 w1 where m: "m w = (r1, w1)" by fastforce
  have p1: "post R E r1 w1" by (rule validD [OF assms(1) P m])
  show "post Q E r w'"
  proof (cases r1)
    case (Inl e)
    with b m p1 show ?thesis by (auto simp: bind_def)
  next
    case (Inr a)
    with b m have "f a w1 = (r, w')" by (simp add: bind_def)
    then show ?thesis using p1 Inr validD [OF assms(2) [of a]] by auto
  qed
qed

lemma valid_wrap: "valid P m (post Q E) \<Longrightarrow> valid P (wrap s m) (post Q E)"
  by (auto simp: valid_def wrap_def split: prod.splits sum.splits)

lemma valid_result_of:
  assumes "valid P m (post Q E)"
  shows "valid P (result_of m) (post (\<lambda>r w. post Q E r w) E')"
  using assms by (auto simp: valid_def result_of_def split: prod.splits)

text \<open>After \<open>result_of\<close>, the code inspects the outcome; each branch starts from what is known
  of it.\<close>

lemma valid_sum_cases:
  assumes "\<And>e. valid R (f e) Z" and "\<And>a. valid (Q a) (g a) Z"
  shows "valid (post Q R r) (case r of Inl e \<Rightarrow> f e | Inr a \<Rightarrow> g a) Z"
  by (cases r) (simp_all add: post_def [abs_def] assms)

text \<open>
  The two facts that carry evaluation: what \<open>bind\<close> does once the first computation is
  known to succeed or fail.
\<close>

lemma bind_Inr [simp]: "m w = (Inr a, w') \<Longrightarrow> bind m f w = f a w'"
  by (simp add: bind_def)

lemma bind_Inl [simp]: "m w = (Inl e, w') \<Longrightarrow> bind m f w = (Inl e, w')"
  by (simp add: bind_def)

lemma ret_apply [simp]: "ret a w = (Inr a, w)"
  by (simp add: ret_def)

lemma fail_apply [simp]: "fail e w = (Inl e, w)"
  by (simp add: fail_def)

lemma result_of_apply [simp]: "m w = (r, w') \<Longrightarrow> result_of m w = (Inr r, w')"
  by (simp add: result_of_def)

lemma wrap_Inr [simp]: "m w = (Inr a, w') \<Longrightarrow> wrap s m w = (Inr a, w')"
  by (simp add: wrap_def)

lemma wrap_Inl [simp]: "m w = (Inl e, w') \<Longrightarrow> wrap s m w = (Inl (Wrap s e), w')"
  by (simp add: wrap_def)

section \<open>Tables: rows with a key\<close>

text \<open>
  A table is the list of its rows. \<open>find_by key k\<close> is the row a primary-key look-up
  returns; \<open>update_where\<close> is SQL's \<open>UPDATE ... SET ... WHERE ...\<close>.
\<close>

definition find_by :: "('r \<Rightarrow> 'k) \<Rightarrow> 'k \<Rightarrow> 'r list \<Rightarrow> 'r option" where
  "find_by key k rows = find (\<lambda>r. key r = k) rows"

definition update_where :: "('r \<Rightarrow> bool) \<Rightarrow> ('r \<Rightarrow> 'r) \<Rightarrow> 'r list \<Rightarrow> 'r list" where
  "update_where P f rows = map (\<lambda>r. if P r then f r else r) rows"

lemma find_by_Nil [simp]: "find_by key k [] = None"
  by (simp add: find_by_def)

lemma find_by_Cons [simp]:
  "find_by key k (r # rows) = (if key r = k then Some r else find_by key k rows)"
  by (simp add: find_by_def)

lemma find_by_SomeD: "find_by key k rows = Some r \<Longrightarrow> r \<in> set rows \<and> key r = k"
  by (induction rows) (auto split: if_splits)

lemma find_by_None_iff: "find_by key k rows = None \<longleftrightarrow> k \<notin> key ` set rows"
  by (induction rows) auto

lemma find_by_unique:
  "distinct (map key rows) \<Longrightarrow> r \<in> set rows \<Longrightarrow> find_by key (key r) rows = Some r"
  by (induction rows) (auto simp: image_iff)

lemma find_by_append [simp]:
  "find_by key k (xs @ ys) = (case find_by key k xs of None \<Rightarrow> find_by key k ys | Some r \<Rightarrow> Some r)"
  by (induction xs) auto

lemma find_by_update_where:
  assumes "\<And>r. key (f r) = key r"
  shows "find_by key k (update_where P f rows) =
    map_option (\<lambda>r. if P r then f r else r) (find_by key k rows)"
  by (induction rows) (auto simp: update_where_def assms)

lemma find_by_filter_key:
  "find_by key k (filter (\<lambda>r. Q (key r)) rows) = (if Q k then find_by key k rows else None)"
  by (induction rows) auto

lemma map_key_update_where [simp]:
  assumes "\<And>r. key (f r) = key r"
  shows "map key (update_where P f rows) = map key rows"
  by (induction rows) (auto simp: update_where_def assms)

lemma set_update_where:
  "set (update_where P f rows) = (\<lambda>r. if P r then f r else r) ` set rows"
  by (simp add: update_where_def)

lemma update_where_Nil [simp]: "update_where P f [] = []"
  by (simp add: update_where_def)

lemma update_where_Cons [simp]:
  "update_where P f (r # rows) = (if P r then f r else r) # update_where P f rows"
  by (simp add: update_where_def)

end
