(* ===== verification/Schema.thy ===== *)
theory Schema
  imports Prelude
begin

text \<open>
  The PostgreSQL schema of \<open>migrations/\<close> and the row types of \<open>internal/repository\<close>: a
  record per row type, the tables as lists of rows, the column defaults and the constraints
  that an INSERT or UPDATE checks (primary keys, unique indexes, CHECKs, foreign keys). A
  statement that violates a constraint is an error value and changes nothing. Timestamps
  are integers (nanoseconds since the epoch).
\<close>

section \<open>Row types\<close>

type_synonym uuid = "128 word"
type_synonym time = int

datatype status = Pending | Scheduled | Running | Done | Dead | Cancelled

definition StatusPending :: string where "StatusPending = ''pending''"
definition StatusScheduled :: string where "StatusScheduled = ''scheduled''"
definition StatusRunning :: string where "StatusRunning = ''running''"
definition StatusDone :: string where "StatusDone = ''done''"
definition StatusDead :: string where "StatusDead = ''dead''"
definition StatusCancelled :: string where "StatusCancelled = ''cancelled''"

text \<open>\<open>validStatuses\<close>, and the CHECK constraint \<open>jobs_status_check\<close>: the status a string
  names, if any.\<close>

definition validStatuses :: "string \<Rightarrow> status option" where
  "validStatuses = map_of [(StatusPending, Pending), (StatusScheduled, Scheduled),
     (StatusRunning, Running), (StatusDone, Done), (StatusDead, Dead),
     (StatusCancelled, Cancelled)]"

record job =
  ID :: uuid
  Type :: string
  Payload :: string
  Status :: status
  RunAt :: time
  Attempts :: int
  MaxAttempts :: int
  IdempotencyKey :: string
  CallbackURL :: "string option"
  LastError :: "string option"
  CreatedAt :: time
  UpdatedAt :: time
  QueueGeneration :: int

datatype exec_status = ExecRunning | ExecDone | ExecFailed

record execution =
  ExID :: int
  ExJobID :: uuid
  ExAttempt :: int
  ExStartedAt :: time
  ExFinishedAt :: "time option"
  ExStatus :: exec_status
  ExError :: "string option"
  ExResponseCode :: "int option"
  ExGeneration :: int

record outbox_entry =
  ObJobID :: uuid
  ObGeneration :: int
  ObRunAt :: time
  ObKind :: string
  ObCreatedAt :: time

record cron_job =
  CrID :: int
  CrExpression :: string
  CrTemplate :: string
  CrNextRunAt :: time
  CrEnabled :: bool
  CrCreatedAt :: time

record api_key =
  AkID :: uuid
  AkClientName :: string
  AkHashedKey :: string
  AkCreatedAt :: time
  AkRevokedAt :: "time option"

record tables =
  jobs :: "job list"
  executions :: "execution list"
  execution_seq :: int
  outbox :: "outbox_entry list"
  cron_jobs :: "cron_job list"
  cron_seq :: int
  api_keys :: "api_key list"

abbreviation job_of :: "uuid \<Rightarrow> tables \<Rightarrow> job option" where
  "job_of i d \<equiv> find_by ID i (jobs d)"

abbreviation outbox_of :: "uuid \<Rightarrow> tables \<Rightarrow> outbox_entry option" where
  "outbox_of i d \<equiv> find_by ObJobID i (outbox d)"

section \<open>Constraints\<close>

definition max_attempts_check :: "int \<Rightarrow> bool" where
  "max_attempts_check n \<longleftrightarrow> 0 < n \<and> n \<le> 100"

definition attempts_check :: "int \<Rightarrow> bool" where
  "attempts_check n \<longleftrightarrow> 0 \<le> n"

text \<open>\<open>INSERT INTO jobs\<close>: \<open>attempts\<close> and \<open>queue_generation\<close> take their defaults 0 and
  1 and are not columns of any INSERT in the repository.\<close>

definition insert_job :: "job \<Rightarrow> tables \<Rightarrow> goerr + (uuid \<times> tables)" where
  "insert_job j d =
     (if \<not> max_attempts_check (MaxAttempts j) then Inl (PgCheck ''jobs_max_attempts_check'')
      else if \<not> attempts_check (Attempts j) then Inl (PgCheck ''jobs_attempts_check'')
      else if ID j \<in> ID ` set (jobs d) then Inl (PgUnique ''jobs_pkey'')
      else if IdempotencyKey j \<in> IdempotencyKey ` set (jobs d)
        then Inl (PgUnique ''jobs_idempotency_key_key'')
      else Inr (ID j, d\<lparr>jobs := jobs d @ [j]\<rparr>))"

text \<open>\<open>INSERT INTO job_outbox ... ON CONFLICT (job_id) DO UPDATE\<close>.\<close>

definition upsert_outbox :: "outbox_entry \<Rightarrow> tables \<Rightarrow> goerr + (unit \<times> tables)" where
  "upsert_outbox e d =
     (if ObKind e \<notin> {''immediate'', ''scheduled''} then Inl (PgCheck ''job_outbox_kind_check'')
      else if ObJobID e \<in> ObJobID ` set (outbox d)
        then Inr ((), d\<lparr>outbox := update_where (\<lambda>o'. ObJobID o' = ObJobID e) (\<lambda>_. e) (outbox d)\<rparr>)
      else if ObJobID e \<notin> ID ` set (jobs d) then Inl (PgCheck ''job_outbox_job_id_fkey'')
      else Inr ((), d\<lparr>outbox := outbox d @ [e]\<rparr>))"

text \<open>\<open>INSERT INTO job_executions\<close>: the identity column is the next sequence value, which
  is used up even when the statement fails; a failing statement's only trace is that gap, so
  it is left out.\<close>

definition insert_execution :: "execution \<Rightarrow> tables \<Rightarrow> goerr + (int \<times> tables)" where
  "insert_execution x d =
     (if (\<exists>y\<in>set (executions d). ExJobID y = ExJobID x \<and> ExGeneration y = ExGeneration x
            \<and> ExAttempt y = ExAttempt x)
        then Inl (PgUnique ''job_executions_job_attempt_unique'')
      else if ExJobID x \<notin> ID ` set (jobs d) then Inl (PgCheck ''job_executions_job_id_fkey'')
      else Inr (execution_seq d,
        d\<lparr>executions := executions d @ [x\<lparr>ExID := execution_seq d\<rparr>],
          execution_seq := execution_seq d + 1\<rparr>))"

section \<open>What the constraints guarantee\<close>

definition job_ok :: "job \<Rightarrow> bool" where
  "job_ok j \<longleftrightarrow> attempts_check (Attempts j) \<and> max_attempts_check (MaxAttempts j)
     \<and> 1 \<le> QueueGeneration j"

definition jobs_ok :: "job list \<Rightarrow> bool" where
  "jobs_ok js \<longleftrightarrow> distinct (map ID js) \<and> distinct (map IdempotencyKey js)
     \<and> (\<forall>j\<in>set js. job_ok j)"

definition outbox_ok :: "uuid set \<Rightarrow> outbox_entry list \<Rightarrow> bool" where
  "outbox_ok ids os \<longleftrightarrow> distinct (map ObJobID os) \<and> ObJobID ` set os \<subseteq> ids"

definition executions_ok :: "uuid set \<Rightarrow> int \<Rightarrow> execution list \<Rightarrow> bool" where
  "executions_ok ids n xs \<longleftrightarrow> (\<forall>x\<in>set xs. ExID x < n) \<and> distinct (map ExID xs)
     \<and> distinct (map (\<lambda>x. (ExJobID x, ExGeneration x, ExAttempt x)) xs)
     \<and> ExJobID ` set xs \<subseteq> ids"

definition schema_ok :: "tables \<Rightarrow> bool" where
  "schema_ok d \<longleftrightarrow> jobs_ok (jobs d) \<and> outbox_ok (ID ` set (jobs d)) (outbox d)
     \<and> executions_ok (ID ` set (jobs d)) (execution_seq d) (executions d)"

lemma validStatuses_simps [simp]:
  "validStatuses StatusPending = Some Pending"
  "validStatuses StatusScheduled = Some Scheduled"
  "validStatuses StatusRunning = Some Running"
  "validStatuses StatusDone = Some Done"
  "validStatuses StatusDead = Some Dead"
  "validStatuses StatusCancelled = Some Cancelled"
  by (simp_all add: validStatuses_def StatusPending_def StatusScheduled_def StatusRunning_def
      StatusDone_def StatusDead_def StatusCancelled_def)

lemma outbox_ok_mono: "outbox_ok A os \<Longrightarrow> A \<subseteq> B \<Longrightarrow> outbox_ok B os"
  by (auto simp: outbox_ok_def)

lemma executions_ok_mono: "executions_ok A n xs \<Longrightarrow> A \<subseteq> B \<Longrightarrow> executions_ok B n xs"
  by (auto simp: executions_ok_def)

lemma insert_job_ok:
  assumes "insert_job j d = Inr (i, d')" and "schema_ok d" and "QueueGeneration j = 1"
  shows "schema_ok d'"
proof -
  from assms(1) have d': "d' = d\<lparr>jobs := jobs d @ [j]\<rparr>"
    and new: "ID j \<notin> ID ` set (jobs d)" "IdempotencyKey j \<notin> IdempotencyKey ` set (jobs d)"
      "max_attempts_check (MaxAttempts j)" "attempts_check (Attempts j)"
    by (simp_all add: insert_job_def split: if_splits)
  have "jobs_ok (jobs d @ [j])"
    using assms(2,3) new by (simp add: schema_ok_def jobs_ok_def job_ok_def)
  moreover have "ID ` set (jobs d) \<subseteq> ID ` set (jobs d @ [j])" by auto
  ultimately show ?thesis
    using assms(2) by (auto simp: schema_ok_def d' elim: outbox_ok_mono executions_ok_mono)
qed

lemma upsert_outbox_keys:
  "map ObJobID (update_where (\<lambda>o'. ObJobID o' = ObJobID e) (\<lambda>_. e) rows) = map ObJobID rows"
  by (induction rows) auto

lemma upsert_outbox_ok:
  assumes "upsert_outbox e d = Inr (u, d')" and "schema_ok d"
  shows "schema_ok d'"
proof -
  have keys: "ObJobID ` set (update_where (\<lambda>o'. ObJobID o' = ObJobID e) (\<lambda>_. e) (outbox d))
    = ObJobID ` set (outbox d)"
    using arg_cong [OF upsert_outbox_keys [of e "outbox d"], of set] by simp
  show ?thesis
  proof (cases "ObJobID e \<in> ObJobID ` set (outbox d)")
    case True
    with assms(1) have "d' = d\<lparr>outbox :=
        update_where (\<lambda>o'. ObJobID o' = ObJobID e) (\<lambda>_. e) (outbox d)\<rparr>"
      by (simp add: upsert_outbox_def split: if_splits)
    with assms(2) keys show ?thesis
      by (simp add: schema_ok_def outbox_ok_def upsert_outbox_keys)
  next
    case False
    with assms(1) have "d' = d\<lparr>outbox := outbox d @ [e]\<rparr>" "ObJobID e \<in> ID ` set (jobs d)"
      by (simp_all add: upsert_outbox_def split: if_splits)
    with assms(2) False show ?thesis by (simp add: schema_ok_def outbox_ok_def)
  qed
qed

lemma insert_execution_ok:
  assumes "insert_execution x d = Inr (i, d')" and "schema_ok d"
  shows "schema_ok d'"
proof -
  let ?x = "x\<lparr>ExID := execution_seq d\<rparr>"
  from assms(1) have d': "d' = d\<lparr>executions := executions d @ [?x],
      execution_seq := execution_seq d + 1\<rparr>"
    and new: "\<not> (\<exists>y\<in>set (executions d). ExJobID y = ExJobID x \<and> ExGeneration y = ExGeneration x
      \<and> ExAttempt y = ExAttempt x)" and fk: "ExJobID x \<in> ID ` set (jobs d)"
    by (auto simp: insert_execution_def split: if_splits)
  have "executions_ok (ID ` set (jobs d)) (execution_seq d + 1) (executions d @ [?x])"
    using assms(2) new fk by (force simp: schema_ok_def executions_ok_def)
  then show ?thesis using assms(2) by (simp add: schema_ok_def d')
qed

end
