(* ===== verification/GoStrings.thy ===== *)
theory GoStrings
  imports Prelude
begin

text \<open>
  What the source uses of Go's \<open>strings\<close> and \<open>strconv\<close> packages and of \<open>error.Error()\<close>:
  prefix and suffix tests, case folding, splitting, and decimal conversion of 64-bit
  integers in both directions, with the round trip that the queue relies on for its
  generation numbers.
\<close>

section \<open>Package strings\<close>

definition TrimSuffix :: "string \<Rightarrow> string \<Rightarrow> string" where
  "TrimSuffix s p = (if has_suffix s p then take (length s - length p) s else s)"

definition TrimPrefix :: "string \<Rightarrow> string \<Rightarrow> string" where
  "TrimPrefix s p = (if has_prefix s p then drop (length p) s else s)"

fun Contains :: "string \<Rightarrow> string \<Rightarrow> bool" where
  "Contains [] p = (p = [])"
| "Contains (c # s) p = (has_prefix (c # s) p \<or> Contains s p)"

text \<open>\<open>strings.Split\<close> and \<open>strings.Cut\<close> at a single byte.\<close>

fun Split :: "string \<Rightarrow> char \<Rightarrow> string list" where
  "Split [] sep = [[]]"
| "Split (c # s) sep =
     (if c = sep then [] # Split s sep
      else case Split s sep of [] \<Rightarrow> [[c]] | w # ws \<Rightarrow> (c # w) # ws)"

definition Cut :: "string \<Rightarrow> char \<Rightarrow> string" where
  "Cut s sep = takeWhile (\<lambda>c. c \<noteq> sep) s"

text \<open>
  \<open>strings.ToLower\<close>, up to what a comparison with ASCII text can tell: the upper-case ASCII
  letters, and the two code points outside ASCII whose lower case is an ASCII letter
  (U+212A, the Kelvin sign, and U+0130). All other code points stay outside ASCII.
\<close>

definition lower_char :: "char \<Rightarrow> char" where
  "lower_char c = (let n = of_char c :: nat in if 65 \<le> n \<and> n \<le> 90 then char_of (n + 32) else c)"

fun ToLower :: "string \<Rightarrow> string" where
  "ToLower [] = []"
| "ToLower (c # s) =
     (if c = CHR 0xE2 \<and> take 2 s = [CHR 0x84, CHR 0xAA] then CHR ''k'' # ToLower (drop 2 s)
      else if c = CHR 0xC4 \<and> take 1 s = [CHR 0xB0] then CHR ''i'' # ToLower (drop 1 s)
      else lower_char c # ToLower s)"

section \<open>Package strconv\<close>

definition digit :: "nat \<Rightarrow> char" where
  "digit n = char_of (48 + n)"

fun decimal :: "nat \<Rightarrow> string" where
  "decimal n = (if n < 10 then [digit n] else decimal (n div 10) @ [digit (n mod 10)])"

declare decimal.simps [simp del]

definition FormatInt :: "int \<Rightarrow> string" where
  "FormatInt x = (if x < 0 then CHR ''-'' # decimal (nat (- x)) else decimal (nat x))"

definition digit_val :: "char \<Rightarrow> nat option" where
  "digit_val c = (let n = of_char c in if 48 \<le> n \<and> n \<le> 57 then Some (n - 48) else None)"

fun digits_val :: "nat \<Rightarrow> string \<Rightarrow> nat option" where
  "digits_val acc [] = Some acc"
| "digits_val acc (c # s) =
     (case digit_val c of None \<Rightarrow> None | Some d \<Rightarrow> digits_val (10 * acc + d) s)"

text \<open>\<open>strconv.ParseInt(s, 10, 64)\<close> and \<open>strconv.Atoi\<close>: an optional sign, at least one
  digit, no other character, and a value that fits; \<open>None\<close> is any error.\<close>

definition parse_unsigned :: "string \<Rightarrow> nat option" where
  "parse_unsigned s = (if s = [] then None else digits_val 0 s)"

definition ParseInt :: "string \<Rightarrow> int option" where
  "ParseInt s =
     (let neg = (has_prefix s ''-'');
          body = (if neg \<or> has_prefix s ''+'' then drop 1 s else s) in
      case parse_unsigned body of
        None \<Rightarrow> None
      | Some n \<Rightarrow>
          (let x = (if neg then - int n else int n) in
           if - (2 ^ 63) \<le> x \<and> x < 2 ^ 63 then Some x else None))"

definition Atoi :: "string \<Rightarrow> int option" where
  "Atoi = ParseInt"

section \<open>Texts of errors\<close>

text \<open>The text of an error, without the values that \<open>%q\<close> and \<open>%s\<close> print.\<close>

fun Error :: "goerr \<Rightarrow> string" where
  "Error (Wrap m e) = m @ '': '' @ Error e"
| "Error (Err m) = m"
| "Error (ReplyErr m) = m"
| "Error ErrNotFound = ''resource does not exist''"
| "Error ErrNotCancellable = ''job cannot be cancelled in its current state''"
| "Error ErrConflict = ''idempotency key already exists''"
| "Error ErrNoRows = ''no rows in result set''"
| "Error RedisNil = ''redis: nil''"
| "Error (PgUnique c) = ''duplicate key value violates unique constraint '' @ c"
| "Error (PgCheck c) = ''new row violates constraint '' @ c"
| "Error TxAborted = ''commit unexpectedly resulted in rollback''"
| "Error Canceled = ''context canceled''"
| "Error Unavailable = ''context deadline exceeded''"
| "Error ErrInvalidURL = ''invalid callback URL''"
| "Error ErrPrivateAddress = ''callback URL resolves to private address''"
| "Error ErrBlockedHost = ''callback URL host is blocked''"
| "Error ErrDNSResolution = ''DNS resolution failed''"

section \<open>Lemmas\<close>

lemma digit_val_digit [simp]: "n < 10 \<Longrightarrow> digit_val (digit n) = Some n"
  by (simp add: digit_val_def digit_def)

lemma digits_val_append:
  "digits_val acc (xs @ ys) = (case digits_val acc xs of None \<Rightarrow> None | Some a \<Rightarrow> digits_val a ys)"
  by (induction xs arbitrary: acc) (auto split: option.splits)

lemma digits_val_decimal: "digits_val 0 (decimal n) = Some n"
proof (induction n rule: decimal.induct)
  case (1 n)
  show ?case
  proof (cases "n < 10")
    case True
    then show ?thesis by (simp add: decimal.simps [of n])
  next
    case False
    with 1 have "digits_val 0 (decimal (n div 10)) = Some (n div 10)" by simp
    then show ?thesis
      using False by (simp add: decimal.simps [of n] digits_val_append)
  qed
qed

lemma decimal_not_Nil [simp]: "decimal n \<noteq> []"
  by (simp add: decimal.simps [of n])

lemma hd_decimal: "\<exists>d < 10. hd (decimal n) = digit d"
proof (induction n rule: decimal.induct)
  case (1 n)
  show ?case
  proof (cases "n < 10")
    case True
    then show ?thesis by (auto simp: decimal.simps [of n])
  next
    case False
    with 1 show ?thesis by (simp add: decimal.simps [of n])
  qed
qed

lemma digit_not_sign: "d < 10 \<Longrightarrow> digit d \<noteq> CHR ''-'' \<and> digit d \<noteq> CHR ''+''"
proof -
  assume "d < 10"
  then have "of_char (digit d) = (48 + d :: nat)" by (simp add: digit_def)
  then have "of_char (digit d) \<noteq> (of_char (CHR ''-'') :: nat)"
    and "of_char (digit d) \<noteq> (of_char (CHR ''+'') :: nat)" by simp_all
  then show ?thesis by metis
qed

lemma decimal_no_sign:
  "\<not> has_prefix (decimal n) ''-''" "\<not> has_prefix (decimal n) ''+''"
  using hd_decimal [of n] digit_not_sign
  by (cases "decimal n", auto simp: has_prefix_def)+

lemma ParseInt_FormatInt:
  "- (2 ^ 63) \<le> x \<Longrightarrow> x < 2 ^ 63 \<Longrightarrow> ParseInt (FormatInt x) = Some x"
  using decimal_no_sign [of "nat x"]
  by (auto simp: ParseInt_def FormatInt_def parse_unsigned_def digits_val_decimal has_prefix_def)

lemma FormatInt_not_Nil [simp]: "FormatInt x \<noteq> []"
  by (simp add: FormatInt_def)

end
