(* ===== verification/RedisSrv.thy ===== *)
theory RedisSrv
  imports GoStrings
begin

text \<open>
  Redis is a service outside the repository. Its commands are therefore a parameter of the
  model, the record \<open>redis_srv\<close>; every definition that issues a command takes it. What
  the code relies on is the predicate \<open>redis_ok\<close>, the conjunction of one law per command
  that states the documented behaviour of that command on the server's data types (streams
  with consumer groups, sorted sets, hashes, counters, strings with an expiry). The server
  decides what the documentation leaves open: the generated stream ids, how much an
  approximate \<open>MAXLEN\<close> trims, which stale entries \<open>XPENDING\<close> and \<open>XCLAIM\<close> select.
  \<open>mem_redis\<close> is an in-memory server that satisfies the laws, so the hypothesis can hold;
  witnesses evaluate with it.
\<close>

section \<open>The data a server holds\<close>

type_synonym fields = "(string \<times> string) list"
type_synonym entry = "string \<times> fields"

text \<open>A consumer group: how many entries at the head of the stream it has read (the
  position of the last delivered id) and its pending entries list.\<close>

record pel_entry =
  PeID :: string
  PeConsumer :: string
  PeCount :: int

record cgroup =
  CgRead :: nat
  CgPel :: "pel_entry list"

record redis =
  Streams :: "string \<Rightarrow> entry list"
  Groups :: "string \<Rightarrow> (string \<times> cgroup) list"
  ZSets :: "string \<Rightarrow> (string \<times> int) list"
  Hashes :: "string \<Rightarrow> (string \<times> string) list"
  ZTtls :: "string \<Rightarrow> int"
  Counters :: "string \<Rightarrow> int"
  Strings :: "string \<Rightarrow> (string \<times> int) option"
  Clock :: int

definition al_del :: "'k \<Rightarrow> ('k \<times> 'v) list \<Rightarrow> ('k \<times> 'v) list" where
  "al_del k al = filter (\<lambda>p. fst p \<noteq> k) al"

definition al_upd :: "'k \<Rightarrow> 'v \<Rightarrow> ('k \<times> 'v) list \<Rightarrow> ('k \<times> 'v) list" where
  "al_upd k v al = al_del k al @ [(k, v)]"

definition live :: "string \<Rightarrow> redis \<Rightarrow> string option" where
  "live k s = (case Strings s k of None \<Rightarrow> None
     | Some (v, t) \<Rightarrow> if Clock s < t then Some v else None)"

definition set_zset :: "string \<Rightarrow> (string \<times> int) list \<Rightarrow> redis \<Rightarrow> redis" where
  "set_zset k z s = s\<lparr>ZSets := (ZSets s)(k := z)\<rparr>"

definition set_hash :: "string \<Rightarrow> (string \<times> string) list \<Rightarrow> redis \<Rightarrow> redis" where
  "set_hash k h s = s\<lparr>Hashes := (Hashes s)(k := h)\<rparr>"

definition group_of :: "string \<Rightarrow> string \<Rightarrow> redis \<Rightarrow> cgroup option" where
  "group_of k g s = map_of (Groups s k) g"

definition set_group :: "string \<Rightarrow> string \<Rightarrow> cgroup \<Rightarrow> redis \<Rightarrow> redis" where
  "set_group k g c s = s\<lparr>Groups := (Groups s)(k := al_upd g c (Groups s k))\<rparr>"

text \<open>Append an entry and drop the \<open>n\<close> oldest; the groups' positions move along.\<close>

definition push_entry :: "string \<Rightarrow> nat \<Rightarrow> entry \<Rightarrow> redis \<Rightarrow> redis" where
  "push_entry k n e s = s\<lparr>Streams := (Streams s)(k := drop n (Streams s k @ [e])),
     Groups := (Groups s)(k := map (map_prod id (\<lambda>c. c\<lparr>CgRead := CgRead c - n\<rparr>)) (Groups s k))\<rparr>"

definition pel_ids :: "string \<Rightarrow> string \<Rightarrow> redis \<Rightarrow> string set" where
  "pel_ids k g s = (case group_of k g s of None \<Rightarrow> {} | Some c \<Rightarrow> PeID ` set (CgPel c))"

section \<open>The commands\<close>

record redis_srv =
  XADD :: "string \<Rightarrow> int \<Rightarrow> fields \<Rightarrow> redis \<Rightarrow> string \<times> redis"
  XACK :: "string \<Rightarrow> string \<Rightarrow> string \<Rightarrow> redis \<Rightarrow> int \<times> redis"
  XGROUP_CREATE :: "string \<Rightarrow> string \<Rightarrow> redis \<Rightarrow> (goerr + unit) \<times> redis"
  XREADGROUP :: "string \<Rightarrow> string \<Rightarrow> string \<Rightarrow> nat \<Rightarrow> redis \<Rightarrow> (goerr + entry list) \<times> redis"
  XPENDING :: "string \<Rightarrow> string \<Rightarrow> int \<Rightarrow> nat \<Rightarrow> redis \<Rightarrow> goerr + pel_entry list"
  XCLAIM :: "string \<Rightarrow> string \<Rightarrow> string \<Rightarrow> int \<Rightarrow> string list \<Rightarrow> redis \<Rightarrow> (goerr + entry list) \<times> redis"
  XRANGE :: "string \<Rightarrow> string \<Rightarrow> redis \<Rightarrow> entry list"
  XLEN :: "string \<Rightarrow> redis \<Rightarrow> int"
  XINFO_GROUPS :: "string \<Rightarrow> redis \<Rightarrow> (string \<times> int) list"
  XPENDING_COUNT :: "string \<Rightarrow> string \<Rightarrow> redis \<Rightarrow> goerr + int"
  ZADD :: "string \<Rightarrow> int \<Rightarrow> string \<Rightarrow> redis \<Rightarrow> redis"
  ZREM :: "string \<Rightarrow> string \<Rightarrow> redis \<Rightarrow> redis"
  ZRANGEBYSCORE :: "string \<Rightarrow> int \<Rightarrow> nat \<Rightarrow> redis \<Rightarrow> string list"
  ZREMRANGEBYSCORE :: "string \<Rightarrow> int \<Rightarrow> int \<Rightarrow> redis \<Rightarrow> redis"
  ZCARD :: "string \<Rightarrow> redis \<Rightarrow> int"
  ZPEXPIRE :: "string \<Rightarrow> int \<Rightarrow> redis \<Rightarrow> redis"
  ZPTTL :: "string \<Rightarrow> redis \<Rightarrow> int"
  HSET :: "string \<Rightarrow> string \<Rightarrow> string \<Rightarrow> redis \<Rightarrow> redis"
  HGET :: "string \<Rightarrow> string \<Rightarrow> redis \<Rightarrow> string option"
  HDEL :: "string \<Rightarrow> string \<Rightarrow> redis \<Rightarrow> redis"
  INCR :: "string \<Rightarrow> redis \<Rightarrow> int \<times> redis"
  GET_COUNTER :: "string \<Rightarrow> redis \<Rightarrow> string option"
  SETNX :: "string \<Rightarrow> string \<Rightarrow> int \<Rightarrow> redis \<Rightarrow> bool \<times> redis"
  GET :: "string \<Rightarrow> redis \<Rightarrow> string option"
  PEXPIRE :: "string \<Rightarrow> int \<Rightarrow> redis \<Rightarrow> int \<times> redis"
  DEL :: "string \<Rightarrow> redis \<Rightarrow> int \<times> redis"

section \<open>Their documented behaviour\<close>

text \<open>\<open>XADD key MAXLEN ~ m *\<close>: a fresh id; approximate trimming drops oldest entries only
  while at least \<open>m\<close> are kept.\<close>

definition xadd_law :: "redis_srv \<Rightarrow> bool" where
  "xadd_law S \<longleftrightarrow> (\<forall>k m f s. \<exists>i n.
     XADD S k m f s = (i, push_entry k n (i, f) s)
     \<and> i \<notin> fst ` set (Streams s k) \<and> (\<forall>g. i \<notin> pel_ids k g s)
     \<and> (n = 0 \<or> m + int n \<le> int (length (Streams s k)) + 1))"

definition xack_law :: "redis_srv \<Rightarrow> bool" where
  "xack_law S \<longleftrightarrow> (\<forall>k g i s. XACK S k g i s =
     (case group_of k g s of
        None \<Rightarrow> (0, s)
      | Some c \<Rightarrow> if i \<in> PeID ` set (CgPel c)
          then (1, set_group k g (c\<lparr>CgPel := filter (\<lambda>p. PeID p \<noteq> i) (CgPel c)\<rparr>) s)
          else (0, s)))"

text \<open>\<open>XGROUP CREATE key group 0 MKSTREAM\<close>\<close>

definition xgroup_law :: "redis_srv \<Rightarrow> bool" where
  "xgroup_law S \<longleftrightarrow> (\<forall>k g s. XGROUP_CREATE S k g s =
     (case group_of k g s of
        None \<Rightarrow> (Inr (), set_group k g \<lparr>CgRead = 0, CgPel = []\<rparr> s)
      | Some c \<Rightarrow> (Inl (ReplyErr ''BUSYGROUP Consumer Group name already exists''), s)))"

text \<open>\<open>XREADGROUP GROUP group consumer COUNT n STREAMS key >\<close>\<close>

definition xreadgroup_law :: "redis_srv \<Rightarrow> bool" where
  "xreadgroup_law S \<longleftrightarrow> (\<forall>k g con n s. XREADGROUP S k g con n s =
     (case group_of k g s of
        None \<Rightarrow> (Inl (ReplyErr ''NOGROUP No such key or consumer group''), s)
      | Some c \<Rightarrow>
          (let batch = take n (drop (CgRead c) (Streams s k)) in
           if batch = [] then (Inl RedisNil, s)
           else (Inr batch, set_group k g
             (c\<lparr>CgRead := CgRead c + length batch,
                CgPel := CgPel c @ map (\<lambda>e. \<lparr>PeID = fst e, PeConsumer = con, PeCount = 1\<rparr>) batch\<rparr>) s))))"

text \<open>\<open>XPENDING key group IDLE t - + n\<close>: some of the pending entries, at most \<open>n\<close>, with
  their delivery counts.\<close>

definition xpending_law :: "redis_srv \<Rightarrow> bool" where
  "xpending_law S \<longleftrightarrow> (\<forall>k g t n s. case group_of k g s of
        None \<Rightarrow> XPENDING S k g t n s = Inl (ReplyErr ''NOGROUP No such key or consumer group'')
      | Some c \<Rightarrow> (\<exists>ps. XPENDING S k g t n s = Inr ps \<and> set ps \<subseteq> set (CgPel c) \<and> length ps \<le> n))"

text \<open>\<open>XCLAIM key group consumer t ids\<close>: some of the requested pending entries change
  hands; those whose stream entry was trimmed leave the list.\<close>

definition claim_pel :: "string \<Rightarrow> (string \<Rightarrow> bool) \<Rightarrow> string set \<Rightarrow> pel_entry list \<Rightarrow> pel_entry list" where
  "claim_pel con sel stored pel =
     map (\<lambda>p. if sel (PeID p) then p\<lparr>PeConsumer := con, PeCount := PeCount p + 1\<rparr> else p)
       (filter (\<lambda>p. sel (PeID p) \<longrightarrow> PeID p \<in> stored) pel)"

definition xclaim_law :: "redis_srv \<Rightarrow> bool" where
  "xclaim_law S \<longleftrightarrow> (\<forall>k g con t ids s. case group_of k g s of
        None \<Rightarrow> XCLAIM S k g con t ids s = (Inl (ReplyErr ''NOGROUP No such key or consumer group''), s)
      | Some c \<Rightarrow> (\<exists>sel es. (\<forall>i. sel i \<longrightarrow> i \<in> set ids \<and> i \<in> PeID ` set (CgPel c))
          \<and> set es = {e \<in> set (Streams s k). sel (fst e)}
          \<and> (distinct (map fst (Streams s k)) \<longrightarrow> distinct (map fst es))
          \<and> XCLAIM S k g con t ids s = (Inr es, set_group k g
              (c\<lparr>CgPel := claim_pel con sel (fst ` set (Streams s k)) (CgPel c)\<rparr>) s)))"

definition xrange_law :: "redis_srv \<Rightarrow> bool" where
  "xrange_law S \<longleftrightarrow> (\<forall>k i s. XRANGE S k i s = filter (\<lambda>e. fst e = i) (Streams s k))"

text \<open>\<open>XLEN\<close>, the \<open>lag\<close> of every group in \<open>XINFO GROUPS\<close>, the count in the summary
  form of \<open>XPENDING\<close>.\<close>

definition xinfo_law :: "redis_srv \<Rightarrow> bool" where
  "xinfo_law S \<longleftrightarrow>
     (\<forall>k s. XLEN S k s = int (length (Streams s k)))
     \<and> (\<forall>k s. XINFO_GROUPS S k s =
        map (map_prod id (\<lambda>c. int (length (Streams s k)) - int (CgRead c))) (Groups s k))
     \<and> (\<forall>k g s. XPENDING_COUNT S k g s = (case group_of k g s of
        None \<Rightarrow> Inl (ReplyErr ''NOGROUP No such key or consumer group'')
      | Some c \<Rightarrow> Inr (int (length (CgPel c)))))"

definition zset_law :: "redis_srv \<Rightarrow> bool" where
  "zset_law S \<longleftrightarrow>
     (\<forall>k sc m s. ZADD S k sc m s = set_zset k (al_upd m sc (ZSets s k)) s)
     \<and> (\<forall>k m s. ZREM S k m s = set_zset k (al_del m (ZSets s k)) s)
     \<and> (\<forall>k hi n s. \<exists>z. set z = {p \<in> set (ZSets s k). snd p \<le> hi}
          \<and> (distinct (map fst (ZSets s k)) \<longrightarrow> distinct (map fst z))
          \<and> sorted (map snd z) \<and> ZRANGEBYSCORE S k hi n s = map fst (take n z))
     \<and> (\<forall>k lo hi s. ZREMRANGEBYSCORE S k lo hi s =
          set_zset k (filter (\<lambda>p. \<not> (lo \<le> snd p \<and> snd p \<le> hi)) (ZSets s k)) s)
     \<and> (\<forall>k s. ZCARD S k s = int (length (ZSets s k)))"

text \<open>\<open>PEXPIRE\<close> and \<open>PTTL\<close> on the key of a sorted set; an empty set is an absent key.\<close>

definition zttl_law :: "redis_srv \<Rightarrow> bool" where
  "zttl_law S \<longleftrightarrow>
     (\<forall>k ttl s. ZPEXPIRE S k ttl s =
        (if ZSets s k = [] then s else s\<lparr>ZTtls := (ZTtls s)(k := Clock s + ttl)\<rparr>))
     \<and> (\<forall>k s. ZPTTL S k s = (if ZSets s k = [] then - 2 else ZTtls s k - Clock s))"

definition hash_law :: "redis_srv \<Rightarrow> bool" where
  "hash_law S \<longleftrightarrow>
     (\<forall>k f v s. HSET S k f v s = set_hash k (al_upd f v (Hashes s k)) s)
     \<and> (\<forall>k f s. HGET S k f s = map_of (Hashes s k) f)
     \<and> (\<forall>k f s. HDEL S k f s = set_hash k (al_del f (Hashes s k)) s)"

text \<open>\<open>INCR\<close>, and \<open>GET\<close> on the key of a counter: a key that was never incremented is
  absent, and the value of any other is its decimal text.\<close>

definition incr_law :: "redis_srv \<Rightarrow> bool" where
  "incr_law S \<longleftrightarrow>
     (\<forall>k s. INCR S k s =
        (Counters s k + 1, s\<lparr>Counters := (Counters s)(k := Counters s k + 1)\<rparr>))
     \<and> (\<forall>k s. GET_COUNTER S k s =
        (if Counters s k = 0 then None else Some (FormatInt (Counters s k))))"

definition string_law :: "redis_srv \<Rightarrow> bool" where
  "string_law S \<longleftrightarrow>
     (\<forall>k v ttl s. SETNX S k v ttl s =
        (case live k s of Some _ \<Rightarrow> (False, s)
         | None \<Rightarrow> (True, s\<lparr>Strings := (Strings s)(k := Some (v, Clock s + ttl))\<rparr>)))
     \<and> (\<forall>k s. GET S k s = live k s)
     \<and> (\<forall>k ttl s. PEXPIRE S k ttl s =
        (case live k s of None \<Rightarrow> (0, s)
         | Some v \<Rightarrow> (1, s\<lparr>Strings := (Strings s)(k := Some (v, Clock s + ttl))\<rparr>)))
     \<and> (\<forall>k s. DEL S k s =
        (case live k s of None \<Rightarrow> (0, s)
         | Some _ \<Rightarrow> (1, s\<lparr>Strings := (Strings s)(k := None)\<rparr>)))"

definition redis_ok :: "redis_srv \<Rightarrow> bool" where
  "redis_ok S \<longleftrightarrow> xadd_law S \<and> xack_law S \<and> xgroup_law S \<and> xreadgroup_law S
     \<and> xpending_law S \<and> xclaim_law S \<and> xrange_law S \<and> xinfo_law S \<and> zset_law S
     \<and> zttl_law S \<and> hash_law S \<and> incr_law S \<and> string_law S"

section \<open>An in-memory server\<close>

definition stream_ids :: "string \<Rightarrow> redis \<Rightarrow> string list" where
  "stream_ids k s = map fst (Streams s k) @ concat (map (map PeID \<circ> CgPel \<circ> snd) (Groups s k))"

definition fresh_id :: "string \<Rightarrow> redis \<Rightarrow> string" where
  "fresh_id k s = replicate (Suc (foldr max (map length (stream_ids k s)) 0)) (CHR ''0'')"

definition mem_redis :: redis_srv where
  "mem_redis = \<lparr>
     XADD = (\<lambda>k m f s. (fresh_id k s, push_entry k 0 (fresh_id k s, f) s)),
     XACK = (\<lambda>k g i s. case group_of k g s of
        None \<Rightarrow> (0, s)
      | Some c \<Rightarrow> if i \<in> PeID ` set (CgPel c)
          then (1, set_group k g (c\<lparr>CgPel := filter (\<lambda>p. PeID p \<noteq> i) (CgPel c)\<rparr>) s)
          else (0, s)),
     XGROUP_CREATE = (\<lambda>k g s. case group_of k g s of
        None \<Rightarrow> (Inr (), set_group k g \<lparr>CgRead = 0, CgPel = []\<rparr> s)
      | Some c \<Rightarrow> (Inl (ReplyErr ''BUSYGROUP Consumer Group name already exists''), s)),
     XREADGROUP = (\<lambda>k g con n s. case group_of k g s of
        None \<Rightarrow> (Inl (ReplyErr ''NOGROUP No such key or consumer group''), s)
      | Some c \<Rightarrow>
          (let batch = take n (drop (CgRead c) (Streams s k)) in
           if batch = [] then (Inl RedisNil, s)
           else (Inr batch, set_group k g
             (c\<lparr>CgRead := CgRead c + length batch,
                CgPel := CgPel c @ map (\<lambda>e. \<lparr>PeID = fst e, PeConsumer = con, PeCount = 1\<rparr>) batch\<rparr>) s))),
     XPENDING = (\<lambda>k g t n s. case group_of k g s of
        None \<Rightarrow> Inl (ReplyErr ''NOGROUP No such key or consumer group'')
      | Some c \<Rightarrow> Inr (take n (CgPel c))),
     XCLAIM = (\<lambda>k g con t ids s. case group_of k g s of
        None \<Rightarrow> (Inl (ReplyErr ''NOGROUP No such key or consumer group''), s)
      | Some c \<Rightarrow>
          (let sel = (\<lambda>i. i \<in> set ids \<and> i \<in> PeID ` set (CgPel c)) in
           (Inr (filter (\<lambda>e. sel (fst e)) (Streams s k)), set_group k g
              (c\<lparr>CgPel := claim_pel con sel (fst ` set (Streams s k)) (CgPel c)\<rparr>) s))),
     XRANGE = (\<lambda>k i s. filter (\<lambda>e. fst e = i) (Streams s k)),
     XLEN = (\<lambda>k s. int (length (Streams s k))),
     XINFO_GROUPS = (\<lambda>k s.
        map (map_prod id (\<lambda>c. int (length (Streams s k)) - int (CgRead c))) (Groups s k)),
     XPENDING_COUNT = (\<lambda>k g s. case group_of k g s of
        None \<Rightarrow> Inl (ReplyErr ''NOGROUP No such key or consumer group'')
      | Some c \<Rightarrow> Inr (int (length (CgPel c)))),
     ZADD = (\<lambda>k sc m s. set_zset k (al_upd m sc (ZSets s k)) s),
     ZREM = (\<lambda>k m s. set_zset k (al_del m (ZSets s k)) s),
     ZRANGEBYSCORE = (\<lambda>k hi n s.
        map fst (take n (sort_key snd (filter (\<lambda>p. snd p \<le> hi) (ZSets s k))))),
     ZREMRANGEBYSCORE = (\<lambda>k lo hi s.
        set_zset k (filter (\<lambda>p. \<not> (lo \<le> snd p \<and> snd p \<le> hi)) (ZSets s k)) s),
     ZCARD = (\<lambda>k s. int (length (ZSets s k))),
     ZPEXPIRE = (\<lambda>k ttl s.
        if ZSets s k = [] then s else s\<lparr>ZTtls := (ZTtls s)(k := Clock s + ttl)\<rparr>),
     ZPTTL = (\<lambda>k s. if ZSets s k = [] then - 2 else ZTtls s k - Clock s),
     HSET = (\<lambda>k f v s. set_hash k (al_upd f v (Hashes s k)) s),
     HGET = (\<lambda>k f s. map_of (Hashes s k) f),
     HDEL = (\<lambda>k f s. set_hash k (al_del f (Hashes s k)) s),
     INCR = (\<lambda>k s. (Counters s k + 1, s\<lparr>Counters := (Counters s)(k := Counters s k + 1)\<rparr>)),
     GET_COUNTER = (\<lambda>k s. if Counters s k = 0 then None else Some (FormatInt (Counters s k))),
     SETNX = (\<lambda>k v ttl s. case live k s of Some _ \<Rightarrow> (False, s)
         | None \<Rightarrow> (True, s\<lparr>Strings := (Strings s)(k := Some (v, Clock s + ttl))\<rparr>)),
     GET = live,
     PEXPIRE = (\<lambda>k ttl s. case live k s of None \<Rightarrow> (0, s)
         | Some v \<Rightarrow> (1, s\<lparr>Strings := (Strings s)(k := Some (v, Clock s + ttl))\<rparr>)),
     DEL = (\<lambda>k s. case live k s of None \<Rightarrow> (0, s)
         | Some _ \<Rightarrow> (1, s\<lparr>Strings := (Strings s)(k := None)\<rparr>))\<rparr>"

section \<open>Lemmas\<close>

lemma map_of_al_del [simp]: "map_of (al_del k al) = (map_of al)(k := None)"
  by (induction al) (auto simp: al_del_def)

lemma map_of_al_upd [simp]: "map_of (al_upd k v al) = (map_of al)(k \<mapsto> v)"
  by (auto simp: al_upd_def map_add_def split: option.splits)

lemma distinct_al_del: "distinct (map fst al) \<Longrightarrow> distinct (map fst (al_del k al))"
  by (simp add: al_del_def distinct_map_filter)

lemma distinct_al_upd: "distinct (map fst al) \<Longrightarrow> distinct (map fst (al_upd k v al))"
  by (auto simp: al_upd_def distinct_al_del) (auto simp: al_del_def)

lemma set_al_del: "set (al_del k al) = {p \<in> set al. fst p \<noteq> k}"
  by (auto simp: al_del_def)

lemma set_al_upd: "set (al_upd k v al) = insert (k, v) {p \<in> set al. fst p \<noteq> k}"
  by (auto simp: al_upd_def set_al_del)

lemma fresh_id_longer: "i \<in> set (stream_ids k s) \<Longrightarrow> length i < length (fresh_id k s)"
proof -
  have "x \<in> set xs \<Longrightarrow> x \<le> foldr max xs (0::nat)" for x xs
    by (induction xs) auto
  then show "i \<in> set (stream_ids k s) \<Longrightarrow> length i < length (fresh_id k s)"
    by (simp add: fresh_id_def less_Suc_eq_le)
qed

lemma fresh_id_fresh: "fresh_id k s \<notin> set (stream_ids k s)"
  using fresh_id_longer by blast

lemma pel_ids_stream_ids: "pel_ids k g s \<subseteq> set (stream_ids k s)"
  by (force simp: pel_ids_def stream_ids_def group_of_def split: option.splits dest!: map_of_SomeD)

lemma mem_redis_ok: "redis_ok mem_redis"
proof -
  have "xadd_law mem_redis"
    unfolding xadd_law_def
  proof (intro allI)
    fix k m f s
    have "fresh_id k s \<notin> fst ` set (Streams s k)" and "fresh_id k s \<notin> pel_ids k g s" for g
      using fresh_id_fresh [of k s] pel_ids_stream_ids [of k g s] by (auto simp: stream_ids_def)
    then show "\<exists>i n. XADD mem_redis k m f s = (i, push_entry k n (i, f) s)
      \<and> i \<notin> fst ` set (Streams s k) \<and> (\<forall>g. i \<notin> pel_ids k g s)
      \<and> (n = 0 \<or> m + int n \<le> int (length (Streams s k)) + 1)"
      by (intro exI [of _ "fresh_id k s"] exI [of _ 0]) (simp add: mem_redis_def)
  qed
  moreover have "xclaim_law mem_redis"
    unfolding xclaim_law_def
  proof (intro allI)
    fix k g con t ids s
    show "case group_of k g s of
        None \<Rightarrow> XCLAIM mem_redis k g con t ids s = (Inl (ReplyErr ''NOGROUP No such key or consumer group''), s)
      | Some c \<Rightarrow> (\<exists>sel es. (\<forall>i. sel i \<longrightarrow> i \<in> set ids \<and> i \<in> PeID ` set (CgPel c))
          \<and> set es = {e \<in> set (Streams s k). sel (fst e)}
          \<and> (distinct (map fst (Streams s k)) \<longrightarrow> distinct (map fst es))
          \<and> XCLAIM mem_redis k g con t ids s = (Inr es, set_group k g
              (c\<lparr>CgPel := claim_pel con sel (fst ` set (Streams s k)) (CgPel c)\<rparr>) s))"
    proof (cases "group_of k g s")
      case None
      then show ?thesis by (simp add: mem_redis_def)
    next
      case (Some c)
      let ?sel = "\<lambda>i. i \<in> set ids \<and> i \<in> PeID ` set (CgPel c)"
      let ?es = "filter (\<lambda>e. ?sel (fst e)) (Streams s k)"
      have "XCLAIM mem_redis k g con t ids s = (Inr ?es, set_group k g
              (c\<lparr>CgPel := claim_pel con ?sel (fst ` set (Streams s k)) (CgPel c)\<rparr>) s)"
        using Some by (simp add: mem_redis_def Let_def)
      moreover have "set ?es = {e \<in> set (Streams s k). ?sel (fst e)}" by simp
      moreover have "distinct (map fst (Streams s k)) \<longrightarrow> distinct (map fst ?es)"
        by (simp add: distinct_map_filter)
      ultimately show ?thesis
        unfolding Some option.case by (intro exI [of _ ?sel] exI [of _ ?es] conjI) auto
    qed
  qed
  moreover have "zset_law mem_redis"
  proof -
    have "\<exists>z. set z = {p \<in> set (ZSets s k). snd p \<le> hi}
          \<and> (distinct (map fst (ZSets s k)) \<longrightarrow> distinct (map fst z))
          \<and> sorted (map snd z) \<and> ZRANGEBYSCORE mem_redis k hi n s = map fst (take n z)" for k hi n s
      by (rule exI [of _ "sort_key snd (filter (\<lambda>p. snd p \<le> hi) (ZSets s k))"])
         (auto simp: mem_redis_def distinct_map inj_on_def)
    then show ?thesis by (simp add: zset_law_def) (simp add: mem_redis_def)
  qed
  ultimately show ?thesis
    by (simp add: redis_ok_def xack_law_def xgroup_law_def xreadgroup_law_def xpending_law_def
        xrange_law_def xinfo_law_def zttl_law_def hash_law_def incr_law_def string_law_def)
      (simp add: mem_redis_def Let_def set_take_subset split: option.splits)
qed

end
