(* ===== verification/World.thy ===== *)
theory World
  imports Schema RedisSrv
begin

text \<open>
  The state a handler runs on and the environment it runs in. The \<open>world\<close> is what the
  processes share: the committed tables, the open transaction of the running handler (if
  any), the Redis keyspace, the callbacks that have been POSTed, and a counter of the calls
  made so far. The \<open>env\<close> holds everything the source does not determine: the Redis server,
  whether the n-th call reaches its service (\<open>fault\<close>), the clock, the random source, and
  the libraries outside the repository (UUIDs, JSON, URLs, cron, DNS, HTTP). Theorems
  quantify over it, so they hold for every pattern of failures.

  SQL statements are part of the source; they are functions on tables, executed here one at
  a time (autocommit) or inside a transaction, whose effects become visible at COMMIT and
  which PostgreSQL aborts at the first failing statement.
\<close>

section \<open>Environment and world\<close>

text \<open>How a request to Postgres or Redis ends: \<open>Up\<close>, executed and answered; \<open>Lost\<close>,
  not executed; \<open>Late\<close>, executed but the answer never arrives (time-out, broken
  connection). In the last two cases the caller sees the same error.\<close>

datatype fault = Up | Lost | Late

text \<open>The kinds of request, so that a hypothesis can say which of them may fail how: a SQL
  statement, the statement of \<open>ScheduleRetry\<close>, a COMMIT, a Redis command that writes, one
  that only reads, and the \<open>XRANGE\<close> of \<open>ReadMessagesByIDs\<close>.\<close>

datatype channel = PgStmt | PgRetry | PgCommit | RedisWrite | RedisRead | RedisRange

datatype json = JNull | JBool bool | JNum string | JStr string
  | JArr "json list" | JObj "(string \<times> json) list"

record url =
  Scheme :: string
  Host :: string
  Hostname :: string
  Port :: string

datatype ip = V4 "32 word" | V6 "128 word"

record template =
  TplType :: string
  TplPayload :: string
  TplMaxAttempts :: int
  TplCallbackURL :: "string option"

record http_request =
  RqMethod :: string
  RqURL :: string
  RqPayload :: string
  RqHeaders :: "(string \<times> string) list"

record http_response =
  RsStatus :: int
  RsBodyLen :: int

text \<open>The addresses and ports a dialer may connect to.\<close>

type_synonym endpoints = "(ip \<times> string) list"

text \<open>One exchange of the HTTP client with the endpoints its dialer may use: a transport
  error, a redirect (the request \<open>net/http\<close> would send next, with its parsed URL, and the
  3xx response), or any other response.\<close>

datatype hop = HopError goerr | HopRedirect url http_request http_response
  | HopResponse http_response

record env =
  srv :: redis_srv
  outcome :: "channel \<Rightarrow> nat \<Rightarrow> fault"
  clock_at :: "nat \<Rightarrow> time"
  uuid_at :: "nat \<Rightarrow> uuid"
  rand_at :: "nat \<Rightarrow> int"
  uuid_Parse :: "string \<Rightarrow> uuid option"
  uuid_String :: "uuid \<Rightarrow> string"
  url_Parse :: "string \<Rightarrow> url option"
  jsonb :: "string \<Rightarrow> string"
  Unmarshal :: "string \<Rightarrow> json option"
  json_Valid :: "string \<Rightarrow> bool"
  template_of :: "string \<Rightarrow> template option"
  sched_Marshal :: "string \<Rightarrow> int \<Rightarrow> string"
  lua_fields :: "string \<Rightarrow> (string option \<times> string) option"
  cron_Next :: "string \<Rightarrow> time \<Rightarrow> goerr + time"
  RFC3339Nano :: "time \<Rightarrow> string"
  Sum256 :: "string \<Rightarrow> string"
  crypto_Read :: "nat \<Rightarrow> nat \<Rightarrow> goerr + string"
  LookupIP :: "nat \<Rightarrow> string \<Rightarrow> goerr + ip list"
  exchange :: "nat \<Rightarrow> endpoints \<Rightarrow> http_request \<Rightarrow> hop"

record world =
  db :: tables
  txn :: "(tables \<times> bool) option"
  rd :: redis
  posts :: "(endpoints \<times> http_request) list"
  calls :: nat

type_synonym 'a handler = "(world, 'a) act"

definition tick :: "world \<Rightarrow> world" where
  "tick w = w\<lparr>calls := Suc (calls w)\<rparr>"

section \<open>Clock, random source, UUIDs\<close>

definition time_Now :: "env \<Rightarrow> time handler" where
  "time_Now E w = (Inr (clock_at E (calls w)), tick w)"

definition rand_Draw :: "env \<Rightarrow> int handler" where
  "rand_Draw E w = (Inr (rand_at E (calls w)), tick w)"

definition uuid_New :: "env \<Rightarrow> uuid handler" where
  "uuid_New E w = (Inr (uuid_at E (calls w)), tick w)"

section \<open>Calls to Redis\<close>

definition rcall :: "env \<Rightarrow> (redis_srv \<Rightarrow> redis \<Rightarrow> 'a \<times> redis) \<Rightarrow> 'a handler" where
  "rcall E f w =
     (case outcome E RedisWrite (calls w) of
        Up \<Rightarrow> (Inr (fst (f (srv E) (rd w))), (tick w)\<lparr>rd := snd (f (srv E) (rd w))\<rparr>)
      | Lost \<Rightarrow> (Inl Unavailable, tick w)
      | Late \<Rightarrow> (Inl Unavailable, (tick w)\<lparr>rd := snd (f (srv E) (rd w))\<rparr>))"

definition rread :: "env \<Rightarrow> channel \<Rightarrow> (redis_srv \<Rightarrow> redis \<Rightarrow> 'a) \<Rightarrow> 'a handler" where
  "rread E ch f w =
     (case outcome E ch (calls w) of
        Up \<Rightarrow> (Inr (f (srv E) (rd w)), tick w)
      | _ \<Rightarrow> (Inl Unavailable, tick w))"

text \<open>A command whose reply may be an error.\<close>

definition lift_reply :: "(goerr + 'a) handler \<Rightarrow> 'a handler" where
  "lift_reply m = bind m (\<lambda>r. case r of Inl e \<Rightarrow> fail e | Inr a \<Rightarrow> ret a)"

section \<open>SQL statements\<close>

text \<open>A statement sees the server's clock (\<open>NOW()\<close>) and the tables; it fails on a
  violated constraint.\<close>

type_synonym 'a stmt = "time \<Rightarrow> tables \<Rightarrow> goerr + ('a \<times> tables)"

definition stmt_db :: "'a stmt \<Rightarrow> time \<Rightarrow> tables \<Rightarrow> tables" where
  "stmt_db f t d = (case f t d of Inl e \<Rightarrow> d | Inr (a, d') \<Rightarrow> d')"

definition sql :: "env \<Rightarrow> channel \<Rightarrow> 'a stmt \<Rightarrow> 'a handler" where
  "sql E ch f w =
     (let t = clock_at E (calls w) in
      case outcome E ch (calls w) of
        Up \<Rightarrow> (case f t (db w) of
            Inl e \<Rightarrow> (Inl e, tick w)
          | Inr (a, d) \<Rightarrow> (Inr a, (tick w)\<lparr>db := d\<rparr>))
      | Lost \<Rightarrow> (Inl Unavailable, tick w)
      | Late \<Rightarrow> (Inl Unavailable, (tick w)\<lparr>db := stmt_db f t (db w)\<rparr>))"

text \<open>Transactions: \<open>pool.Begin\<close>, statements on the transaction's own view, \<open>Commit\<close>.
  A failing statement aborts the transaction: every later statement fails and \<open>COMMIT\<close>
  rolls back.\<close>

definition tx_begin :: "env \<Rightarrow> unit handler" where
  "tx_begin E w =
     (case outcome E PgStmt (calls w) of
        Up \<Rightarrow> (Inr (), (tick w)\<lparr>txn := Some (db w, False)\<rparr>)
      | _ \<Rightarrow> (Inl Unavailable, tick w))"

definition tx_sql :: "env \<Rightarrow> 'a stmt \<Rightarrow> 'a handler" where
  "tx_sql E f w =
     (case txn w of
        None \<Rightarrow> (Inl TxAborted, tick w)
      | Some (v, aborted) \<Rightarrow>
          if aborted then (Inl TxAborted, tick w)
          else (case outcome E PgStmt (calls w) of
              Up \<Rightarrow> (case f (clock_at E (calls w)) v of
                  Inl e \<Rightarrow> (Inl e, (tick w)\<lparr>txn := Some (v, True)\<rparr>)
                | Inr (a, v') \<Rightarrow> (Inr a, (tick w)\<lparr>txn := Some (v', False)\<rparr>))
            | _ \<Rightarrow> (Inl Unavailable, (tick w)\<lparr>txn := Some (v, True)\<rparr>)))"

definition tx_commit :: "env \<Rightarrow> unit handler" where
  "tx_commit E w =
     (case txn w of
        None \<Rightarrow> (Inl TxAborted, tick w)
      | Some (v, aborted) \<Rightarrow>
          if aborted then (Inl TxAborted, (tick w)\<lparr>txn := None\<rparr>)
          else (case outcome E PgCommit (calls w) of
              Up \<Rightarrow> (Inr (), (tick w)\<lparr>db := v, txn := None\<rparr>)
            | Lost \<Rightarrow> (Inl Unavailable, (tick w)\<lparr>txn := None\<rparr>)
            | Late \<Rightarrow> (Inl Unavailable, (tick w)\<lparr>db := v, txn := None\<rparr>)))"

text \<open>\<open>defer tx.Rollback(ctx)\<close>: whatever the body returns, no transaction stays open.\<close>

definition with_rollback :: "'a handler \<Rightarrow> 'a handler" where
  "with_rollback m w = (case m w of (r, w') \<Rightarrow> (r, w'\<lparr>txn := None\<rparr>))"

section \<open>Reasoning about calls\<close>

text \<open>Invariants of the platform speak about the committed tables and the keyspace.\<close>

definition holds :: "(tables \<Rightarrow> redis \<Rightarrow> bool) \<Rightarrow> world \<Rightarrow> bool" where
  "holds P w \<longleftrightarrow> P (db w) (rd w)"

lemma holds_tick [simp]: "holds P (tick w) = holds P w"
  by (simp add: holds_def tick_def)

lemma holds_txn [simp]: "holds P (w\<lparr>txn := t\<rparr>) = holds P w"
  by (simp add: holds_def)

lemma holds_posts [simp]: "holds P (w\<lparr>posts := ps\<rparr>) = holds P w"
  by (simp add: holds_def)

lemma tick_sel [simp]:
  "db (tick w) = db w" "rd (tick w) = rd w" "txn (tick w) = txn w" "posts (tick w) = posts w"
  "calls (tick w) = Suc (calls w)"
  by (simp_all add: tick_def)

lemma valid_time_Now [wp_rule]:
  "(\<And>w t. holds P w \<Longrightarrow> holds (Q t) w) \<Longrightarrow> valid (holds P) (time_Now E) (post (\<lambda>t. holds (Q t)) R)"
  by (simp add: valid_def time_Now_def)

lemma valid_rand_Draw [wp_rule]:
  "(\<And>w t. holds P w \<Longrightarrow> holds (Q t) w) \<Longrightarrow> valid (holds P) (rand_Draw E) (post (\<lambda>t. holds (Q t)) R)"
  by (simp add: valid_def rand_Draw_def)

lemma valid_uuid_New [wp_rule]:
  "(\<And>w t. holds P w \<Longrightarrow> holds (Q t) w) \<Longrightarrow> valid (holds P) (uuid_New E) (post (\<lambda>t. holds (Q t)) R)"
  by (simp add: valid_def uuid_New_def)

lemma valid_rcall:
  assumes "\<And>d s. P d s \<Longrightarrow> Q (fst (f (srv E) s)) d (snd (f (srv E) s))"
    and "\<And>d s. P d s \<Longrightarrow> R d s"
    and "\<And>d s n. P d s \<Longrightarrow> outcome E RedisWrite n = Late \<Longrightarrow> R d (snd (f (srv E) s))"
  shows "valid (holds P) (rcall E f) (post (\<lambda>a. holds (Q a)) (holds R))"
  by (rule validI) (auto simp: rcall_def holds_def assms(1,2) split: fault.splits intro: assms(3))

lemma valid_rread:
  assumes "\<And>d s. P d s \<Longrightarrow> Q (f (srv E) s) d s" and "\<And>d s. P d s \<Longrightarrow> R d s"
  shows "valid (holds P) (rread E ch f) (post (\<lambda>a. holds (Q a)) (holds R))"
  by (rule validI) (auto simp: rread_def holds_def assms split: fault.splits)

lemma valid_sql:
  assumes ok: "\<And>d s t a d'. P d s \<Longrightarrow> f t d = Inr (a, d') \<Longrightarrow> Q a d' s"
    and err: "\<And>d s. P d s \<Longrightarrow> R d s"
    and late: "\<And>d s t a d' n. P d s \<Longrightarrow> f t d = Inr (a, d') \<Longrightarrow> outcome E ch n = Late \<Longrightarrow> R d' s"
  shows "valid (holds P) (sql E ch f) (post (\<lambda>a. holds (Q a)) (holds R))"
proof (rule validI)
  fix w r w'
  assume P: "holds P w" and run: "sql E ch f w = (r, w')"
  let ?t = "clock_at E (calls w)"
  have P': "P (db w) (rd w)" using P by (simp add: holds_def)
  note R = err [OF P']
  show "post (\<lambda>a. holds (Q a)) (holds R) r w'"
  proof (cases "f ?t (db w)")
    case (Inl e)
    with run R show ?thesis
      by (auto simp: sql_def stmt_db_def holds_def Let_def split: fault.splits)
  next
    case (Inr p)
    obtain a d' where p: "p = (a, d')" by fastforce
    note f = Inr [unfolded p]
    show ?thesis
    proof (cases "outcome E ch (calls w)")
      case Up
      with run f ok [OF P' f] show ?thesis by (auto simp: sql_def holds_def)
    next
      case Lost
      with run R show ?thesis by (auto simp: sql_def holds_def)
    next
      case Late
      with run f late [OF P' f] show ?thesis
        by (auto simp: sql_def holds_def stmt_db_def)
    qed
  qed
qed

text \<open>Inside a transaction that is still sound, a predicate sees the transaction's view
  first, then what the rest of the world sees.\<close>

definition in_tx :: "(tables \<Rightarrow> tables \<Rightarrow> redis \<Rightarrow> bool) \<Rightarrow> world \<Rightarrow> bool" where
  "in_tx P w \<longleftrightarrow> (\<exists>v. txn w = Some (v, False) \<and> P v (db w) (rd w))"

lemma in_txI: "txn w = Some (v, False) \<Longrightarrow> P v (db w) (rd w) \<Longrightarrow> in_tx P w"
  by (auto simp: in_tx_def)

lemma valid_tx_begin:
  assumes "\<And>d s. P d s \<Longrightarrow> Q d d s" and "\<And>d s. P d s \<Longrightarrow> R d s"
  shows "valid (holds P) (tx_begin E) (post (\<lambda>_. in_tx Q) (holds R))"
  by (rule validI)
     (auto simp: tx_begin_def holds_def in_tx_def assms split: fault.splits)

lemma valid_tx_sql:
  assumes "\<And>v d s t a v'. P v d s \<Longrightarrow> f t v = Inr (a, v') \<Longrightarrow> Q a v' d s"
    and "\<And>v d s. P v d s \<Longrightarrow> R d s"
  shows "valid (in_tx P) (tx_sql E f) (post (\<lambda>a. in_tx (Q a)) (holds R))"
proof (rule validI)
  fix w r w'
  assume "in_tx P w" and run: "tx_sql E f w = (r, w')"
  then obtain v where v: "txn w = Some (v, False)" "P v (db w) (rd w)" by (auto simp: in_tx_def)
  show "post (\<lambda>a. in_tx (Q a)) (holds R) r w'"
  proof (cases "f (clock_at E (calls w)) v")
    case (Inl e)
    with run v assms(2) show ?thesis
      by (auto simp: tx_sql_def holds_def split: fault.splits)
  next
    case (Inr p)
    obtain a v' where p: "p = (a, v')" by fastforce
    with run v Inr assms(1) [OF v(2) Inr [unfolded p]] assms(2) [OF v(2)] show ?thesis
      by (auto simp: tx_sql_def holds_def in_tx_def split: fault.splits)
  qed
qed

lemma valid_tx_commit:
  assumes "\<And>v d s. P v d s \<Longrightarrow> Q v s" and "\<And>v d s. P v d s \<Longrightarrow> R d s"
    and "\<And>v d s n. P v d s \<Longrightarrow> outcome E PgCommit n = Late \<Longrightarrow> R v s"
  shows "valid (in_tx P) (tx_commit E) (post (\<lambda>_. holds Q) (holds R))"
proof (rule validI)
  fix w r w'
  assume "in_tx P w" and run: "tx_commit E w = (r, w')"
  then obtain v where v: "txn w = Some (v, False)" and P: "P v (db w) (rd w)"
    by (auto simp: in_tx_def)
  show "post (\<lambda>_. holds Q) (holds R) r w'"
    using run v assms(1,2) [OF P] assms(3) [OF P, of "calls w"]
    by (auto simp: tx_commit_def holds_def split: fault.splits)
qed

lemma valid_with_rollback:
  assumes "valid (holds P) m (post (\<lambda>a. holds (Q a)) (holds R))"
  shows "valid (holds P) (with_rollback m) (post (\<lambda>a. holds (Q a)) (holds R))"
proof (rule validI)
  fix w r w'
  assume P: "holds P w" and run: "with_rollback m w = (r, w')"
  obtain w1 where m: "m w = (r, w1)" and w': "w' = w1\<lparr>txn := None\<rparr>"
    using run by (auto simp: with_rollback_def split: prod.splits)
  have "post (\<lambda>a. holds (Q a)) (holds R) r w1" by (rule validD [OF assms P m])
  then show "post (\<lambda>a. holds (Q a)) (holds R) r w'" by (cases r) (simp_all add: w')
qed

lemma valid_lift_reply:
  assumes "valid P m (post (\<lambda>r w. case r of Inl e \<Rightarrow> R w | Inr a \<Rightarrow> Q a w) R)"
  shows "valid P (lift_reply m) (post Q R)"
  unfolding lift_reply_def
proof (rule valid_bind [OF assms])
  show "valid (\<lambda>w. case a of Inl e \<Rightarrow> R w | Inr a \<Rightarrow> Q a w)
    (case a of Inl e \<Rightarrow> fail e | Inr a \<Rightarrow> ret a) (post Q R)" for a
    by (cases a) (simp_all add: valid_ret valid_fail)
qed

text \<open>Evaluation when every call is answered.\<close>

definition all_up :: "env \<Rightarrow> bool" where
  "all_up E \<longleftrightarrow> (\<forall>c n. outcome E c n = Up)"

lemma rcall_up: "outcome E RedisWrite (calls w) = Up \<Longrightarrow> rcall E f w =
    (Inr (fst (f (srv E) (rd w))), (tick w)\<lparr>rd := snd (f (srv E) (rd w))\<rparr>)"
  by (simp add: rcall_def)

lemma sql_up: "outcome E ch (calls w) = Up \<Longrightarrow> f (clock_at E (calls w)) (db w) = Inr (a, d) \<Longrightarrow>
    sql E ch f w = (Inr a, (tick w)\<lparr>db := d\<rparr>)"
  by (simp add: sql_def)

lemma all_upD: "all_up E \<Longrightarrow> outcome E c n = Up"
  by (simp add: all_up_def)

end
