(* ===== verification/Streams.thy ===== *)
theory Streams
  imports World GoStrings
begin

text \<open>
  \<open>internal/stream\<close>: the ready stream with its consumer group, the delayed queue (a sorted
  set and a hash of payloads, moved by a Lua script) and the dead-letter stream. Messages
  travel as string fields; \<open>toMessage\<close> reads them back.
\<close>

section \<open>Keys and messages\<close>

definition ReadyStream :: string where "ReadyStream = ''jobs:ready''"
definition ConsumerGroup :: string where "ConsumerGroup = ''workers''"
definition ScheduledSet :: string where "ScheduledSet = ''jobs:scheduled''"
definition ScheduledPayloads :: string where "ScheduledPayloads = ''jobs:scheduled:data''"
definition DeadLetterStream :: string where "DeadLetterStream = ''jobs:dead''"

record message =
  MsgID :: string
  MsgJobID :: string
  MsgPayload :: string
  MsgGeneration :: int

text \<open>The dynamic types \<open>parseQueueGeneration\<close> distinguishes; \<open>RawOther\<close> is every other
  type and a missing field.\<close>

datatype raw = RawString string | RawInt64 int | RawInt int | RawOther

definition parseQueueGeneration :: "raw \<Rightarrow> int" where
  "parseQueueGeneration r =
     (case r of
        RawString v \<Rightarrow>
          if v = '''' then 1
          else (case ParseInt v of
              None \<Rightarrow> 1
            | Some n \<Rightarrow> if n \<le> 0 then 1 else n)
      | RawInt64 v \<Rightarrow> if v \<le> 0 then 1 else v
      | RawInt v \<Rightarrow> if v \<le> 0 then 1 else v
      | RawOther \<Rightarrow> 1)"

text \<open>go-redis turns the field list of an entry into a map, the last value of a field
  winning; every value is a string.\<close>

definition field :: "fields \<Rightarrow> string \<Rightarrow> string option" where
  "field fs k = map_of (rev fs) k"

definition toMessage :: "entry \<Rightarrow> goerr + message" where
  "toMessage e =
     (case field (snd e) ''job_id'' of
        None \<Rightarrow> Inl (Err ''stream message missing job_id'')
      | Some jobID \<Rightarrow>
          (case field (snd e) ''payload'' of
             None \<Rightarrow> Inl (Err ''stream message missing payload'')
           | Some payload \<Rightarrow>
               Inr \<lparr>MsgID = fst e, MsgJobID = jobID, MsgPayload = payload,
                    MsgGeneration = parseQueueGeneration
                      (case field (snd e) ''queue_generation'' of
                         None \<Rightarrow> RawOther | Some v \<Rightarrow> RawString v)\<rparr>))"

fun toMessages :: "entry list \<Rightarrow> goerr + message list" where
  "toMessages [] = Inr []"
| "toMessages (e # es) =
     (case toMessage e of
        Inl err \<Rightarrow> Inl err
      | Inr m \<Rightarrow> (case toMessages es of Inl err \<Rightarrow> Inl err | Inr ms \<Rightarrow> Inr (m # ms)))"

definition lift_sum :: "goerr + 'a \<Rightarrow> 'a handler" where
  "lift_sum r = (case r of Inl e \<Rightarrow> fail e | Inr a \<Rightarrow> ret a)"

section \<open>The ready stream\<close>

definition EnsureConsumerGroup :: "env \<Rightarrow> unit handler" where
  "EnsureConsumerGroup E =
     bind (result_of (lift_reply (rcall E (\<lambda>S. XGROUP_CREATE S ReadyStream ConsumerGroup)))) (\<lambda>r.
     case r of
       Inr _ \<Rightarrow> ret ()
     | Inl e \<Rightarrow> if has_prefix (Error e) ''BUSYGROUP'' then ret ()
                else fail (Wrap ''create consumer group'' e))"

definition ready_fields :: "string \<Rightarrow> string \<Rightarrow> string \<Rightarrow> fields" where
  "ready_fields jobID payload gen =
     [(''job_id'', jobID), (''payload'', payload), (''queue_generation'', gen)]"

definition EnqueueDue :: "env \<Rightarrow> string \<Rightarrow> string \<Rightarrow> int \<Rightarrow> string handler" where
  "EnqueueDue E jobID payload queueGeneration =
     wrap ''enqueue job'' (rcall E (\<lambda>S. XADD S ReadyStream 100000
       (ready_fields jobID payload (FormatInt queueGeneration))))"

definition DeadLetter :: "env \<Rightarrow> string \<Rightarrow> string \<Rightarrow> string handler" where
  "DeadLetter E jobID payload =
     wrap ''dead-letter job'' (rcall E (\<lambda>S. XADD S DeadLetterStream 100000
       [(''job_id'', jobID), (''payload'', payload)]))"

text \<open>The \<open>Block\<close> argument bounds how long the server waits before it answers nil.\<close>

definition ReadNextWithTimeout :: "env \<Rightarrow> string \<Rightarrow> message list handler" where
  "ReadNextWithTimeout E consumerName =
     bind (result_of (lift_reply (rcall E (\<lambda>S. XREADGROUP S ReadyStream ConsumerGroup consumerName 10)))) (\<lambda>r.
     case r of
       Inl e \<Rightarrow> if errors_Is e RedisNil then ret [] else fail (Wrap ''read from stream'' e)
     | Inr es \<Rightarrow> lift_sum (toMessages es))"

fun ReadMessagesByIDs :: "env \<Rightarrow> string list \<Rightarrow> message list handler" where
  "ReadMessagesByIDs E [] = ret []"
| "ReadMessagesByIDs E (i # ids) =
     bind (wrap ''read stream message'' (rread E RedisRange (\<lambda>S. XRANGE S ReadyStream i))) (\<lambda>entries.
     if entries = [] then fail (Err ''stream message not found (trimmed)'')
     else bind (lift_sum (toMessage (hd entries))) (\<lambda>m.
          bind (ReadMessagesByIDs E ids) (\<lambda>ms. ret (m # ms))))"

definition Acknowledge :: "env \<Rightarrow> string \<Rightarrow> int handler" where
  "Acknowledge E messageID =
     wrap ''acknowledge message'' (rcall E (\<lambda>S. XACK S ReadyStream ConsumerGroup messageID))"

text \<open>A \<open>PendingMessage\<close> is a \<open>pel_entry\<close>; its idle time is used nowhere in the
  repository.\<close>

definition ListStalePending :: "env \<Rightarrow> int \<Rightarrow> nat \<Rightarrow> pel_entry list handler" where
  "ListStalePending E minIdle count =
     wrap ''list stale pending messages''
       (lift_reply (rread E RedisRead (\<lambda>S. XPENDING S ReadyStream ConsumerGroup minIdle count)))"

definition Claim :: "env \<Rightarrow> string \<Rightarrow> int \<Rightarrow> string list \<Rightarrow> message list handler" where
  "Claim E consumerName minIdle messageIDs =
     bind (wrap ''claim pending messages''
       (lift_reply (rcall E (\<lambda>S. XCLAIM S ReadyStream ConsumerGroup consumerName minIdle messageIDs)))) (\<lambda>es.
     lift_sum (toMessages es))"

section \<open>The delayed queue\<close>

text \<open>\<open>time.Time.Unix\<close>: whole seconds, rounded towards the past.\<close>

definition Unix :: "int \<Rightarrow> int" where
  "Unix t = t div 1000000000"

text \<open>The Lua script of \<open>ScheduleJob\<close>: \<open>ZADD\<close> and \<open>HSET\<close> in one step.\<close>

definition schedule_script :: "redis_srv \<Rightarrow> string \<Rightarrow> int \<Rightarrow> string \<Rightarrow> redis \<Rightarrow> unit \<times> redis" where
  "schedule_script S jobID score data s =
     ((), HSET S ScheduledPayloads jobID data (ZADD S ScheduledSet score jobID s))"

definition ScheduleJob :: "env \<Rightarrow> string \<Rightarrow> string \<Rightarrow> int \<Rightarrow> time \<Rightarrow> unit handler" where
  "ScheduleJob E jobID payload queueGeneration runAt =
     wrap ''schedule job'' (rcall E (\<lambda>S. schedule_script S jobID (Unix runAt)
       (sched_Marshal E payload queueGeneration)))"

definition RemoveScheduled :: "env \<Rightarrow> string \<Rightarrow> unit handler" where
  "RemoveScheduled E jobID =
     wrap ''remove scheduled job'' (rcall E (\<lambda>S s.
       ((), HDEL S ScheduledPayloads jobID (ZREM S ScheduledSet jobID s))))"

text \<open>
  The loop of \<open>promoteDueScript\<close>. A corrupt payload and an orphaned member are dropped; a
  document without a usable \<open>payload\<close> field makes \<open>redis.call\<close> raise, which aborts the
  script and leaves what it has done so far.
\<close>

fun promote_loop ::
    "redis_srv \<Rightarrow> (string \<Rightarrow> (string option \<times> string) option) \<Rightarrow> string list \<Rightarrow> string list
     \<Rightarrow> redis \<Rightarrow> (goerr + string list) \<times> redis" where
  "promote_loop S lua promoted [] s = (Inr promoted, s)"
| "promote_loop S lua promoted (job_id # job_ids) s =
     (case HGET S ScheduledPayloads job_id s of
        None \<Rightarrow> promote_loop S lua promoted job_ids (ZREM S ScheduledSet job_id s)
      | Some scheduled \<Rightarrow>
          (case lua scheduled of
             None \<Rightarrow> promote_loop S lua promoted job_ids
               (HDEL S ScheduledPayloads job_id (ZREM S ScheduledSet job_id s))
           | Some (None, gen) \<Rightarrow> (Inl (ReplyErr ''ERR Lua redis lib command arguments must be strings or integers''), s)
           | Some (Some payload, gen) \<Rightarrow>
               promote_loop S lua (promoted @ [job_id]) job_ids
                 (HDEL S ScheduledPayloads job_id (ZREM S ScheduledSet job_id
                   (snd (XADD S ReadyStream 100000 (ready_fields job_id payload gen) s))))))"

definition promoteDueScript ::
    "redis_srv \<Rightarrow> (string \<Rightarrow> (string option \<times> string) option) \<Rightarrow> int
     \<Rightarrow> redis \<Rightarrow> (goerr + string list) \<times> redis" where
  "promoteDueScript S lua now s =
     promote_loop S lua [] (ZRANGEBYSCORE S ScheduledSet now 500 s) s"

definition PromoteDueWithIDs :: "env \<Rightarrow> time \<Rightarrow> string list handler" where
  "PromoteDueWithIDs E now =
     wrap ''promote due jobs''
       (lift_reply (rcall E (\<lambda>S. promoteDueScript S (lua_fields E) (Unix now))))"

definition PromoteDue :: "env \<Rightarrow> time \<Rightarrow> int handler" where
  "PromoteDue E now = bind (PromoteDueWithIDs E now) (\<lambda>ids. ret (int (length ids)))"

section \<open>Backlog\<close>

definition fallbackLen :: "env \<Rightarrow> string \<Rightarrow> goerr option \<Rightarrow> int handler" where
  "fallbackLen E streamName cause =
     bind (result_of (rread E RedisRead (\<lambda>S. XLEN S streamName))) (\<lambda>r.
     case r of
       Inl e \<Rightarrow> (case cause of Some c \<Rightarrow> fail c | None \<Rightarrow> fail e)
     | Inr n \<Rightarrow> ret n)"

definition StreamBacklog :: "env \<Rightarrow> string \<Rightarrow> string \<Rightarrow> int handler" where
  "StreamBacklog E streamName groupName =
     bind (result_of (rread E RedisRead (\<lambda>S. XINFO_GROUPS S streamName))) (\<lambda>r.
     case r of
       Inl e \<Rightarrow> fallbackLen E streamName (Some e)
     | Inr groups \<Rightarrow>
         (case map_of groups groupName of
            None \<Rightarrow> fallbackLen E streamName None
          | Some lag \<Rightarrow>
              bind (result_of (lift_reply (rread E RedisRead (\<lambda>S. XPENDING_COUNT S streamName groupName)))) (\<lambda>p.
              case p of
                Inl e \<Rightarrow> fallbackLen E streamName (Some e)
              | Inr pending \<Rightarrow> ret (lag + pending))))"

definition QueueBacklog :: "env \<Rightarrow> int handler" where
  "QueueBacklog E = StreamBacklog E ReadyStream ConsumerGroup"

section \<open>Metrics counters\<close>

text \<open>\<open>internal/metrics\<close>: the counters the handlers bump.\<close>

definition JobsSubmittedKey :: string where "JobsSubmittedKey = ''metrics:jobs_submitted_total''"
definition JobsCompletedKey :: string where "JobsCompletedKey = ''metrics:jobs_completed_total''"
definition JobsFailedKey :: string where "JobsFailedKey = ''metrics:jobs_failed_total''"

definition Increment :: "env \<Rightarrow> string \<Rightarrow> unit handler" where
  "Increment E key = bind (rcall E (\<lambda>S. INCR S key)) (\<lambda>_. ret ())"

end
