(* ===== verification/Queues.thy ===== *)
theory Queues
  imports Streams
begin

text \<open>
  What the queues hold, as the platform sees it. A job run is identified by its key, the job
  id and the queue generation. \<open>ready_keys\<close> are the keys of the entries of the ready stream
  that a worker will still see (never delivered, or delivered and not acknowledged),
  \<open>delayed_keys\<close> those of the delayed queue. Two locales state the contracts of the two
  queues; the model's Redis operations are their instances. The rest of the theory says what
  every operation of \<open>internal/stream\<close> does to the keys.
\<close>

section \<open>Contracts\<close>

text \<open>A keyed store: what a look-up returns after an insertion and a removal. The provider
  may rely on a condition \<open>ok\<close> of its server.\<close>

definition keys_of :: "('s \<Rightarrow> string \<Rightarrow> 'v option) \<Rightarrow> (string \<Rightarrow> 'v \<Rightarrow> 'k option) \<Rightarrow> 's \<Rightarrow> 'k set" where
  "keys_of lookup \<kappa> s = {k. \<exists>m v. lookup s m = Some v \<and> \<kappa> m v = Some k}"

locale keyed_store =
  fixes ok :: "'c \<Rightarrow> bool" and lookup :: "'s \<Rightarrow> string \<Rightarrow> 'v option"
    and put :: "'c \<Rightarrow> string \<Rightarrow> 'v \<Rightarrow> 's \<Rightarrow> 's" and del :: "'c \<Rightarrow> string \<Rightarrow> 's \<Rightarrow> 's"
  assumes lookup_put: "ok c \<Longrightarrow> lookup (put c m v s) = (lookup s)(m \<mapsto> v)"
    and lookup_del: "ok c \<Longrightarrow> lookup (del c m s) = (lookup s)(m := None)"
begin

lemma keys_put: "ok c \<Longrightarrow> \<kappa> m v = Some k \<Longrightarrow> k \<in> keys_of lookup \<kappa> (put c m v s)"
  by (auto simp: keys_of_def lookup_put)

lemma keys_put_other:
  "ok c \<Longrightarrow> k \<in> keys_of lookup \<kappa> s \<Longrightarrow> (\<And>u. \<kappa> m u \<noteq> Some k) \<Longrightarrow> k \<in> keys_of lookup \<kappa> (put c m v s)"
  by (fastforce simp: keys_of_def lookup_put)

lemma keys_del_other:
  "ok c \<Longrightarrow> k \<in> keys_of lookup \<kappa> s \<Longrightarrow> (\<And>u. lookup s m = Some u \<Longrightarrow> \<kappa> m u \<noteq> Some k)
   \<Longrightarrow> k \<in> keys_of lookup \<kappa> (del c m s)"
  by (fastforce simp: keys_of_def lookup_del)

lemma put_del_other: "ok c \<Longrightarrow> m \<noteq> m' \<Longrightarrow> lookup (del c m' (put c m v s)) m = Some v"
  by (simp add: lookup_put lookup_del)

lemma del_after_put: "ok c \<Longrightarrow> lookup (del c m (put c m v s)) = lookup (del c m s)"
  by (simp add: lookup_put lookup_del fun_eq_iff)

end

text \<open>A log with acknowledgements: entries stay visible until they are acknowledged.\<close>

locale ack_log =
  fixes ok :: "'c \<Rightarrow> bool" and wf :: "'s \<Rightarrow> bool" and live :: "'s \<Rightarrow> (string \<times> 'f) set"
    and add :: "'c \<Rightarrow> 'f \<Rightarrow> 's \<Rightarrow> 's" and ack :: "'c \<Rightarrow> string \<Rightarrow> 's \<Rightarrow> 's"
  assumes live_add: "ok c \<Longrightarrow> wf s \<Longrightarrow> live s \<subseteq> live (add c f s)"
    and add_live: "ok c \<Longrightarrow> wf s \<Longrightarrow> \<exists>i. i \<notin> fst ` live s \<and> (i, f) \<in> live (add c f s)"
    and live_ack: "ok c \<Longrightarrow> wf s \<Longrightarrow> {e \<in> live s. fst e \<noteq> i} \<subseteq> live (ack c i s)"
    and wf_add: "ok c \<Longrightarrow> wf s \<Longrightarrow> wf (add c f s)"
    and wf_ack: "ok c \<Longrightarrow> wf s \<Longrightarrow> wf (ack c i s)"
begin

lemma keys_add:
  assumes "ok c" and "wf s"
  shows "{k. \<exists>e\<in>live s. \<kappa> e = Some k} \<subseteq> {k. \<exists>e\<in>live (add c f s). \<kappa> e = Some k}"
  using live_add [OF assms] by blast

lemma keys_add_new:
  assumes "ok c" and "wf s" and "\<And>i. \<kappa> (i, f) = Some k"
  shows "\<exists>e\<in>live (add c f s). \<kappa> e = Some k"
  using add_live [OF assms(1,2), of f] assms(3) by blast

lemma keys_add_fresh:
  assumes "ok c" and "wf s" and "\<And>i. \<kappa> (i, f) = Some k" and "e0 \<in> live s"
  shows "\<exists>e\<in>live (add c f s). fst e \<noteq> fst e0 \<and> \<kappa> e = Some k"
  using add_live [OF assms(1,2), of f] assms(3,4) by force

lemma keys_ack:
  assumes "ok c" and "wf s" and "e \<in> live s" and "\<kappa> e = Some k" and "fst e \<noteq> i"
  shows "\<exists>e\<in>live (ack c i s). \<kappa> e = Some k"
  using live_ack [OF assms(1,2), of i] assms(3-5) by blast

end

section \<open>Keys\<close>

type_synonym qkey = "uuid \<times> int"

definition live_entries :: "redis \<Rightarrow> entry set" where
  "live_entries s = (case group_of ReadyStream ConsumerGroup s of
     None \<Rightarrow> set (Streams s ReadyStream)
   | Some c \<Rightarrow> set (drop (CgRead c) (Streams s ReadyStream))
       \<union> {e \<in> set (Streams s ReadyStream). fst e \<in> PeID ` set (CgPel c)})"

definition stream_wf :: "redis \<Rightarrow> bool" where
  "stream_wf s \<longleftrightarrow> distinct (map fst (Streams s ReadyStream))
     \<and> (\<forall>c. group_of ReadyStream ConsumerGroup s = Some c \<longrightarrow> CgRead c \<le> length (Streams s ReadyStream))"

definition entry_key :: "env \<Rightarrow> entry \<Rightarrow> qkey option" where
  "entry_key E e = (case toMessage e of
     Inl _ \<Rightarrow> None
   | Inr m \<Rightarrow> map_option (\<lambda>i. (i, MsgGeneration m)) (uuid_Parse E (MsgJobID m)))"

definition ready_keys :: "env \<Rightarrow> redis \<Rightarrow> qkey set" where
  "ready_keys E s = {k. \<exists>e\<in>live_entries s. entry_key E e = Some k}"

definition sched_lookup :: "redis \<Rightarrow> string \<Rightarrow> (int \<times> string) option" where
  "sched_lookup s m = (case map_of (ZSets s ScheduledSet) m of
     None \<Rightarrow> None
   | Some score \<Rightarrow> map_option (Pair score) (map_of (Hashes s ScheduledPayloads) m))"

definition item_key :: "env \<Rightarrow> string \<Rightarrow> int \<times> string \<Rightarrow> qkey option" where
  "item_key E m v = (case lua_fields E (snd v) of
     Some (Some p, gs) \<Rightarrow>
       map_option (\<lambda>i. (i, parseQueueGeneration (RawString gs))) (uuid_Parse E m)
   | _ \<Rightarrow> None)"

definition delayed_keys :: "env \<Rightarrow> redis \<Rightarrow> qkey set" where
  "delayed_keys E = keys_of sched_lookup (item_key E)"

text \<open>All of these depend on four components of the keyspace only.\<close>

definition queue_view where
  "queue_view s = (Streams s ReadyStream, Groups s ReadyStream, ZSets s ScheduledSet,
     Hashes s ScheduledPayloads)"

lemma queue_view_cong:
  assumes "queue_view s' = queue_view s"
  shows "live_entries s' = live_entries s" "stream_wf s' = stream_wf s"
    "sched_lookup s' = sched_lookup s" "ready_keys E s' = ready_keys E s"
    "delayed_keys E s' = delayed_keys E s"
proof -
  from assms have v: "Streams s' ReadyStream = Streams s ReadyStream"
    "Groups s' ReadyStream = Groups s ReadyStream" "ZSets s' ScheduledSet = ZSets s ScheduledSet"
    "Hashes s' ScheduledPayloads = Hashes s ScheduledPayloads"
    by (simp_all add: queue_view_def)
  show l: "live_entries s' = live_entries s" by (simp only: live_entries_def group_of_def v)
  show "stream_wf s' = stream_wf s" by (simp only: stream_wf_def group_of_def v)
  show sl: "sched_lookup s' = sched_lookup s" by (rule ext) (simp add: sched_lookup_def v split: option.split)
  show "ready_keys E s' = ready_keys E s" by (simp add: ready_keys_def l)
  show "delayed_keys E s' = delayed_keys E s" by (simp add: delayed_keys_def keys_of_def sl)
qed

section \<open>What the server must provide\<close>

text \<open>The approximate trimming of \<open>XADD ... MAXLEN ~ 100000\<close> drops acknowledged history only:
  fewer than about 100000 entries are ever outstanding.\<close>

definition keeps_live :: "redis_srv \<Rightarrow> bool" where
  "keeps_live S \<longleftrightarrow> (\<forall>f s. live_entries s \<subseteq> set (Streams (snd (XADD S ReadyStream 100000 f s)) ReadyStream))"

definition server_ok :: "redis_srv \<Rightarrow> bool" where
  "server_ok S \<longleftrightarrow> redis_ok S \<and> keeps_live S"

lemma server_okD:
  assumes "server_ok S"
  shows "xadd_law S" "xack_law S" "xgroup_law S" "xreadgroup_law S" "xpending_law S"
    "xclaim_law S" "xrange_law S" "zset_law S" "zttl_law S" "hash_law S" "incr_law S" "string_law S"
    "keeps_live S"
  using assms by (simp_all add: server_ok_def redis_ok_def)

lemma mem_redis_server_ok: "server_ok mem_redis"
proof -
  have "live_entries s \<subseteq> set (Streams s ReadyStream)" for s
    by (auto simp: live_entries_def split: option.splits dest: in_set_dropD)
  then have "keeps_live mem_redis"
    by (auto simp: keeps_live_def mem_redis_def push_entry_def)
  then show ?thesis by (simp add: server_ok_def mem_redis_ok)
qed

section \<open>The ready stream\<close>

lemma group_of_push:
  "group_of k g (push_entry k n e s) = map_option (\<lambda>c. c\<lparr>CgRead := CgRead c - n\<rparr>) (group_of k g s)"
proof -
  have "map_of (map (map_prod id h) al) x = map_option h (map_of al x)" for al :: "('k \<times> 'v) list" and h x
    by (induction al) auto
  then show ?thesis by (simp add: group_of_def push_entry_def)
qed

lemma Streams_push: "Streams (push_entry k n e s) k = drop n (Streams s k @ [e])"
  by (simp add: push_entry_def)

lemma group_of_set_group [simp]: "group_of k g (set_group k g c s) = Some c"
  by (simp add: group_of_def set_group_def)

lemma Streams_set_group [simp]: "Streams (set_group k g c s) = Streams s"
  by (simp add: set_group_def)

lemma live_subset: "live_entries s \<subseteq> set (Streams s ReadyStream)"
  by (auto simp: live_entries_def split: option.splits dest: in_set_dropD)

text \<open>An entry of the old stream that survives the trimming stays live.\<close>

lemma live_push:
  assumes "e \<in> live_entries s" and "e \<in> set (drop n (Streams s ReadyStream @ [x]))"
  shows "e \<in> live_entries (push_entry ReadyStream n x s)"
proof (cases "group_of ReadyStream ConsumerGroup s")
  case None
  with assms(2) show ?thesis by (simp add: live_entries_def group_of_push Streams_push)
next
  case (Some c)
  let ?st = "Streams s ReadyStream @ [x]"
  have "drop (CgRead c - n) (drop n ?st) = drop (max (CgRead c) n) ?st"
    by (simp add: max_def del: drop_append)
  moreover have "e \<in> set (drop (CgRead c) (Streams s ReadyStream)) \<Longrightarrow> e \<in> set (drop (max (CgRead c) n) ?st)"
    using assms(2) by (cases "n \<le> CgRead c") (auto simp: max_def dest: in_set_dropD)
  ultimately show ?thesis
    using assms Some by (auto simp: live_entries_def group_of_push Streams_push)
qed

lemma new_live_push:
  assumes "stream_wf s" and "n \<le> length (Streams s ReadyStream)"
  shows "x \<in> live_entries (push_entry ReadyStream n x s)"
  using assms by (auto simp: live_entries_def group_of_push Streams_push stream_wf_def split: option.splits)

lemma stream_wf_push:
  assumes "stream_wf s" and "fst x \<notin> fst ` set (Streams s ReadyStream)"
    and "n \<le> length (Streams s ReadyStream)"
  shows "stream_wf (push_entry ReadyStream n x s)"
proof -
  have "distinct (map fst (Streams s ReadyStream @ [x]))"
    using assms(1,2) by (simp add: stream_wf_def)
  then have "distinct (drop n (map fst (Streams s ReadyStream @ [x])))" by (rule distinct_drop)
  then show ?thesis
    using assms(1,3) by (auto simp: stream_wf_def group_of_push Streams_push drop_map)
qed

lemma xadd_run:
  assumes "server_ok S" and "stream_wf s"
  obtains i n where "XADD S ReadyStream 100000 f s = (i, push_entry ReadyStream n (i, f) s)"
    "i \<notin> fst ` set (Streams s ReadyStream)" "n \<le> length (Streams s ReadyStream)"
proof -
  from server_okD(1) [OF assms(1)] obtain i n where
    "XADD S ReadyStream 100000 f s = (i, push_entry ReadyStream n (i, f) s)"
    "i \<notin> fst ` set (Streams s ReadyStream)"
    "n = 0 \<or> 100000 + int n \<le> int (length (Streams s ReadyStream)) + 1"
    unfolding xadd_law_def by blast
  then show ?thesis by (intro that [of i n]) auto
qed

lemma xack_run:
  assumes "server_ok S"
  shows "XACK S ReadyStream ConsumerGroup i s =
     (case group_of ReadyStream ConsumerGroup s of
        None \<Rightarrow> (0, s)
      | Some c \<Rightarrow> if i \<in> PeID ` set (CgPel c)
          then (1, set_group ReadyStream ConsumerGroup (c\<lparr>CgPel := filter (\<lambda>p. PeID p \<noteq> i) (CgPel c)\<rparr>) s)
          else (0, s))"
  using server_okD(2) [OF assms] by (simp add: xack_law_def)

interpretation rq: ack_log server_ok stream_wf live_entries
  "\<lambda>S f s. snd (XADD S ReadyStream 100000 f s)" "\<lambda>S i s. snd (XACK S ReadyStream ConsumerGroup i s)"
proof
  fix S s and f :: fields and i
  assume S: "server_ok S" and wf: "stream_wf s"
  obtain j n where x: "XADD S ReadyStream 100000 f s = (j, push_entry ReadyStream n (j, f) s)"
    "j \<notin> fst ` set (Streams s ReadyStream)" "n \<le> length (Streams s ReadyStream)"
    by (rule xadd_run [OF S wf])
  show "live_entries s \<subseteq> live_entries (snd (XADD S ReadyStream 100000 f s))"
  proof
    fix e
    assume e: "e \<in> live_entries s"
    then have "e \<in> set (drop n (Streams s ReadyStream @ [(j, f)]))"
      using server_okD(13) [OF S, unfolded keeps_live_def, rule_format, THEN subsetD, of e s f]
      by (simp add: x(1) Streams_push del: drop_append)
    then show "e \<in> live_entries (snd (XADD S ReadyStream 100000 f s))"
      using live_push [OF e] x(1) by simp
  qed
  show "\<exists>i. i \<notin> fst ` live_entries s \<and> (i, f) \<in> live_entries (snd (XADD S ReadyStream 100000 f s))"
  proof (intro exI conjI)
    show "j \<notin> fst ` live_entries s" using x(2) live_subset [of s] by blast
    show "(j, f) \<in> live_entries (snd (XADD S ReadyStream 100000 f s))"
      using new_live_push [OF wf x(3)] x(1) by simp
  qed
  show "stream_wf (snd (XADD S ReadyStream 100000 f s))"
    using stream_wf_push [OF wf _ x(3), of "(j, f)"] x(1,2) by simp
  show "{e \<in> live_entries s. fst e \<noteq> i} \<subseteq> live_entries (snd (XACK S ReadyStream ConsumerGroup i s))"
    by (auto simp: xack_run [OF S] live_entries_def split: option.splits)
  show "stream_wf (snd (XACK S ReadyStream ConsumerGroup i s))"
    using wf by (auto simp: xack_run [OF S] stream_wf_def split: option.splits)
qed

text \<open>Reading, claiming and creating the group change who holds an entry, not which entries
  are live.\<close>

lemma set_group_view:
  "ZSets (set_group k g c s) = ZSets s" "Hashes (set_group k g c s) = Hashes s"
  by (simp_all add: set_group_def)

lemma sched_lookup_set_group [simp]: "sched_lookup (set_group k g c s) = sched_lookup s"
  by (rule ext) (simp add: sched_lookup_def set_group_view split: option.split)

lemma sched_lookup_push [simp]: "sched_lookup (push_entry k n e s) = sched_lookup s"
  by (rule ext) (simp add: sched_lookup_def push_entry_def split: option.split)

lemma xgroup_create_effect:
  assumes "server_ok S" and "XGROUP_CREATE S ReadyStream ConsumerGroup s = (r, s')"
  shows "live_entries s' = live_entries s" "stream_wf s \<Longrightarrow> stream_wf s'"
    "sched_lookup s' = sched_lookup s"
  using assms(2) server_okD(3) [OF assms(1)]
  by (auto simp: xgroup_law_def live_entries_def stream_wf_def split: option.splits)

lemma set_drop_take:
  "set (drop k xs) = set (take n (drop k xs)) \<union> set (drop (k + length (take n (drop k xs))) xs)"
proof -
  let ?r = "drop k xs"
  have "drop (length (take n ?r)) ?r = drop n ?r" by (cases "n \<le> length ?r") simp_all
  then have "drop (k + length (take n ?r)) xs = drop n ?r" by (simp only: drop_drop add.commute)
  then show ?thesis using arg_cong [OF append_take_drop_id [of n ?r], of set] by (simp only: set_append)
qed

lemma xreadgroup_effect:
  assumes "server_ok S" and "stream_wf s"
    and "XREADGROUP S ReadyStream ConsumerGroup con n s = (r, s')"
  shows "live_entries s \<subseteq> live_entries s'" "stream_wf s'" "sched_lookup s' = sched_lookup s"
    "r = Inr es \<Longrightarrow> set es \<subseteq> live_entries s' \<and> distinct (map fst es)"
proof -
  have run: "XREADGROUP S ReadyStream ConsumerGroup con n s =
     (case group_of ReadyStream ConsumerGroup s of
        None \<Rightarrow> (Inl (ReplyErr ''NOGROUP No such key or consumer group''), s)
      | Some c \<Rightarrow>
          (let batch = take n (drop (CgRead c) (Streams s ReadyStream)) in
           if batch = [] then (Inl RedisNil, s)
           else (Inr batch, set_group ReadyStream ConsumerGroup
             (c\<lparr>CgRead := CgRead c + length batch,
                CgPel := CgPel c @ map (\<lambda>e. \<lparr>PeID = fst e, PeConsumer = con, PeCount = 1\<rparr>) batch\<rparr>) s)))"
    using server_okD(4) [OF assms(1)] by (simp add: xreadgroup_law_def)
  have "live_entries s \<subseteq> live_entries s' \<and> stream_wf s' \<and> sched_lookup s' = sched_lookup s
     \<and> (r = Inr es \<longrightarrow> set es \<subseteq> live_entries s' \<and> distinct (map fst es))"
  proof (cases "group_of ReadyStream ConsumerGroup s")
    case None
    with assms run show ?thesis by auto
  next
    case (Some c)
    let ?st = "Streams s ReadyStream"
    let ?b = "take n (drop (CgRead c) ?st)"
    have split: "set (drop (CgRead c) ?st) = set ?b \<union> set (drop (CgRead c + length ?b) ?st)"
      by (rule set_drop_take)
    have sub: "set ?b \<subseteq> set ?st" by (auto dest: in_set_takeD in_set_dropD)
    have dist: "distinct (map fst ?b)"
      using assms(2) by (simp add: stream_wf_def take_map [symmetric] drop_map [symmetric])
    show ?thesis
    proof (cases "?b = []")
      case True
      with assms run Some show ?thesis by (auto simp: Let_def)
    next
      case False
      let ?c = "c\<lparr>CgRead := CgRead c + length ?b,
        CgPel := CgPel c @ map (\<lambda>e. \<lparr>PeID = fst e, PeConsumer = con, PeCount = 1\<rparr>) ?b\<rparr>"
      have eq: "r = Inr ?b" "s' = set_group ReadyStream ConsumerGroup ?c s"
        using assms(3) run Some False by (simp_all add: Let_def)
      have pel: "PeID ` set (CgPel ?c) = PeID ` set (CgPel c) \<union> fst ` set ?b"
        by (simp add: image_Un image_image)
      have live: "live_entries s' = set (drop (CgRead c + length ?b) ?st)
          \<union> {e \<in> set ?st. fst e \<in> PeID ` set (CgPel c) \<union> fst ` set ?b}"
        unfolding live_entries_def eq(2) group_of_set_group Streams_set_group option.case pel by simp
      have "live_entries s = set ?b \<union> set (drop (CgRead c + length ?b) ?st)
          \<union> {e \<in> set ?st. fst e \<in> PeID ` set (CgPel c)}"
        unfolding live_entries_def Some option.case split by simp
      then have "live_entries s \<subseteq> live_entries s'" and "set ?b \<subseteq> live_entries s'"
        using sub unfolding live by blast+
      moreover have "stream_wf s'"
        using assms(2) Some by (auto simp: eq(2) stream_wf_def)
      moreover have "sched_lookup s' = sched_lookup s" by (simp only: eq(2) sched_lookup_set_group)
      ultimately show ?thesis using dist unfolding eq(1) by blast
    qed
  qed
  then show "live_entries s \<subseteq> live_entries s'" "stream_wf s'" "sched_lookup s' = sched_lookup s"
    "r = Inr es \<Longrightarrow> set es \<subseteq> live_entries s' \<and> distinct (map fst es)" by blast+
qed

lemma claim_pel_ids:
  "i \<in> stored \<Longrightarrow> i \<in> PeID ` set (claim_pel con sel stored pel) \<longleftrightarrow> i \<in> PeID ` set pel"
proof -
  have "PeID ` set (claim_pel con sel stored pel) = PeID ` {p \<in> set pel. sel (PeID p) \<longrightarrow> PeID p \<in> stored}"
    unfolding claim_pel_def set_map image_image set_filter by (intro image_cong) auto
  then show "i \<in> stored \<Longrightarrow> ?thesis" by auto
qed

lemma xclaim_effect:
  assumes "server_ok S" and "stream_wf s"
    and "XCLAIM S ReadyStream ConsumerGroup con t ids s = (r, s')"
  shows "live_entries s \<subseteq> live_entries s'" "stream_wf s'" "sched_lookup s' = sched_lookup s"
    "r = Inr es \<Longrightarrow> set es \<subseteq> live_entries s' \<and> distinct (map fst es)"
proof -
  have law: "case group_of ReadyStream ConsumerGroup s of
        None \<Rightarrow> XCLAIM S ReadyStream ConsumerGroup con t ids s = (Inl (ReplyErr ''NOGROUP No such key or consumer group''), s)
      | Some c \<Rightarrow> (\<exists>sel es. (\<forall>i. sel i \<longrightarrow> i \<in> set ids \<and> i \<in> PeID ` set (CgPel c))
          \<and> set es = {e \<in> set (Streams s ReadyStream). sel (fst e)}
          \<and> (distinct (map fst (Streams s ReadyStream)) \<longrightarrow> distinct (map fst es))
          \<and> XCLAIM S ReadyStream ConsumerGroup con t ids s = (Inr es, set_group ReadyStream ConsumerGroup
              (c\<lparr>CgPel := claim_pel con sel (fst ` set (Streams s ReadyStream)) (CgPel c)\<rparr>) s))"
    using server_okD(6) [OF assms(1)] unfolding xclaim_law_def by blast
  have "live_entries s \<subseteq> live_entries s' \<and> stream_wf s' \<and> sched_lookup s' = sched_lookup s
     \<and> (r = Inr es \<longrightarrow> set es \<subseteq> live_entries s' \<and> distinct (map fst es))"
  proof (cases "group_of ReadyStream ConsumerGroup s")
    case None
    with assms law show ?thesis by auto
  next
    case (Some c)
    let ?st = "Streams s ReadyStream"
    from law [unfolded Some option.case] obtain sel es' where
      sel: "\<forall>i. sel i \<longrightarrow> i \<in> set ids \<and> i \<in> PeID ` set (CgPel c)"
      and es': "set es' = {e \<in> set ?st. sel (fst e)}" "distinct (map fst ?st) \<longrightarrow> distinct (map fst es')"
      and run: "r = Inr es'" "s' = set_group ReadyStream ConsumerGroup
              (c\<lparr>CgPel := claim_pel con sel (fst ` set ?st) (CgPel c)\<rparr>) s"
      using assms(3) by auto
    have "{e \<in> set ?st. fst e \<in> PeID ` set (claim_pel con sel (fst ` set ?st) (CgPel c))}
        = {e \<in> set ?st. fst e \<in> PeID ` set (CgPel c)}"
      by (intro Collect_cong conj_cong refl claim_pel_ids) simp
    then have live: "live_entries s' = live_entries s"
      using Some by (simp add: live_entries_def run(2))
    moreover have "set es' \<subseteq> live_entries s"
      using Some es'(1) sel by (auto simp: live_entries_def)
    moreover have "stream_wf s'" using assms(2) Some by (simp add: run(2) stream_wf_def)
    ultimately show ?thesis
      using es'(2) assms(2) run by (auto simp: stream_wf_def)
  qed
  then show "live_entries s \<subseteq> live_entries s'" "stream_wf s'" "sched_lookup s' = sched_lookup s"
    "r = Inr es \<Longrightarrow> set es \<subseteq> live_entries s' \<and> distinct (map fst es)" by blast+
qed

section \<open>The delayed queue\<close>

lemma delay_commands:
  assumes "redis_ok S"
  shows "ZADD S k sc m s = set_zset k (al_upd m sc (ZSets s k)) s"
    "ZREM S k m s = set_zset k (al_del m (ZSets s k)) s"
    "HSET S k f v s = set_hash k (al_upd f v (Hashes s k)) s"
    "HDEL S k f s = set_hash k (al_del f (Hashes s k)) s"
    "HGET S k f s = map_of (Hashes s k) f"
  using assms by (simp_all add: redis_ok_def zset_law_def hash_law_def)

interpretation dq: keyed_store redis_ok sched_lookup
  "\<lambda>S m v s. snd (schedule_script S m (fst v) (snd v) s)"
  "\<lambda>S m s. HDEL S ScheduledPayloads m (ZREM S ScheduledSet m s)"
  by unfold_locales
     (auto simp: schedule_script_def delay_commands sched_lookup_def set_zset_def set_hash_def
       fun_eq_iff split: option.splits)

lemma delay_ready:
  assumes "server_ok S"
  shows "live_entries (snd (schedule_script S m sc v s)) = live_entries s"
    "stream_wf (snd (schedule_script S m sc v s)) = stream_wf s"
    "live_entries (HDEL S ScheduledPayloads m (ZREM S ScheduledSet m s)) = live_entries s"
    "stream_wf (HDEL S ScheduledPayloads m (ZREM S ScheduledSet m s)) = stream_wf s"
    "live_entries (ZREM S ScheduledSet m s) = live_entries s"
    "stream_wf (ZREM S ScheduledSet m s) = stream_wf s"
proof -
  have frame: "live_entries (set_zset k z s) = live_entries s" "live_entries (set_hash k h s) = live_entries s"
    "stream_wf (set_zset k z s) = stream_wf s" "stream_wf (set_hash k h s) = stream_wf s" for k z h s
    by (simp_all add: live_entries_def stream_wf_def set_zset_def set_hash_def group_of_def
        split: option.split)
  from assms have S: "redis_ok S" by (simp add: server_ok_def)
  show "live_entries (snd (schedule_script S m sc v s)) = live_entries s"
    "stream_wf (snd (schedule_script S m sc v s)) = stream_wf s"
    "live_entries (HDEL S ScheduledPayloads m (ZREM S ScheduledSet m s)) = live_entries s"
    "stream_wf (HDEL S ScheduledPayloads m (ZREM S ScheduledSet m s)) = stream_wf s"
    "live_entries (ZREM S ScheduledSet m s) = live_entries s"
    "stream_wf (ZREM S ScheduledSet m s) = stream_wf s"
    by (simp_all add: schedule_script_def delay_commands [OF S] frame)
qed

text \<open>The id of a stream entry plays no role for its key; a promoted entry has the key its
  payload had in the delayed queue.\<close>

lemma toMessage_ready_fields:
  "toMessage (i, ready_fields jid p gs) =
     Inr \<lparr>MsgID = i, MsgJobID = jid, MsgPayload = p, MsgGeneration = parseQueueGeneration (RawString gs)\<rparr>"
  by (simp add: toMessage_def ready_fields_def field_def)

lemma entry_key_ready_fields:
  "entry_key E (i, ready_fields jid p gs) =
     map_option (\<lambda>u. (u, parseQueueGeneration (RawString gs))) (uuid_Parse E jid)"
  by (simp add: entry_key_def toMessage_ready_fields)

lemma item_key_ready_fields:
  "lua_fields E (snd v) = Some (Some p, gs) \<Longrightarrow> item_key E m v = entry_key E (i, ready_fields m p gs)"
  by (simp add: item_key_def entry_key_ready_fields)

end
