(* ===== verification/JobRepo.thy ===== *)
theory JobRepo
  imports World
begin

text \<open>
  \<open>internal/repository/jobs.go\<close>, \<open>outbox.go\<close> and \<open>executions.go\<close>: the job store. Every
  SQL statement of these files is a function on the tables; the methods compose them the
  way the Go code does, with the same transactions, early returns and error translation.
  The job row's life cycle (\<open>StartExecution\<close>, \<open>ScheduleRetry\<close>, \<open>Retry\<close>, \<open>Cancel\<close>,
  \<open>UpdateStatus\<close>) and the transactional outbox live here.
\<close>

section \<open>Outbox\<close>

definition OutboxImmediate :: string where "OutboxImmediate = ''immediate''"
definition OutboxScheduled :: string where "OutboxScheduled = ''scheduled''"

definition insertOutboxTx :: "env \<Rightarrow> uuid \<Rightarrow> int \<Rightarrow> time \<Rightarrow> string \<Rightarrow> unit handler" where
  "insertOutboxTx E jobID generation runAt kind =
     (if kind \<noteq> OutboxImmediate \<and> kind \<noteq> OutboxScheduled
      then fail (Err ''invalid outbox kind'')
      else wrap ''insert outbox entry for job''
        (tx_sql E (\<lambda>now. upsert_outbox
           \<lparr>ObJobID = jobID, ObGeneration = generation, ObRunAt = runAt, ObKind = kind,
            ObCreatedAt = now\<rparr>)))"

text \<open>\<open>SELECT ... WHERE created_at <= $1 ORDER BY created_at ASC LIMIT $2 FOR UPDATE SKIP
  LOCKED\<close>; the transaction reads and commits without writing.\<close>

definition select_outbox :: "int \<Rightarrow> time \<Rightarrow> outbox_entry list stmt" where
  "select_outbox lim olderThan now d =
     Inr (take (nat lim) (sort_key ObCreatedAt (filter (\<lambda>e. ObCreatedAt e \<le> olderThan) (outbox d))), d)"

definition ClaimOutbox :: "env \<Rightarrow> int \<Rightarrow> time \<Rightarrow> outbox_entry list handler" where
  "ClaimOutbox E lim olderThan =
     with_rollback
       (bind (wrap ''begin outbox claim'' (tx_begin E)) (\<lambda>_.
        bind (wrap ''select outbox entries'' (tx_sql E (select_outbox lim olderThan))) (\<lambda>entries.
        bind (wrap ''commit outbox claim'' (tx_commit E)) (\<lambda>_.
        ret entries))))"

definition delete_outbox :: "uuid list \<Rightarrow> unit stmt" where
  "delete_outbox ids now d = Inr ((), d\<lparr>outbox := filter (\<lambda>e. ObJobID e \<notin> set ids) (outbox d)\<rparr>)"

definition DeleteOutboxEntries :: "env \<Rightarrow> uuid list \<Rightarrow> unit handler" where
  "DeleteOutboxEntries E ids =
     (if ids = [] then ret ()
      else wrap ''delete outbox entries'' (sql E PgStmt (delete_outbox ids)))"

section \<open>Creating jobs\<close>

record create_input =
  InType :: string
  InPayload :: string
  InRunAt :: time
  InMaxAttempts :: int
  InIdempotencyKey :: string
  InCallbackURL :: "string option"

definition IsAbs :: "url \<Rightarrow> bool" where
  "IsAbs u \<longleftrightarrow> Scheme u \<noteq> ''''"

definition validateCreateJobInput :: "env \<Rightarrow> create_input \<Rightarrow> goerr option" where
  "validateCreateJobInput E input =
     (if TrimSpace (InType input) = '''' then Some (Err ''type is required'')
      else case InCallbackURL input of
          None \<Rightarrow> None
        | Some u \<Rightarrow>
            if TrimSpace u = '''' then Some (Err ''callback_url is required'')
            else case url_Parse E (TrimSpace u) of
                None \<Rightarrow> Some (Err ''callback_url must be a valid absolute URL'')
              | Some p \<Rightarrow>
                  if \<not> IsAbs p \<or> Host p = ''''
                  then Some (Err ''callback_url must be a valid absolute URL'')
                  else if Scheme p \<noteq> ''http'' \<and> Scheme p \<noteq> ''https''
                  then Some (Err ''callback_url must use http or https'')
                  else None)"

text \<open>The row an INSERT makes; \<open>attempts\<close> and \<open>queue_generation\<close> are the column
  defaults, the \<open>jsonb\<close> column stores a normalised document.\<close>

definition new_job ::
    "env \<Rightarrow> uuid \<Rightarrow> status \<Rightarrow> create_input \<Rightarrow> time \<Rightarrow> job" where
  "new_job E i st input now =
     \<lparr>ID = i, Type = InType input, Payload = jsonb E (InPayload input), Status = st,
      RunAt = InRunAt input, Attempts = 0, MaxAttempts = InMaxAttempts input,
      IdempotencyKey = InIdempotencyKey input, CallbackURL = InCallbackURL input,
      LastError = None, CreatedAt = now, UpdatedAt = now, QueueGeneration = 1\<rparr>"

definition Create :: "env \<Rightarrow> create_input \<Rightarrow> uuid handler" where
  "Create E input =
     (case validateCreateJobInput E input of Some e \<Rightarrow> fail e | None \<Rightarrow>
      bind (uuid_New E) (\<lambda>i.
      bind (time_Now E) (\<lambda>now.
      with_rollback
       (bind (wrap ''begin create job transaction'' (tx_begin E)) (\<lambda>_.
        bind (result_of (tx_sql E (\<lambda>_. insert_job (new_job E i Pending input now)))) (\<lambda>r.
        case r of
          Inl e \<Rightarrow> if e = PgUnique ''jobs_idempotency_key_key'' then fail ErrConflict
                   else fail (Wrap ''failed to create job'' e)
        | Inr jobID \<Rightarrow>
            bind (insertOutboxTx E jobID 1 (InRunAt input)
                    (if now < InRunAt input then OutboxScheduled else OutboxImmediate)) (\<lambda>_.
            bind (wrap ''commit create job transaction'' (tx_commit E)) (\<lambda>_.
            ret jobID))))))))"

section \<open>Reading jobs\<close>

definition select_job :: "(job \<Rightarrow> bool) \<Rightarrow> job option stmt" where
  "select_job P now d = Inr (find P (jobs d), d)"

text \<open>\<open>QueryRow(...).Scan(...)\<close>: no row is \<open>pgx.ErrNoRows\<close>.\<close>

definition scan_row :: "'a option handler \<Rightarrow> 'a handler" where
  "scan_row m = bind m (\<lambda>r. case r of None \<Rightarrow> fail ErrNoRows | Some x \<Rightarrow> ret x)"

definition not_found :: "string \<Rightarrow> 'a handler \<Rightarrow> 'a handler" where
  "not_found msg m = bind (result_of m) (\<lambda>r. case r of
     Inl e \<Rightarrow> if errors_Is e ErrNoRows then fail ErrNotFound else fail (Wrap msg e)
   | Inr x \<Rightarrow> ret x)"

definition GetByID :: "env \<Rightarrow> uuid \<Rightarrow> job handler" where
  "GetByID E i = not_found ''failed to get job''
     (scan_row (sql E PgStmt (select_job (\<lambda>j. ID j = i))))"

definition GetByIdempotencyKey :: "env \<Rightarrow> string \<Rightarrow> job handler" where
  "GetByIdempotencyKey E key = not_found ''failed to get job by idempotency key''
     (scan_row (sql E PgStmt (select_job (\<lambda>j. IdempotencyKey j = key))))"

text \<open>\<open>ORDER BY created_at ASC, id ASC LIMIT n OFFSET m\<close>: the rows sorted by id, then
  stably by creation time.\<close>

definition select_jobs :: "status option \<Rightarrow> int \<Rightarrow> int \<Rightarrow> job list stmt" where
  "select_jobs st lim off now d =
     Inr (take (nat lim) (drop (nat off)
       (sort_key CreatedAt (sort_key (uint \<circ> ID)
         (filter (\<lambda>j. case st of None \<Rightarrow> True | Some x \<Rightarrow> Status j = x) (jobs d))))), d)"

definition list_jobs :: "env \<Rightarrow> status option \<Rightarrow> int \<Rightarrow> int \<Rightarrow> job list handler" where
  "list_jobs E st lim off =
     (if lim \<le> 0 then fail (Err ''limit must be greater than zero'')
      else if off < 0 then fail (Err ''offset cannot be negative'')
      else wrap ''failed to list jobs'' (sql E PgStmt (select_jobs st lim off)))"

definition List :: "env \<Rightarrow> int \<Rightarrow> int \<Rightarrow> job list handler" where
  "List E lim off = list_jobs E None lim off"

definition ListByStatus :: "env \<Rightarrow> string \<Rightarrow> int \<Rightarrow> int \<Rightarrow> job list handler" where
  "ListByStatus E st lim off =
     (case validStatuses st of
        None \<Rightarrow> fail (Err ''invalid job status'')
      | Some x \<Rightarrow> list_jobs E (Some x) lim off)"

section \<open>Changing jobs\<close>

text \<open>\<open>UPDATE jobs SET ... WHERE ... RETURNING ...\<close>: the number of rows it changes, or
  what it returns for the first of them.\<close>

definition update_jobs :: "(job \<Rightarrow> bool) \<Rightarrow> (time \<Rightarrow> job \<Rightarrow> job) \<Rightarrow> int stmt" where
  "update_jobs P f now d =
     Inr (int (length (filter P (jobs d))), d\<lparr>jobs := update_where P (f now) (jobs d)\<rparr>)"

definition update_returning ::
    "(job \<Rightarrow> bool) \<Rightarrow> (time \<Rightarrow> job \<Rightarrow> job) \<Rightarrow> (job \<Rightarrow> 'a) \<Rightarrow> 'a option stmt" where
  "update_returning P f col now d =
     Inr (map_option (col \<circ> f now) (find P (jobs d)), d\<lparr>jobs := update_where P (f now) (jobs d)\<rparr>)"

text \<open>The WHERE clauses and SET lists of the methods.\<close>

definition any_row :: "uuid \<Rightarrow> job \<Rightarrow> bool" where
  "any_row i j \<longleftrightarrow> ID j = i"

definition row_in :: "status \<Rightarrow> uuid \<Rightarrow> job \<Rightarrow> bool" where
  "row_in st i j \<longleftrightarrow> ID j = i \<and> Status j = st"

definition set_status :: "status \<Rightarrow> string option \<Rightarrow> time \<Rightarrow> job \<Rightarrow> job" where
  "set_status x lastError now j = j\<lparr>Status := x, LastError := lastError, UpdatedAt := now\<rparr>"

definition cancel_job :: "time \<Rightarrow> job \<Rightarrow> job" where
  "cancel_job now j = j\<lparr>Status := Cancelled, UpdatedAt := now\<rparr>"

definition bump_attempts :: "time \<Rightarrow> job \<Rightarrow> job" where
  "bump_attempts now j = j\<lparr>Attempts := Attempts j + 1, UpdatedAt := now\<rparr>"

definition UpdateStatus :: "env \<Rightarrow> uuid \<Rightarrow> string \<Rightarrow> string option \<Rightarrow> unit handler" where
  "UpdateStatus E i st lastError =
     (case validStatuses st of
        None \<Rightarrow> fail (Err ''invalid job status'')
      | Some x \<Rightarrow>
          bind (time_Now E) (\<lambda>now.
          bind (wrap ''failed to update job status''
            (sql E PgStmt (update_jobs (any_row i) (\<lambda>_. set_status x lastError now)))) (\<lambda>n.
          if n = 0 then fail ErrNotFound else ret ())))"

definition Cancel :: "env \<Rightarrow> uuid \<Rightarrow> unit handler" where
  "Cancel E i =
     with_rollback
       (bind (wrap ''failed to begin cancellation transaction'' (tx_begin E)) (\<lambda>_.
        bind (not_found ''failed to get job status''
          (scan_row (tx_sql E (select_job (\<lambda>j. ID j = i))))) (\<lambda>j.
        if Status j \<noteq> Pending \<and> Status j \<noteq> Scheduled then fail ErrNotCancellable
        else
          bind (time_Now E) (\<lambda>now.
          bind (wrap ''failed to cancel job''
            (tx_sql E (update_jobs (any_row i) (\<lambda>_. cancel_job now)))) (\<lambda>_.
          wrap ''failed to commit job cancellation'' (tx_commit E))))))"

definition IncrementAttempts :: "env \<Rightarrow> uuid \<Rightarrow> int handler" where
  "IncrementAttempts E i = wrap ''increment attempts for job''
     (scan_row (sql E PgStmt (update_returning (any_row i) bump_attempts Attempts)))"

definition start_guard :: "uuid \<Rightarrow> int \<Rightarrow> job \<Rightarrow> bool" where
  "start_guard i gen j \<longleftrightarrow> ID j = i \<and> QueueGeneration j = gen
     \<and> (Status j = Pending \<or> Status j = Scheduled)"

definition start_job :: "time \<Rightarrow> job \<Rightarrow> job" where
  "start_job now j = j\<lparr>Status := Running, Attempts := Attempts j + 1, UpdatedAt := now\<rparr>"

definition StartExecution :: "env \<Rightarrow> uuid \<Rightarrow> int \<Rightarrow> int handler" where
  "StartExecution E i queueGeneration =
     bind (result_of (scan_row (sql E PgStmt
        (update_returning (start_guard i queueGeneration) start_job Attempts)))) (\<lambda>r.
     case r of
       Inl e \<Rightarrow> if errors_Is e ErrNoRows then ret 0 else fail (Wrap ''start job execution'' e)
     | Inr attempts \<Rightarrow> ret attempts)"

definition retry_job :: "time \<Rightarrow> job \<Rightarrow> job" where
  "retry_job now j = j\<lparr>Attempts := 0, Status := Scheduled, RunAt := now, LastError := None,
     QueueGeneration := QueueGeneration j + 1, UpdatedAt := now\<rparr>"

definition Retry :: "env \<Rightarrow> uuid \<Rightarrow> unit handler" where
  "Retry E i =
     with_rollback
       (bind (wrap ''begin retry transaction'' (tx_begin E)) (\<lambda>_.
        bind (time_Now E) (\<lambda>now.
        bind (result_of (scan_row (tx_sql E (update_returning (row_in Dead i) (\<lambda>_. retry_job now) QueueGeneration)))) (\<lambda>r.
        case r of
          Inl e \<Rightarrow>
            if errors_Is e ErrNoRows then
              bind (result_of (scan_row (tx_sql E (select_job (\<lambda>j. ID j = i))))) (\<lambda>sr.
              case sr of
                Inl se \<Rightarrow> if errors_Is se ErrNoRows then fail ErrNotFound
                          else fail (Wrap ''failed to check job status'' se)
              | Inr j \<Rightarrow> fail (Wrap ''only dead jobs can be retried'' ErrNotCancellable))
            else fail (Wrap ''failed to retry job'' e)
        | Inr generation \<Rightarrow>
            bind (insertOutboxTx E i generation now OutboxImmediate) (\<lambda>_.
            wrap ''commit retry transaction'' (tx_commit E))))))"

definition schedule_retry_job :: "time \<Rightarrow> string option \<Rightarrow> time \<Rightarrow> job \<Rightarrow> job" where
  "schedule_retry_job nextRunAt lastError now j =
     j\<lparr>Status := Scheduled, QueueGeneration := QueueGeneration j + 1, RunAt := nextRunAt,
       LastError := lastError, UpdatedAt := now\<rparr>"

definition ScheduleRetry :: "env \<Rightarrow> uuid \<Rightarrow> time \<Rightarrow> string option \<Rightarrow> int handler" where
  "ScheduleRetry E i nextRunAt lastError = not_found ''schedule retry''
     (scan_row (sql E PgRetry (update_returning (row_in Running i)
        (schedule_retry_job nextRunAt lastError) QueueGeneration)))"

section \<open>Executions\<close>

definition CreateExecution :: "env \<Rightarrow> uuid \<Rightarrow> int \<Rightarrow> time \<Rightarrow> exec_status \<Rightarrow> int \<Rightarrow> int handler" where
  "CreateExecution E jobID attemptNumber startedAt st queueGeneration =
     (let generation = (if queueGeneration \<le> 0 then 1 else queueGeneration) in
      wrap ''failed to create job execution''
        (sql E PgStmt (\<lambda>_. insert_execution
          \<lparr>ExID = 0, ExJobID = jobID, ExAttempt = attemptNumber, ExStartedAt = startedAt,
           ExFinishedAt = None, ExStatus = st, ExError = None, ExResponseCode = None,
           ExGeneration = generation\<rparr>)))"

definition completed :: "uuid \<Rightarrow> int \<Rightarrow> tables \<Rightarrow> bool" where
  "completed i gen d \<longleftrightarrow> (\<exists>x\<in>set (executions d).
     ExJobID x = i \<and> ExGeneration x = gen \<and> ExStatus x = ExecDone)"

definition HasCompletedExecution :: "env \<Rightarrow> uuid \<Rightarrow> int \<Rightarrow> bool handler" where
  "HasCompletedExecution E jobID queueGeneration =
     wrap ''failed to check completed executions''
       (sql E PgStmt (\<lambda>_ d. Inr (completed jobID queueGeneration d, d)))"

definition update_execution ::
    "int \<Rightarrow> time \<Rightarrow> exec_status \<Rightarrow> string option \<Rightarrow> int option \<Rightarrow> int stmt" where
  "update_execution i finishedAt st err code now d =
     Inr (int (length (filter (\<lambda>x. ExID x = i) (executions d))),
          d\<lparr>executions := update_where (\<lambda>x. ExID x = i)
            (\<lambda>x. x\<lparr>ExFinishedAt := Some finishedAt, ExStatus := st, ExError := err,
               ExResponseCode := code\<rparr>) (executions d)\<rparr>)"

definition CompleteExecution ::
    "env \<Rightarrow> int \<Rightarrow> time \<Rightarrow> exec_status \<Rightarrow> string option \<Rightarrow> int option \<Rightarrow> unit handler" where
  "CompleteExecution E i finishedAt st executionErr responseCode =
     bind (wrap ''failed to complete job execution''
       (sql E PgStmt (update_execution i finishedAt st executionErr responseCode))) (\<lambda>n.
     if n \<noteq> 1 then fail (Wrap ''job execution'' ErrNotFound) else ret ())"

section \<open>Updates of one row\<close>

definition set_job :: "uuid \<Rightarrow> (job \<Rightarrow> job) \<Rightarrow> tables \<Rightarrow> tables" where
  "set_job i f d = d\<lparr>jobs := update_where (\<lambda>j. ID j = i) f (jobs d)\<rparr>"

lemma set_job_simps [simp]:
  "executions (set_job i f d) = executions d" "outbox (set_job i f d) = outbox d"
  "execution_seq (set_job i f d) = execution_seq d" "cron_jobs (set_job i f d) = cron_jobs d"
  by (simp_all add: set_job_def)

lemma jobs_set_job: "jobs (set_job i f d) = update_where (\<lambda>j. ID j = i) f (jobs d)"
  by (simp add: set_job_def)

lemma completed_set_job [simp]: "completed i g (set_job i' f d) = completed i g d"
  by (simp add: completed_def)

lemma schema_ok_distinct: "schema_ok d \<Longrightarrow> distinct (map ID (jobs d))"
  by (simp add: schema_ok_def jobs_ok_def)

lemma job_ofD: "job_of i d = Some j \<Longrightarrow> j \<in> set (jobs d) \<and> ID j = i"
  by (rule find_by_SomeD)

lemma job_of_unique: "schema_ok d \<Longrightarrow> j \<in> set (jobs d) \<Longrightarrow> job_of (ID j) d = Some j"
  by (rule find_by_unique [OF schema_ok_distinct])

text \<open>Every statement that changes job rows addresses one row by its id, keeps the columns
  that identify it and its attempt budget, and never makes a counter negative. That is the
  contract of this locale; what follows from it about the table is proved once.\<close>

locale row_update =
  fixes guard :: "uuid \<Rightarrow> job \<Rightarrow> bool" and f :: "time \<Rightarrow> job \<Rightarrow> job"
  assumes guard_ID: "guard i j \<Longrightarrow> ID j = i"
    and keeps_ID: "ID (f t j) = ID j"
    and keeps_key: "IdempotencyKey (f t j) = IdempotencyKey j"
    and keeps_max: "MaxAttempts (f t j) = MaxAttempts j"
    and gen_pos: "1 \<le> QueueGeneration j \<Longrightarrow> 1 \<le> QueueGeneration (f t j)"
    and attempts_nonneg: "0 \<le> Attempts j \<Longrightarrow> 0 \<le> Attempts (f t j)"
begin

lemma job_ok_update: "job_ok j \<Longrightarrow> job_ok (f t j)"
  using gen_pos attempts_nonneg by (simp add: job_ok_def attempts_check_def keeps_max)

lemma schema_ok_set_job:
  assumes "schema_ok d"
  shows "schema_ok (set_job i (f t) d)"
proof -
  have ids: "map ID (update_where (\<lambda>j. ID j = i) (f t) (jobs d)) = map ID (jobs d)"
    by (rule map_key_update_where) (rule keeps_ID)
  have keys: "map IdempotencyKey (update_where (\<lambda>j. ID j = i) (f t) (jobs d)) = map IdempotencyKey (jobs d)"
    by (rule map_key_update_where) (rule keeps_key)
  have sets: "ID ` set (update_where (\<lambda>j. ID j = i) (f t) (jobs d)) = ID ` set (jobs d)"
    using arg_cong [OF ids, of set] by simp
  have "\<forall>j\<in>set (update_where (\<lambda>j. ID j = i) (f t) (jobs d)). job_ok j"
    using assms by (auto simp: set_update_where schema_ok_def jobs_ok_def job_ok_update)
  then show ?thesis
    using assms by (simp add: schema_ok_def jobs_ok_def ids keys sets jobs_set_job)
qed

lemma job_of_set_job:
  "job_of k (set_job i (f t) d) = map_option (\<lambda>j. if k = i then f t j else j) (job_of k d)"
proof -
  have "job_of k (set_job i (f t) d) = map_option (\<lambda>j. if ID j = i then f t j else j) (job_of k d)"
    by (simp add: set_job_def find_by_update_where keeps_ID)
  then show ?thesis by (cases "job_of k d") (auto dest: job_ofD)
qed

lemma find_guard:
  assumes "distinct (map ID js)"
  shows "find (guard i) js = (case find_by ID i js of None \<Rightarrow> None
    | Some j \<Rightarrow> if guard i j then Some j else None)"
  using assms
proof (induction js)
  case (Cons j js)
  show ?case
  proof (cases "ID j = i")
    case True
    with Cons.prems have "find_by ID i js = None" by (simp add: find_by_None_iff)
    with True Cons show ?thesis by auto
  next
    case False
    then have "\<not> guard i j" using guard_ID by blast
    with False Cons show ?thesis by simp
  qed
qed simp

lemma update_guard:
  assumes "distinct (map ID js)"
  shows "update_where (guard i) (f t) js = (case find_by ID i js of None \<Rightarrow> js
    | Some j \<Rightarrow> if guard i j then update_where (\<lambda>j. ID j = i) (f t) js else js)"
proof -
  have same: "find_by ID i js = Some j \<Longrightarrow> r \<in> set js \<Longrightarrow> ID r = i \<Longrightarrow> r = j" for r j
    using find_by_unique [OF assms, of r] by simp
  show ?thesis
  proof (cases "find_by ID i js")
    case None
    then have "\<forall>r\<in>set js. \<not> guard i r" using guard_ID by (force simp: find_by_None_iff)
    then have "update_where (guard i) (f t) js = js" unfolding update_where_def
      by (intro map_idI) simp
    then show ?thesis using None by simp
  next
    case (Some j)
    have hit: "r \<in> set js \<Longrightarrow> guard i r \<longleftrightarrow> ID r = i \<and> guard i j" for r
      using same [OF Some] guard_ID by blast
    show ?thesis
    proof (cases "guard i j")
      case True
      then show ?thesis using Some by (simp add: update_where_def hit cong: map_cong)
    next
      case False
      then have "update_where (guard i) (f t) js = js" unfolding update_where_def
        by (intro map_idI) (simp add: hit)
      then show ?thesis using Some False by simp
    qed
  qed
qed

text \<open>What the statement does, given the row it addresses.\<close>

lemma update_returning_run:
  assumes "schema_ok d"
  shows "update_returning (guard i) f col t d =
    (case job_of i d of None \<Rightarrow> Inr (None, d)
     | Some j \<Rightarrow> if guard i j then Inr (Some (col (f t j)), set_job i (f t) d) else Inr (None, d))"
  using find_guard [OF schema_ok_distinct [OF assms]] update_guard [OF schema_ok_distinct [OF assms]]
  by (auto simp: update_returning_def set_job_def split: option.splits)

end

lemmas row_defs = any_row_def row_in_def set_status_def cancel_job_def bump_attempts_def
  start_guard_def start_job_def retry_job_def schedule_retry_job_def

interpretation start: row_update "\<lambda>i. start_guard i g" start_job for g
  by unfold_locales (auto simp: row_defs)

interpretation retry: row_update "row_in Dead" retry_job
  by unfold_locales (auto simp: row_defs)

interpretation resched: row_update "row_in Running" "schedule_retry_job nextRunAt lastError"
  for nextRunAt lastError
  by unfold_locales (auto simp: row_defs)

interpretation status: row_update any_row "set_status x lastError" for x lastError
  by unfold_locales (auto simp: row_defs)

interpretation cancel: row_update any_row cancel_job
  by unfold_locales (auto simp: row_defs)

interpretation bump: row_update any_row bump_attempts
  by unfold_locales (auto simp: row_defs)

end
