(* ===== verification/JobRules.thy ===== *)
theory JobRules
  imports JobRepo
begin

text \<open>
  Proof rules for the methods of the job store, one per method, in the calculus of the
  prelude: from what the caller knows before the call to what it knows after each outcome.
  \<open>P\<close> holds before, \<open>Q\<close> after a success, \<open>R\<close> after an error; a call whose reply is
  lost ends in an error in the state of a success, which is why \<open>Q\<close> has to imply \<open>R\<close>
  (for \<open>ScheduleRetry\<close> only if that can happen).
\<close>

section \<open>Plumbing\<close>

lemma valid_bindH:
  assumes "valid (holds P) m (post (\<lambda>a. holds (M a)) (holds R))"
    and "\<And>a. valid (holds (M a)) (f a) (post (\<lambda>b. holds (Q b)) (holds R))"
  shows "valid (holds P) (bind m f) (post (\<lambda>b. holds (Q b)) (holds R))"
  by (rule valid_bind [OF assms])

lemma valid_fail_H: "(\<And>d s. P d s \<Longrightarrow> R d s) \<Longrightarrow> valid (holds P) (fail e) (post Q (holds R))"
  by (rule valid_fail) (simp add: holds_def)

lemma valid_ret_H: "(\<And>d s. P d s \<Longrightarrow> Q a d s) \<Longrightarrow> valid (holds P) (ret a) (post (\<lambda>a. holds (Q a)) E)"
  by (rule valid_ret) (simp add: holds_def)

lemma valid_preH:
  assumes "valid (holds P') m Q" and "\<And>d s. P d s \<Longrightarrow> P' d s"
  shows "valid (holds P) m Q"
  by (rule valid_pre [OF assms(1)]) (simp add: holds_def assms(2))

lemma valid_conseqH:
  assumes "valid (holds P) m (post (\<lambda>a. holds (Q a)) (holds R))"
    and "\<And>d s. P' d s \<Longrightarrow> P d s" and "\<And>a d s. Q a d s \<Longrightarrow> Q' a d s" and "\<And>d s. R d s \<Longrightarrow> R' d s"
  shows "valid (holds P') m (post (\<lambda>a. holds (Q' a)) (holds R'))"
  by (rule valid_conseq [OF assms(1)])
     (auto simp: holds_def post_def assms(2-4) split: sum.splits)

lemma valid_if:
  assumes "c \<Longrightarrow> valid P m Q" and "\<not> c \<Longrightarrow> valid P n Q"
  shows "valid P (if c then m else n) Q"
  using assms by simp

lemma valid_case_option:
  assumes "valid P m Q" and "\<And>a. valid P (f a) Q"
  shows "valid P (case x of None \<Rightarrow> m | Some a \<Rightarrow> f a) Q"
  using assms by (cases x) simp_all

lemma valid_case_sum:
  assumes "\<And>e. valid (P (Inl e)) (f e) Q" and "\<And>a. valid (P (Inr a)) (g a) Q"
  shows "valid (P x) (case x of Inl e \<Rightarrow> f e | Inr a \<Rightarrow> g a) Q"
  using assms by (cases x) simp_all

lemma valid_result_ofH:
  assumes "valid (holds P) m (post (\<lambda>a. holds (Q a)) (holds R))"
  shows "valid (holds P) (result_of m)
    (post (\<lambda>r. holds (case r of Inl e \<Rightarrow> R | Inr a \<Rightarrow> Q a)) (holds R'))"
proof (rule validI)
  fix w r w'
  assume P: "holds P w" and run: "result_of m w = (r, w')"
  obtain q w1 where m: "m w = (q, w1)" by fastforce
  have "r = Inr q" "w' = w1" using run m by (simp_all add: result_of_def)
  then show "post (\<lambda>r. holds (case r of Inl e \<Rightarrow> R | Inr a \<Rightarrow> Q a)) (holds R') r w'"
    using validD [OF assms P m] by (cases q) simp_all
qed

lemma valid_scan_row:
  assumes "valid P m (post (\<lambda>r w. case r of None \<Rightarrow> R w | Some x \<Rightarrow> Q x w) R)"
  shows "valid P (scan_row m) (post Q R)"
  unfolding scan_row_def
proof (rule valid_bind [OF assms])
  show "valid (\<lambda>w. case a of None \<Rightarrow> R w | Some x \<Rightarrow> Q x w)
    (case a of None \<Rightarrow> fail ErrNoRows | Some x \<Rightarrow> ret x) (post Q R)" for a
    by (cases a) (simp_all add: valid_ret valid_fail)
qed

lemma valid_not_found:
  assumes "valid P m (post Q R)"
  shows "valid P (not_found msg m) (post Q R)"
  unfolding not_found_def
proof (rule valid_bind [OF valid_result_of [OF assms]])
  show "valid (post Q R r) (case r of
      Inl e \<Rightarrow> if errors_Is e ErrNoRows then fail ErrNotFound else fail (Wrap msg e)
    | Inr x \<Rightarrow> ret x) (post Q R)" for r
    by (cases r) (auto simp: valid_def)
qed

lemma find_job: "find (\<lambda>j. ID j = i) (jobs d) = job_of i d"
  by (simp add: find_by_def)

section \<open>Reading\<close>

lemma valid_GetByID:
  assumes "\<And>d s j. P d s \<Longrightarrow> job_of i d = Some j \<Longrightarrow> Q j d s"
    and "\<And>d s. P d s \<Longrightarrow> R d s"
  shows "valid (holds P) (GetByID E i) (post (\<lambda>j. holds (Q j)) (holds R))"
  unfolding GetByID_def
proof (rule valid_not_found, rule valid_scan_row)
  have "valid (holds P) (sql E PgStmt (select_job (\<lambda>j. ID j = i)))
     (post (\<lambda>r. holds (case r of None \<Rightarrow> R | Some x \<Rightarrow> Q x)) (holds R))"
    by (rule valid_sql) (auto simp: select_job_def find_job assms split: option.splits)
  then show "valid (holds P) (sql E PgStmt (select_job (\<lambda>j. ID j = i)))
     (post (\<lambda>r w. case r of None \<Rightarrow> holds R w | Some x \<Rightarrow> holds (Q x) w) (holds R))"
    by (rule valid_conseq) (auto simp: post_def holds_def split: sum.splits option.splits)
qed

text \<open>The same as an equation: a missing row is \<open>ErrNotFound\<close>, an unanswered query is not.\<close>

lemma GetByID_run:
  "GetByID E i w = (case outcome E PgStmt (calls w) of
     Up \<Rightarrow> (case job_of i (db w) of None \<Rightarrow> (Inl ErrNotFound, tick w) | Some j \<Rightarrow> (Inr j, tick w))
   | _ \<Rightarrow> (Inl (Wrap ''failed to get job'' Unavailable), tick w))"
proof -
  have same: "(tick w)\<lparr>db := db w\<rparr> = tick w" by (simp add: tick_def)
  show ?thesis
    by (simp add: GetByID_def not_found_def scan_row_def bind_def result_of_def sql_def Let_def
        select_job_def stmt_db_def find_job same split: fault.splits option.splits)
qed

lemma valid_GetByIdempotencyKey:
  assumes "\<And>d s j. P d s \<Longrightarrow> j \<in> set (jobs d) \<Longrightarrow> IdempotencyKey j = key \<Longrightarrow> Q j d s"
    and "\<And>d s. P d s \<Longrightarrow> R d s"
  shows "valid (holds P) (GetByIdempotencyKey E key) (post (\<lambda>j. holds (Q j)) (holds R))"
  unfolding GetByIdempotencyKey_def
proof (rule valid_not_found, rule valid_scan_row)
  have "valid (holds P) (sql E PgStmt (select_job (\<lambda>j. IdempotencyKey j = key)))
     (post (\<lambda>r. holds (case r of None \<Rightarrow> R | Some x \<Rightarrow> Q x)) (holds R))"
    by (rule valid_sql)
       (auto simp: select_job_def assms find_Some_iff split: option.splits intro!: assms(1))
  then show "valid (holds P) (sql E PgStmt (select_job (\<lambda>j. IdempotencyKey j = key)))
     (post (\<lambda>r w. case r of None \<Rightarrow> holds R w | Some x \<Rightarrow> holds (Q x) w) (holds R))"
    by (rule valid_conseq) (auto simp: post_def holds_def split: sum.splits option.splits)
qed

section \<open>The life cycle\<close>

lemma update_status_run:
  assumes "schema_ok d" and "update_jobs (any_row i) (\<lambda>_. set_status x le now) t d = Inr (n, d')"
  shows "d' = set_job i (set_status x le now) d \<and> (n \<noteq> 0 \<longrightarrow> (\<exists>j. job_of i d = Some j))"
proof -
  have "d' = set_job i (set_status x le now) d" and n: "n = int (length (filter (any_row i) (jobs d)))"
    using assms(2) by (auto simp: update_jobs_def set_job_def any_row_def [abs_def])
  moreover have "\<exists>j. job_of i d = Some j" if "n \<noteq> 0"
  proof (rule ccontr)
    assume "\<not> ?thesis"
    then have "filter (any_row i) (jobs d) = []"
      by (simp add: find_by_None_iff any_row_def filter_empty_conv image_iff) metis
    then show False using n that by simp
  qed
  ultimately show ?thesis by blast
qed

lemma set_job_absent: "job_of i d = None \<Longrightarrow> set_job i f d = d"
proof -
  assume "job_of i d = None"
  then have "update_where (\<lambda>j. ID j = i) f (jobs d) = jobs d"
    unfolding update_where_def by (intro map_idI) (auto simp: find_by_None_iff)
  then show ?thesis by (simp add: set_job_def)
qed

lemma valid_UpdateStatus:
  assumes st: "validStatuses st = Some x"
    and ok: "\<And>d s. P d s \<Longrightarrow> schema_ok d"
    and hit: "\<And>d s j t. P d s \<Longrightarrow> job_of i d = Some j \<Longrightarrow> Q (set_job i (set_status x le t) d) s"
    and err: "\<And>d s. P d s \<Longrightarrow> R d s" and late: "\<And>d s. Q d s \<Longrightarrow> R d s"
  shows "valid (holds P) (UpdateStatus E i st le) (post (\<lambda>_. holds Q) (holds R))"
proof -
  let ?stmt = "\<lambda>now. update_jobs (any_row i) (\<lambda>_. set_status x le now)"
  have post: "if n = 0 then R d' s else Q d' s"
    if "P d s" and run: "?stmt now t d = Inr (n, d')" for now t d s n d'
  proof (cases "job_of i d")
    case None
    then have "d' = d" and "n = 0"
      using update_status_run [OF ok [OF that(1)] run] set_job_absent [OF None] by auto
    then show ?thesis using err [OF that(1)] by simp
  next
    case (Some j)
    then show ?thesis
      using update_status_run [OF ok [OF that(1)] run] hit [OF that(1) Some] late by auto
  qed
  have upd: "valid (holds P) (sql E PgStmt (?stmt now))
     (post (\<lambda>n. holds (if n = 0 then R else Q)) (holds R))" for now
  proof (rule valid_sql)
    show "R d' s" if "P d s" and "?stmt now t d = Inr (n, d')" for d s t n d'
      using post [OF that] late by (cases "n = 0") simp_all
    show "(if n = 0 then R else Q) d' s" if "P d s" and "?stmt now t d = Inr (n, d')" for d s t n d'
      using post [OF that] by simp
  qed (rule err)
  have step: "valid (holds P)
      (bind (wrap ''failed to update job status'' (sql E PgStmt (?stmt now)))
        (\<lambda>n. if n = 0 then fail ErrNotFound else ret ())) (post (\<lambda>_. holds Q) (holds R))" for now
  proof (rule valid_bindH [OF valid_wrap [OF upd]])
    show "valid (holds (if n = 0 then R else Q)) (if n = 0 then fail ErrNotFound else ret ())
      (post (\<lambda>_. holds Q) (holds R))" for n :: int
      by (simp add: valid_def)
  qed
  show ?thesis
    unfolding UpdateStatus_def st option.case
    by (rule valid_bindH [where M = "\<lambda>_. P"]) (auto intro!: valid_time_Now step)
qed

lemma valid_StartExecution:
  assumes ok: "\<And>d s. P d s \<Longrightarrow> schema_ok d"
    and hit: "\<And>d s j t. P d s \<Longrightarrow> job_of i d = Some j \<Longrightarrow> start_guard i g j
      \<Longrightarrow> Q (Attempts j + 1) (set_job i (start_job t) d) s"
    and miss: "\<And>d s. P d s \<Longrightarrow> (\<And>j. job_of i d = Some j \<Longrightarrow> \<not> start_guard i g j) \<Longrightarrow> Q 0 d s"
    and err: "\<And>d s. P d s \<Longrightarrow> R d s" and late: "\<And>a d s. Q a d s \<Longrightarrow> R d s"
  shows "valid (holds P) (StartExecution E i g) (post (\<lambda>a. holds (Q a)) (holds R))"
proof -
  let ?stmt = "update_returning (start_guard i g) start_job Attempts"
  let ?M = "\<lambda>r. case r of None \<Rightarrow> Q 0 | Some a \<Rightarrow> Q a"
  have run: "?M r d' s" if "P d s" and "?stmt t d = Inr (r, d')" for d s t r d'
    using that start.update_returning_run [OF ok [OF that(1)], where i = i and g = g and t = t and col = Attempts]
      hit [OF that(1)] miss [OF that(1)]
    by (auto simp: start_job_def split: option.splits if_splits)
  have sql: "valid (holds P) (sql E PgStmt ?stmt) (post (\<lambda>r. holds (?M r)) (holds R))"
  proof (rule valid_sql)
    show "R d' s" if "P d s" and "?stmt t d = Inr (r, d')" for d s t r d'
      using run [OF that] late by (cases r) auto
  qed (use run err in auto)
  have tail: "valid (holds (?M r)) (bind (result_of (case r of None \<Rightarrow> fail ErrNoRows | Some x \<Rightarrow> ret x)) (\<lambda>r.
      case r of Inl e \<Rightarrow> if errors_Is e ErrNoRows then ret 0 else fail (Wrap ''start job execution'' e)
      | Inr a \<Rightarrow> ret a)) (post (\<lambda>a. holds (Q a)) (holds R))" for r
    by (cases r) (auto simp: valid_def holds_def)
  have assoc: "StartExecution E i g w = bind (result_of (sql E PgStmt ?stmt)) (\<lambda>q. case q of
      Inl e \<Rightarrow> if errors_Is e ErrNoRows then ret 0 else fail (Wrap ''start job execution'' e)
    | Inr r \<Rightarrow> bind (result_of (case r of None \<Rightarrow> fail ErrNoRows | Some x \<Rightarrow> ret x)) (\<lambda>r.
      case r of Inl e \<Rightarrow> if errors_Is e ErrNoRows then ret 0 else fail (Wrap ''start job execution'' e)
      | Inr a \<Rightarrow> ret a)) w" for w
    by (auto simp: StartExecution_def scan_row_def bind_def result_of_def split: prod.splits sum.splits)
  have never: "\<not> errors_Is e ErrNoRows" if "sql E PgStmt ?stmt w = (Inl e, w')" for e w w'
    using that by (auto simp: sql_def Let_def update_returning_def split: fault.splits sum.splits)
  show ?thesis
  proof (rule validI)
    fix w r w'
    assume P: "holds P w" and run: "StartExecution E i g w = (r, w')"
    obtain q w1 where q: "sql E PgStmt ?stmt w = (q, w1)" by fastforce
    have p1: "post (\<lambda>r. holds (?M r)) (holds R) q w1" by (rule validD [OF sql P q])
    show "post (\<lambda>a. holds (Q a)) (holds R) r w'"
    proof (cases q)
      case (Inl e)
      with run q p1 never [OF q [unfolded Inl]] show ?thesis by (auto simp: assoc)
    next
      case (Inr x)
      with run q p1 validD [OF tail [of x], of w1 r w'] show ?thesis by (simp add: assoc)
    qed
  qed
qed

lemma valid_ScheduleRetry:
  assumes ok: "\<And>d s. P d s \<Longrightarrow> schema_ok d"
    and hit: "\<And>d s j t. P d s \<Longrightarrow> job_of i d = Some j \<Longrightarrow> Status j = Running
      \<Longrightarrow> Q (QueueGeneration j + 1) (set_job i (schedule_retry_job nextRunAt le t) d) s"
    and err: "\<And>d s. P d s \<Longrightarrow> R d s"
    and late: "\<And>n a d s. outcome E PgRetry n = Late \<Longrightarrow> Q a d s \<Longrightarrow> R d s"
  shows "valid (holds P) (ScheduleRetry E i nextRunAt le) (post (\<lambda>a. holds (Q a)) (holds R))"
proof -
  let ?stmt = "update_returning (row_in Running i) (schedule_retry_job nextRunAt le) QueueGeneration"
  let ?M = "\<lambda>r. case r of None \<Rightarrow> R | Some a \<Rightarrow> Q a"
  have run: "?M r d' s" if "P d s" and "?stmt t d = Inr (r, d')" for d s t r d'
    using that resched.update_returning_run [OF ok [OF that(1)], where i = i and t = t and col = QueueGeneration
        and nextRunAt = nextRunAt and lastError = le] hit [OF that(1)] err [OF that(1)]
    by (auto simp: schedule_retry_job_def row_in_def split: option.splits if_splits)
  have "valid (holds P) (sql E PgRetry ?stmt) (post (\<lambda>r. holds (?M r)) (holds R))"
  proof (rule valid_sql)
    show "R d' s" if "P d s" "?stmt t d = Inr (a, d')" "outcome E PgRetry n = Late" for d s t a d' n
      using run [OF that(1,2)] late [OF that(3)] by (cases a) auto
  qed (use run err in auto)
  then show ?thesis
    unfolding ScheduleRetry_def
    by (intro valid_not_found valid_scan_row)
       (erule valid_conseq, auto simp: post_def split: sum.splits option.splits)
qed

section \<open>Executions\<close>

definition add_execution :: "execution \<Rightarrow> tables \<Rightarrow> tables" where
  "add_execution x d = d\<lparr>executions := executions d @ [x\<lparr>ExID := execution_seq d\<rparr>],
     execution_seq := execution_seq d + 1\<rparr>"

lemma insert_execution_run:
  "insert_execution x d = Inr (i, d') \<Longrightarrow> i = execution_seq d \<and> d' = add_execution x d"
  by (auto simp: insert_execution_def add_execution_def split: if_splits)

lemma valid_CreateExecution:
  assumes ins: "\<And>d s x d'. P d s \<Longrightarrow> ExJobID x = jobID \<Longrightarrow> ExStatus x = st
      \<Longrightarrow> ExGeneration x = (if g \<le> 0 then 1 else g)
      \<Longrightarrow> insert_execution x d = Inr (execution_seq d, d') \<Longrightarrow> d' = add_execution x d
      \<Longrightarrow> Q (execution_seq d) d' s"
    and err: "\<And>d s. P d s \<Longrightarrow> R d s" and late: "\<And>a d s. Q a d s \<Longrightarrow> R d s"
  shows "valid (holds P) (CreateExecution E jobID a t st g) (post (\<lambda>i. holds (Q i)) (holds R))"
  unfolding CreateExecution_def Let_def
proof (rule valid_wrap, rule valid_sql)
  fix d s ta i d'
  let ?x = "\<lparr>ExID = 0, ExJobID = jobID, ExAttempt = a, ExStartedAt = t, ExFinishedAt = None,
    ExStatus = st, ExError = None, ExResponseCode = None, ExGeneration = if g \<le> 0 then 1 else g\<rparr>"
  assume P: "P d s" and run: "insert_execution ?x d = Inr (i, d')"
  then show Q: "Q i d' s"
    using insert_execution_run [OF run] by (auto intro!: ins [where x = ?x])
  then show "R d' s" by (rule late)
qed (rule err)

lemma valid_HasCompletedExecution:
  assumes "\<And>d s. P d s \<Longrightarrow> Q (completed i g d) d s" and "\<And>d s. P d s \<Longrightarrow> R d s"
  shows "valid (holds P) (HasCompletedExecution E i g) (post (\<lambda>b. holds (Q b)) (holds R))"
  unfolding HasCompletedExecution_def by (rule valid_wrap, rule valid_sql) (auto simp: assms)

definition finish :: "time \<Rightarrow> exec_status \<Rightarrow> string option \<Rightarrow> int option \<Rightarrow> execution \<Rightarrow> execution" where
  "finish t st err code x = x\<lparr>ExFinishedAt := Some t, ExStatus := st, ExError := err, ExResponseCode := code\<rparr>"

definition set_execution :: "int \<Rightarrow> (execution \<Rightarrow> execution) \<Rightarrow> tables \<Rightarrow> tables" where
  "set_execution i f d = d\<lparr>executions := update_where (\<lambda>x. ExID x = i) f (executions d)\<rparr>"

lemma valid_CompleteExecution:
  assumes upd: "\<And>d s. P d s \<Longrightarrow> Q (set_execution i (finish t st err code) d) s"
    and err: "\<And>d s. P d s \<Longrightarrow> R d s" and late: "\<And>d s. Q d s \<Longrightarrow> R d s"
  shows "valid (holds P) (CompleteExecution E i t st err code) (post (\<lambda>_. holds Q) (holds R))"
proof -
  have "valid (holds P) (sql E PgStmt (update_execution i t st err code)) (post (\<lambda>_. holds Q) (holds R))"
  proof (rule valid_sql)
    fix d s ta a d'
    assume "P d s" and "update_execution i t st err code ta d = Inr (a, d')"
    then show Q: "Q d' s"
      using upd by (auto simp: update_execution_def set_execution_def finish_def [abs_def])
    then show "R d' s" by (rule late)
  qed (rule assms(2))
  then show ?thesis
    unfolding CompleteExecution_def
    by (intro valid_bindH [OF valid_wrap])
       (auto intro!: valid_fail_H valid_ret_H late)
qed

section \<open>Outbox\<close>

definition drop_outbox :: "uuid list \<Rightarrow> tables \<Rightarrow> tables" where
  "drop_outbox ids d = d\<lparr>outbox := filter (\<lambda>e. ObJobID e \<notin> set ids) (outbox d)\<rparr>"

lemma valid_DeleteOutboxEntries:
  assumes "\<And>d s. P d s \<Longrightarrow> Q (drop_outbox ids d) s" and "\<And>d s. P d s \<Longrightarrow> R d s"
    and "\<And>d s. Q d s \<Longrightarrow> R d s"
  shows "valid (holds P) (DeleteOutboxEntries E ids) (post (\<lambda>_. holds Q) (holds R))"
proof (cases "ids = []")
  case True
  then show ?thesis
    using assms(1) by (auto simp: DeleteOutboxEntries_def drop_outbox_def intro!: valid_ret_H)
next
  case False
  have "valid (holds P) (sql E PgStmt (delete_outbox ids)) (post (\<lambda>_. holds Q) (holds R))"
    by (rule valid_sql) (use assms in \<open>auto simp: delete_outbox_def drop_outbox_def\<close>)
  with False show ?thesis by (simp add: DeleteOutboxEntries_def valid_wrap)
qed

lemma valid_ClaimOutbox:
  assumes ok: "\<And>d s es. P d s \<Longrightarrow> set es \<subseteq> set (outbox d) \<Longrightarrow> (distinct (map ObJobID (outbox d)) \<longrightarrow> distinct (map ObJobID es)) \<Longrightarrow> Q es d s"
    and err: "\<And>d s. P d s \<Longrightarrow> R d s"
  shows "valid (holds P) (ClaimOutbox E lim t) (post (\<lambda>es. holds (Q es)) (holds R))"
proof -
  let ?T = "\<lambda>v d s. v = d \<and> P d s"
  let ?B = "\<lambda>es v d s. v = d \<and> P d s \<and> Q es d s"
  have sel: "Q es d s" if "P d s" "select_outbox lim t now d = Inr (es, d')" for d s es now d'
  proof (rule ok [OF that(1)])
    have es: "es = take (nat lim) (sort_key ObCreatedAt (filter (\<lambda>e. ObCreatedAt e \<le> t) (outbox d)))"
      using that(2) by (auto simp: select_outbox_def)
    show "set es \<subseteq> set (outbox d)" using es by (auto dest: in_set_takeD)
    show "distinct (map ObJobID (outbox d)) \<longrightarrow> distinct (map ObJobID es)"
    proof
      let ?fs = "filter (\<lambda>e. ObCreatedAt e \<le> t) (outbox d)"
      assume "distinct (map ObJobID (outbox d))"
      then have "distinct (map ObJobID ?fs)" by (rule distinct_map_filter)
      then have "distinct (map ObJobID (sort_key ObCreatedAt ?fs))" by (simp add: distinct_map)
      then show "distinct (map ObJobID es)" unfolding es take_map [symmetric] by (rule distinct_take)
    qed
  qed
  have "valid (in_tx ?T) (tx_sql E (select_outbox lim t)) (post (\<lambda>es. in_tx (?B es)) (holds R))"
    by (rule valid_tx_sql) (use sel err in \<open>auto simp: select_outbox_def\<close>)
  moreover have "valid (holds P) (tx_begin E) (post (\<lambda>_. in_tx ?T) (holds R))"
    by (rule valid_tx_begin) (auto simp: err)
  moreover have "valid (in_tx (?B es)) (tx_commit E) (post (\<lambda>_. holds (Q es)) (holds R))" for es
    by (rule valid_tx_commit) (auto simp: err)
  ultimately show ?thesis
    unfolding ClaimOutbox_def
    by (intro valid_with_rollback valid_bind [OF valid_wrap] valid_ret) simp_all
qed

text \<open>A look at a row after the transaction has ended changes nothing.\<close>

lemma valid_look:
  "valid (holds P) (result_of (scan_row (tx_sql E (select_job f)))) (post (\<lambda>_. holds P) (holds P))"
  by (rule validI)
     (auto simp: result_of_def scan_row_def bind_def tx_sql_def holds_def select_job_def
       split: prod.splits sum.splits option.splits fault.splits if_splits)

end
