(* ===== verification/Callbacks.thy ===== *)
theory Callbacks
  imports World GoStrings
begin

unbundle bit_operations_syntax

text \<open>
  \<open>internal/validator\<close> and \<open>internal/executor\<close>: which callback URLs may be called, and the
  HTTP call itself. Addresses are machine words, the private ranges CIDR masks. The HTTP
  exchange and DNS are parameters; what is sent, and to which endpoints the dialer is
  pinned, is recorded in \<open>posts\<close>.
\<close>

section \<open>Private addresses\<close>

datatype cidr = Cidr4 "32 word" nat | Cidr6 "128 word" nat

definition ipv4 :: "int \<Rightarrow> int \<Rightarrow> int \<Rightarrow> int \<Rightarrow> 32 word" where
  "ipv4 a b c d = word_of_int (((a * 256 + b) * 256 + c) * 256 + d)"

text \<open>\<open>net.IP.To4\<close>: an IPv4-mapped address is an IPv4 address.\<close>

definition To4 :: "ip \<Rightarrow> ip" where
  "To4 a = (case a of
     V4 x \<Rightarrow> V4 x
   | V6 x \<Rightarrow> if drop_bit 32 x = 0xFFFF then V4 (ucast x) else V6 x)"

text \<open>\<open>net.IPNet.Contains\<close>: equal under the mask, and of the same length.\<close>

definition mask4 :: "nat \<Rightarrow> 32 word" where
  "mask4 n = push_bit (32 - n) (- 1)"

definition mask6 :: "nat \<Rightarrow> 128 word" where
  "mask6 n = push_bit (128 - n) (- 1)"

fun cidr_contains :: "cidr \<Rightarrow> ip \<Rightarrow> bool" where
  "cidr_contains (Cidr4 net n) (V4 x) = (net AND mask4 n = x AND mask4 n)"
| "cidr_contains (Cidr6 net n) (V6 x) = (net AND mask6 n = x AND mask6 n)"
| "cidr_contains _ _ = False"

definition privateCIDRs :: "cidr list" where
  "privateCIDRs =
     [Cidr4 (ipv4 10 0 0 0) 8, Cidr4 (ipv4 172 16 0 0) 12, Cidr4 (ipv4 192 168 0 0) 16,
      Cidr4 (ipv4 127 0 0 0) 8, Cidr4 (ipv4 169 254 0 0) 16, Cidr4 (ipv4 0 0 0 0) 8,
      Cidr6 1 128, Cidr6 0 128, Cidr6 (push_bit 112 0xFE80) 10, Cidr6 (push_bit 112 0xFC00) 7]"

definition isPrivateIP :: "ip \<Rightarrow> bool" where
  "isPrivateIP a = list_ex (\<lambda>c. cidr_contains c (To4 a)) privateCIDRs"

section \<open>Validation\<close>

record config =
  AllowPrivateIPs :: bool

definition blockedHosts :: "string list" where
  "blockedHosts = [''localhost'', ''localhost.localdomain'', ''host.docker.internal'',
     ''host.containers.internal'', ''metadata.google.internal'', ''169.254.169.254'',
     ''metadata'', ''metadata.azure.com'']"

record validation_result =
  VrURL :: url
  ResolvedIPs :: "ip list"
  ValidatedHost :: string

definition resolveHost :: "env \<Rightarrow> string \<Rightarrow> ip list handler" where
  "resolveHost E host w =
     (case LookupIP E (calls w) host of
        Inl e \<Rightarrow> (Inl e, tick w)
      | Inr ips \<Rightarrow> if ips = [] then (Inl (Err ''no IPs returned''), tick w)
                   else (Inr ips, tick w))"

definition ValidateCallbackURL :: "env \<Rightarrow> config \<Rightarrow> string \<Rightarrow> validation_result handler" where
  "ValidateCallbackURL E cfg rawURL =
     (if TrimSpace rawURL = '''' then fail ErrInvalidURL
      else case url_Parse E (TrimSpace rawURL) of
          None \<Rightarrow> fail (Wrap ''parse'' ErrInvalidURL)
        | Some parsed \<Rightarrow>
            if Scheme parsed \<noteq> ''http'' \<and> Scheme parsed \<noteq> ''https''
            then fail (Wrap ''scheme must be http or https'' ErrInvalidURL)
            else if Host parsed = '''' then fail (Wrap ''missing host'' ErrInvalidURL)
            else if ToLower (TrimSuffix (Hostname parsed) ''.'') \<in> set blockedHosts
            then fail (Wrap (Hostname parsed) ErrBlockedHost)
            else bind (result_of (resolveHost E (Hostname parsed))) (\<lambda>r.
              case r of
                Inl e \<Rightarrow> fail (Wrap (Error e) ErrDNSResolution)
              | Inr ips \<Rightarrow>
                  if \<not> AllowPrivateIPs cfg \<and> list_ex isPrivateIP ips
                  then fail (Wrap (Hostname parsed) ErrPrivateAddress)
                  else ret \<lparr>VrURL = parsed, ResolvedIPs = ips, ValidatedHost = Hostname parsed\<rparr>))"

section \<open>Execution\<close>

definition maxResponseBodyBytes :: int where "maxResponseBodyBytes = 1048576"
definition maxRedirects :: nat where "maxRedirects = 3"

definition equalHost :: "string \<Rightarrow> string \<Rightarrow> bool" where
  "equalHost a b \<longleftrightarrow> ToLower (TrimSuffix a ''.'') = ToLower (TrimSuffix b ''.'')"

definition url_port :: "url \<Rightarrow> string" where
  "url_port u = (if Port u \<noteq> '''' then Port u else if Scheme u = ''https'' then ''443'' else ''80'')"

definition port :: "validation_result \<Rightarrow> string" where
  "port r = url_port (VrURL r)"

text \<open>The dialer ignores the address it is asked for: it tries the resolved addresses in
  their order, at the port of the validated URL.\<close>

definition Dialer :: "validation_result \<Rightarrow> endpoints" where
  "Dialer r = map (\<lambda>a. (a, port r)) (ResolvedIPs r)"

text \<open>The transport is determined by the result: it dials \<open>Dialer\<close> of it for every request
  and keeps no connection.\<close>

definition CreateValidatingTransport :: "env \<Rightarrow> config \<Rightarrow> string \<Rightarrow> validation_result handler" where
  "CreateValidatingTransport E cfg callbackURL = bind (ValidateCallbackURL E cfg callbackURL) (\<lambda>result. ret result)"

lemma CreateValidatingTransport_eq [simp]: "CreateValidatingTransport E cfg = ValidateCallbackURL E cfg"
  by (rule ext)+ (simp add: CreateValidatingTransport_def bind_def split: prod.split sum.split)

text \<open>One request on the wire: the dialer connects to the pinned endpoints only.\<close>

definition send :: "env \<Rightarrow> endpoints \<Rightarrow> http_request \<Rightarrow> hop handler" where
  "send E targets req w =
     (Inr (exchange E (calls w) targets req), (tick w)\<lparr>posts := posts w @ [(targets, req)]\<rparr>)"

text \<open>
  \<open>client.Do\<close> with the \<open>CheckRedirect\<close> of \<open>ExecuteJob\<close>: \<open>left\<close> counts the requests
  that may still be sent, this one included, so \<open>len(via)\<close> is \<open>maxRedirects + 1 - left\<close>
  when the redirect is checked; at \<open>maxRedirects\<close> the redirect response itself is the
  result (\<open>http.ErrUseLastResponse\<close>).
\<close>

fun client_Do ::
    "env \<Rightarrow> config \<Rightarrow> validation_result \<Rightarrow> nat \<Rightarrow> http_request \<Rightarrow> http_request \<Rightarrow> http_response handler" where
  "client_Do E cfg validated left first req =
     bind (send E (Dialer validated) req) (\<lambda>h.
     case h of
       HopError e \<Rightarrow> fail e
     | HopResponse resp \<Rightarrow> ret resp
     | HopRedirect u next_req resp \<Rightarrow>
         (case left of
            0 \<Rightarrow> ret resp
          | Suc 0 \<Rightarrow> ret resp
          | Suc (Suc n) \<Rightarrow>
              if RqMethod next_req \<noteq> RqMethod first
              then fail (Err ''refusing redirect that changes method'')
              else if \<not> equalHost (Hostname u) (ValidatedHost validated)
              then fail (Err ''refusing cross-host redirect'')
              else bind (ValidateCallbackURL E cfg (RqURL next_req)) (\<lambda>_.
                   client_Do E cfg validated (Suc n) first next_req)))"

declare client_Do.simps [simp del]

definition callback_request :: "string \<Rightarrow> string \<Rightarrow> string \<Rightarrow> int \<Rightarrow> http_request" where
  "callback_request callbackURL payload jobID attempt =
     \<lparr>RqMethod = ''POST'', RqURL = callbackURL, RqPayload = payload,
      RqHeaders = [(''Content-Type'', ''application/json''),
                   (''User-Agent'', ''job-scheduler-worker/1.0'')] @
        (if jobID = '''' then []
         else [(''Idempotency-Key'', jobID @ '':'' @ FormatInt attempt),
               (''X-Job-ID'', jobID), (''X-Job-Attempt'', FormatInt attempt)])\<rparr>"

text \<open>The status code and the error, as Go returns them; \<open>io.LimitReader\<close> lets at most one
  byte more than the limit through.\<close>

definition ExecuteJob ::
    "env \<Rightarrow> config \<Rightarrow> string \<Rightarrow> string \<Rightarrow> string \<Rightarrow> int \<Rightarrow> (int \<times> goerr option) handler" where
  "ExecuteJob E cfg callbackURL payload jobID attempt =
     bind (result_of (CreateValidatingTransport E cfg callbackURL)) (\<lambda>v.
     case v of
       Inl e \<Rightarrow> ret (0, Some (Wrap ''callback URL validation failed'' e))
     | Inr validated \<Rightarrow>
         (case url_Parse E callbackURL of
            None \<Rightarrow> ret (0, Some (Wrap ''create callback request'' ErrInvalidURL))
          | Some _ \<Rightarrow>
              (let req = callback_request callbackURL payload jobID attempt in
               bind (result_of (client_Do E cfg validated maxRedirects req req)) (\<lambda>d.
               case d of
                 Inl e \<Rightarrow> ret (0, Some (Wrap ''execute callback'' e))
               | Inr resp \<Rightarrow>
                   (let n = min (RsBodyLen resp) (maxResponseBodyBytes + 1) in
                    if maxResponseBodyBytes < n
                    then ret (RsStatus resp, Some (Err ''callback response body exceeds limit''))
                    else if RsStatus resp < 200 \<or> 300 \<le> RsStatus resp
                    then ret (RsStatus resp, Some (Err ''callback returned status''))
                    else ret (RsStatus resp, None))))))"

definition Execute :: "env \<Rightarrow> string \<Rightarrow> string \<Rightarrow> (int \<times> goerr option) handler" where
  "Execute E callbackURL payload =
     ExecuteJob E \<lparr>AllowPrivateIPs = False\<rparr> callbackURL payload '''' 0"

end
