(* ===== verification/Retry.thy ===== *)
theory Retry
  imports Prelude
begin

text \<open>
  \<open>internal/retry/retry.go\<close>: the delay before a failed job runs again. Durations are
  \<open>int64\<close> nanoseconds, so the doubling of the loop is written with its wrap-around
  (\<^const>\<open>i64\<close>), and the theorems show that it never happens. \<open>rand.Int63n\<close> is an
  argument: the number it draws.
\<close>

section \<open>Definitions\<close>

definition second :: int where
  "second = 1000000000"

definition BaseDelay :: int where
  "BaseDelay = second"

definition MaxDelay :: int where
  "MaxDelay = 15 * 60 * second"

text \<open>The loop of \<open>Backoff\<close>: \<open>n\<close> is the number of iterations left. \<open>Inl\<close> is the
  early \<open>return MaxDelay\<close> inside the loop, \<open>Inr\<close> the delay when the loop ends.\<close>

fun backoff_loop :: "nat \<Rightarrow> int \<Rightarrow> int + int" where
  "backoff_loop 0 delay = Inr delay"
| "backoff_loop (Suc n) delay =
     (if MaxDelay div 2 \<le> delay then Inl MaxDelay
      else backoff_loop n (i64 (delay * 2)))"

definition Backoff :: "int \<Rightarrow> int" where
  "Backoff attempt =
     (let attempt = (if attempt < 0 then 0 else attempt) in
      case backoff_loop (nat attempt) BaseDelay of
        Inl d \<Rightarrow> d
      | Inr delay \<Rightarrow> if MaxDelay < delay then MaxDelay else delay)"

text \<open>\<open>rand.Int63n n\<close> draws from \<open>[0, n)\<close>; \<open>r\<close> is the raw draw.\<close>

definition Int63n :: "int \<Rightarrow> int \<Rightarrow> int" where
  "Int63n r n = r mod n"

definition BackoffWithJitter :: "int \<Rightarrow> int \<Rightarrow> int" where
  "BackoffWithJitter r attempt =
     (if attempt \<le> 1 then BaseDelay
      else (let base = Backoff (i64 (attempt - 1)); half = base div 2 in
            if half \<le> 0 then base
            else i64 (half + Int63n r (i64 (half + 1)))))"

text \<open>\<open>t\<close> is in nanoseconds.\<close>

definition NextRunAt :: "int \<Rightarrow> int \<Rightarrow> int \<Rightarrow> int" where
  "NextRunAt r now attempt = now + BackoffWithJitter r attempt"

lemmas delay_defs = BaseDelay_def MaxDelay_def second_def

section \<open>Correctness\<close>

lemma backoff_loop_spec:
  assumes "BaseDelay \<le> d" and "d \<le> MaxDelay"
  shows "backoff_loop n d =
    (if (\<exists>k<n. MaxDelay div 2 \<le> d * 2 ^ k) then Inl MaxDelay else Inr (d * 2 ^ n))"
  using assms
proof (induction n arbitrary: d)
  case 0
  then show ?case by simp
next
  case (Suc n)
  show ?case
  proof (cases "MaxDelay div 2 \<le> d")
    case True
    then show ?thesis by (auto intro!: exI [of _ 0])
  next
    case False
    have wrap: "i64 (d * 2) = d * 2"
      using False Suc.prems by (intro i64_id) (auto simp: delay_defs)
    have "BaseDelay \<le> d * 2" and "d * 2 \<le> MaxDelay"
      using False Suc.prems by (auto simp: delay_defs)
    then have IH: "backoff_loop n (d * 2) =
      (if (\<exists>k<n. MaxDelay div 2 \<le> d * 2 * 2 ^ k) then Inl MaxDelay else Inr (d * 2 * 2 ^ n))"
      by (rule Suc.IH)
    have shift: "(\<exists>k<Suc n. MaxDelay div 2 \<le> d * 2 ^ k) \<longleftrightarrow>
      (\<exists>k<n. MaxDelay div 2 \<le> d * 2 * 2 ^ k)"
      using False by (auto simp: less_Suc_eq_0_disj mult.assoc)
    show ?thesis using False IH wrap shift by (simp add: mult.assoc)
  qed
qed

lemma pow2_small_or_large:
  "(\<forall>k<n. 2 ^ k < (450::int)) \<longleftrightarrow> n \<le> 9"
proof
  assume a: "\<forall>k<n. 2 ^ k < (450::int)"
  show "n \<le> 9"
  proof (rule ccontr)
    assume "\<not> n \<le> 9"
    then have "9 < n" by simp
    with a have "(2::int) ^ 9 < 450" by blast
    then show False by simp
  qed
next
  assume "n \<le> 9"
  show "\<forall>k<n. 2 ^ k < (450::int)"
  proof (intro allI impI)
    fix k assume "k < n"
    with \<open>n \<le> 9\<close> have "k \<le> 8" by simp
    then have "(2::int) ^ k \<le> 2 ^ 8" by (intro power_increasing) auto
    then show "2 ^ k < (450::int)" by simp
  qed
qed

lemma Backoff_eq:
  "Backoff attempt = min (BaseDelay * 2 ^ nat attempt) MaxDelay"
proof -
  define n where "n = nat attempt"
  have eq: "Backoff attempt =
    (case backoff_loop n BaseDelay of Inl d \<Rightarrow> d | Inr d \<Rightarrow> if MaxDelay < d then MaxDelay else d)"
    by (simp add: Backoff_def n_def)
  have ex: "(\<exists>k<n. MaxDelay div 2 \<le> BaseDelay * 2 ^ k) \<longleftrightarrow> \<not> n \<le> 9"
  proof -
    have "(MaxDelay div 2 \<le> BaseDelay * 2 ^ k) \<longleftrightarrow> \<not> 2 ^ k < (450::int)" for k
      by (simp add: delay_defs linorder_not_less)
    then show ?thesis using pow2_small_or_large [of n] by auto
  qed
  have spec: "backoff_loop n BaseDelay =
    (if n \<le> 9 then Inr (BaseDelay * 2 ^ n) else Inl MaxDelay)"
    using backoff_loop_spec [of BaseDelay n] ex by (simp add: delay_defs)
  show ?thesis
  proof (cases "n \<le> 9")
    case True
    then show ?thesis using eq spec by (simp add: n_def min_def)
  next
    case False
    then have "(2::int) ^ 10 \<le> 2 ^ n" by (intro power_increasing) auto
    then have "MaxDelay \<le> BaseDelay * 2 ^ n" by (simp add: delay_defs)
    then show ?thesis using False eq spec by (simp add: n_def min_def)
  qed
qed

lemma Backoff_range: "BaseDelay \<le> Backoff a \<and> Backoff a \<le> MaxDelay"
proof -
  have "(1::int) \<le> 2 ^ nat a" by simp
  then have "BaseDelay \<le> BaseDelay * 2 ^ nat a" by (simp add: delay_defs)
  then show ?thesis by (simp add: Backoff_eq) (simp add: delay_defs)
qed

lemma Backoff_even: "even (Backoff a)"
  by (simp add: Backoff_eq min_def delay_defs)

lemma jitter_eq:
  assumes "2 \<le> attempt" and "attempt < 2 ^ 63"
  shows "BackoffWithJitter r attempt =
    Backoff (attempt - 1) div 2 + r mod (Backoff (attempt - 1) div 2 + 1)"
proof -
  define h where "h = Backoff (attempt - 1) div 2"
  have h: "0 < h" "h < 2 ^ 60"
    using Backoff_range [of "attempt - 1"] by (auto simp: h_def delay_defs)
  have a: "i64 (attempt - 1) = attempt - 1"
    using assms by (intro i64_id) auto
  have h1: "i64 (h + 1) = h + 1"
    using h by (intro i64_id) auto
  define m where "m = r mod (h + 1)"
  have m: "0 \<le> m" "m \<le> h"
    using h pos_mod_bound [of "h + 1" r] by (simp_all add: m_def)
  then have "i64 (h + m) = h + m"
    using h by (intro i64_id) auto
  then show ?thesis
    using assms(1) a h h1
    by (simp add: BackoffWithJitter_def Let_def Int63n_def flip: h_def m_def)
qed

lemma jitter_range:
  assumes "attempt < 2 ^ 63"
  shows "(attempt \<le> 1 \<longrightarrow> BackoffWithJitter r attempt = BaseDelay)
    \<and> (1 < attempt \<longrightarrow> Backoff (attempt - 1) div 2 \<le> BackoffWithJitter r attempt
        \<and> BackoffWithJitter r attempt \<le> Backoff (attempt - 1))
    \<and> BaseDelay \<le> BackoffWithJitter r attempt
    \<and> BackoffWithJitter r attempt \<le> MaxDelay
    \<and> now < NextRunAt r now attempt"
proof (cases "attempt \<le> 1")
  case True
  then show ?thesis by (simp add: BackoffWithJitter_def NextRunAt_def delay_defs)
next
  case False
  define b where "b = Backoff (attempt - 1)"
  have "(2::int) ^ 1 \<le> 2 ^ nat (attempt - 1)"
    using False by (intro power_increasing) auto
  then have b: "2 * BaseDelay \<le> b" "b \<le> MaxDelay" "even b"
    using Backoff_range [of "attempt - 1"] Backoff_even [of "attempt - 1"]
    by (auto simp: b_def Backoff_eq min_def delay_defs)
  define m where "m = r mod (b div 2 + 1)"
  have "0 \<le> m" "m \<le> b div 2"
    using b pos_mod_bound [of "b div 2 + 1" r] by (simp_all add: m_def delay_defs)
  moreover have "BackoffWithJitter r attempt = b div 2 + m"
    using False assms jitter_eq [of attempt r] by (simp add: b_def m_def)
  ultimately show ?thesis
    using False b by (auto simp: NextRunAt_def delay_defs simp flip: b_def)
qed

text \<open>C36. The production delay: the doubling loop computes the capped exponential
  \<open>min (1s * 2^n) 15min\<close> with no \<open>int64\<close> overflow on the way; the first retry waits exactly
  one second, a later one between half of the exponential delay of the attempt before and
  all of it, whatever number the generator draws; so the delay is at least one second and
  at most fifteen minutes, and the time of the next run is later than now.
\<close>

theorem BackoffWithJitter_range:
  assumes "attempt < 2 ^ 63"
  shows "Backoff (attempt - 1) = min (BaseDelay * 2 ^ nat (attempt - 1)) MaxDelay
    \<and> (attempt \<le> 1 \<longrightarrow> BackoffWithJitter r attempt = BaseDelay)
    \<and> (1 < attempt \<longrightarrow> Backoff (attempt - 1) div 2 \<le> BackoffWithJitter r attempt
        \<and> BackoffWithJitter r attempt \<le> Backoff (attempt - 1))
    \<and> BaseDelay \<le> BackoffWithJitter r attempt
    \<and> BackoffWithJitter r attempt \<le> MaxDelay
    \<and> now < NextRunAt r now attempt"
  using Backoff_eq jitter_range [OF assms] by blast

theorem BackoffWithJitter_range_witness:
  "(5::int) < 2 ^ 63 \<and> Backoff 4 = 16 * second
    \<and> 8 * second \<le> BackoffWithJitter 123456789 5 \<and> BackoffWithJitter 123456789 5 \<le> 16 * second
    \<and> 100 < NextRunAt 123456789 100 5"
  using BackoffWithJitter_range [of 5 123456789 100]
  by (simp add: Backoff_eq delay_defs)

end
