(* ===== verification/Processor.thy ===== *)
theory Processor
  imports JobRepo Streams Callbacks Retry
begin

text \<open>
  \<open>internal/worker\<close>: what a worker does with one delivered message (\<open>Process\<close>), with a
  message that never makes progress (\<open>Quarantine\<close>), with stale pending entries
  (\<open>reclaimStale\<close>) and in one turn of its main loop (\<open>Run_once\<close>).
\<close>

section \<open>Processing a message\<close>

definition acknowledgeOnce :: "env \<Rightarrow> string \<Rightarrow> unit handler" where
  "acknowledgeOnce E messageID =
     bind (Acknowledge E messageID) (\<lambda>count.
     if count \<noteq> 1 then fail (Err ''expected to acknowledge 1 message'') else ret ())"

text \<open>\<open>_ = f(...)\<close>: the error is dropped.\<close>

definition ignore :: "'a handler \<Rightarrow> unit handler" where
  "ignore m = bind (result_of m) (\<lambda>_. ret ())"

text \<open>The branch for a delivery that \<open>StartExecution\<close> refused, lines 67-130.\<close>

definition process_stale :: "env \<Rightarrow> message \<Rightarrow> job \<Rightarrow> unit handler" where
  "process_stale E m j =
     (if Status j = Running \<and> MsgGeneration m = QueueGeneration j then
        bind (wrap ''check completed executions'' (HasCompletedExecution E (ID j) (QueueGeneration j))) (\<lambda>completed.
        if completed then
          bind (wrap ''finalize stale job as done'' (UpdateStatus E (ID j) StatusDone None)) (\<lambda>_.
          wrap ''acknowledge stale message'' (acknowledgeOnce E (MsgID m)))
        else if MaxAttempts j \<le> Attempts j then
          bind (wrap ''dead-letter stale job'' (DeadLetter E (uuid_String E (ID j)) (MsgPayload m))) (\<lambda>_.
          bind (wrap ''mark stale job as dead'' (UpdateStatus E (ID j) StatusDead
            (Some ''worker crashed before execution completed''))) (\<lambda>_.
          wrap ''acknowledge dead-lettered stale job'' (acknowledgeOnce E (MsgID m))))
        else
          bind (wrap ''reschedule stale job'' (UpdateStatus E (ID j) StatusScheduled None)) (\<lambda>_.
          bind (wrap ''re-enqueue stale job''
            (EnqueueDue E (uuid_String E (ID j)) (MsgPayload m) (QueueGeneration j))) (\<lambda>_.
          wrap ''acknowledge re-driven stale job'' (acknowledgeOnce E (MsgID m)))))
      else wrap ''acknowledge stale message'' (acknowledgeOnce E (MsgID m)))"

text \<open>After a failed callback, lines 204-290: retry later or dead-letter.\<close>

definition process_failed :: "env \<Rightarrow> message \<Rightarrow> job \<Rightarrow> int \<Rightarrow> goerr \<Rightarrow> unit handler" where
  "process_failed E m j attempt executeErr =
     (if attempt < MaxAttempts j then
        bind (time_Now E) (\<lambda>now.
        bind (rand_Draw E) (\<lambda>draw.
        let nextRunAt = NextRunAt draw now attempt; newGeneration = QueueGeneration j + 1 in
        bind (wrap ''schedule retry''
          (ScheduleJob E (uuid_String E (ID j)) (MsgPayload m) newGeneration nextRunAt)) (\<lambda>_.
        bind (result_of (ScheduleRetry E (ID j) nextRunAt (Some (Error executeErr)))) (\<lambda>r.
        case r of
          Inl schedErr \<Rightarrow>
            bind (ignore (RemoveScheduled E (uuid_String E (ID j)))) (\<lambda>_.
            fail (Wrap ''schedule retry'' schedErr))
        | Inr _ \<Rightarrow>
            bind (wrap ''acknowledge failed job after scheduling retry'' (acknowledgeOnce E (MsgID m))) (\<lambda>_.
            fail (Wrap ''execute job'' executeErr))))))
      else
        bind (wrap ''dead-letter job'' (DeadLetter E (uuid_String E (ID j)) (MsgPayload m))) (\<lambda>_.
        bind (wrap ''mark job as dead'' (UpdateStatus E (ID j) StatusDead (Some (Error executeErr)))) (\<lambda>_.
        bind (wrap ''acknowledge dead-lettered job'' (acknowledgeOnce E (MsgID m))) (\<lambda>_.
        fail (Wrap ''execute job after max attempts'' executeErr)))))"

text \<open>After a successful callback, lines 292-321.\<close>

definition process_done :: "env \<Rightarrow> message \<Rightarrow> job \<Rightarrow> unit handler" where
  "process_done E m j =
     bind (wrap ''mark job as done'' (UpdateStatus E (ID j) StatusDone None)) (\<lambda>_.
     bind (ignore (Increment E JobsCompletedKey)) (\<lambda>_.
     wrap ''acknowledge job'' (acknowledgeOnce E (MsgID m))))"

text \<open>A started execution, lines 132-321.\<close>

definition process_started :: "env \<Rightarrow> config \<Rightarrow> message \<Rightarrow> job \<Rightarrow> string \<Rightarrow> int \<Rightarrow> unit handler" where
  "process_started E cfg m j callbackURL attempt =
     bind (time_Now E) (\<lambda>startedAt.
     bind (wrap ''create execution''
       (CreateExecution E (ID j) attempt startedAt ExecRunning (MsgGeneration m))) (\<lambda>executionID.
     bind (ExecuteJob E cfg callbackURL (MsgPayload m) (uuid_String E (ID j)) attempt) (\<lambda>(responseCode, executeErr).
     bind (time_Now E) (\<lambda>finishedAt.
     case executeErr of
       Some e \<Rightarrow>
         bind (wrap ''complete failed execution'' (CompleteExecution E executionID finishedAt ExecFailed
           (Some (Error e)) (if responseCode \<noteq> 0 then Some responseCode else None))) (\<lambda>_.
         bind (ignore (Increment E JobsFailedKey)) (\<lambda>_.
         process_failed E m j attempt e))
     | None \<Rightarrow>
         bind (wrap ''complete successful execution'' (CompleteExecution E executionID finishedAt ExecDone
           None (Some responseCode))) (\<lambda>_.
         process_done E m j)))))"

definition Process :: "env \<Rightarrow> config \<Rightarrow> message \<Rightarrow> unit handler" where
  "Process E cfg m =
     (case uuid_Parse E (MsgJobID m) of
        None \<Rightarrow> fail (Err ''parse job ID'')
      | Some jobID \<Rightarrow>
          bind (wrap ''get job'' (GetByID E jobID)) (\<lambda>j.
          case CallbackURL j of
            None \<Rightarrow> fail (Err ''job has no callback URL'')
          | Some callbackURL \<Rightarrow>
              if callbackURL = '''' then fail (Err ''job has no callback URL'')
              else
                bind (wrap ''start execution for job'' (StartExecution E (ID j) (MsgGeneration m))) (\<lambda>attempt.
                if attempt = 0 then process_stale E m j
                else process_started E cfg m j callbackURL attempt)))"

section \<open>Quarantine\<close>

definition Quarantine :: "env \<Rightarrow> message \<Rightarrow> int \<Rightarrow> unit handler" where
  "Quarantine E m deliveries =
     (case uuid_Parse E (MsgJobID m) of
        None \<Rightarrow> wrap ''acknowledge unparseable message'' (acknowledgeOnce E (MsgID m))
      | Some jobID \<Rightarrow>
          bind (result_of (GetByID E jobID)) (\<lambda>r.
          case r of
            Inl e \<Rightarrow>
              if errors_Is e ErrNotFound
              then wrap ''acknowledge message for missing job'' (acknowledgeOnce E (MsgID m))
              else fail (Wrap ''get job for quarantine'' e)
          | Inr j \<Rightarrow>
              if Status j \<in> {Done, Cancelled, Dead}
              then wrap ''acknowledge terminal job'' (acknowledgeOnce E (MsgID m))
              else
                bind (wrap ''dead-letter poison job'' (DeadLetter E (uuid_String E (ID j)) (MsgPayload m))) (\<lambda>_.
                bind (wrap ''mark poison job as dead'' (UpdateStatus E (ID j) StatusDead
                  (Some (''poison message: '' @ FormatInt deliveries @
                    '' deliveries without progress; quarantined to dead-letter queue'')))) (\<lambda>_.
                bind (ignore (Increment E JobsFailedKey)) (\<lambda>_.
                wrap ''acknowledge quarantined job'' (acknowledgeOnce E (MsgID m)))))))"

section \<open>The worker loop\<close>

definition stalePendingAfter :: int where "stalePendingAfter = 60 * second"
definition reclaimBatch :: nat where "reclaimBatch = 10"
definition maxPoisonDeliveries :: int where "maxPoisonDeliveries = 5"

definition isNoGroupError :: "goerr \<Rightarrow> bool" where
  "isNoGroupError e = Contains (Error e) ''NOGROUP''"

text \<open>A loop whose body's errors are logged and skipped.\<close>

fun for_each :: "('a \<Rightarrow> unit handler) \<Rightarrow> 'a list \<Rightarrow> unit handler" where
  "for_each f [] = ret ()"
| "for_each f (x # xs) = bind (ignore (f x)) (\<lambda>_. for_each f xs)"

definition quarantineOne :: "env \<Rightarrow> message \<Rightarrow> int \<Rightarrow> unit handler" where
  "quarantineOne E m deliveries = ignore (Quarantine E m deliveries)"

definition quarantine_single :: "env \<Rightarrow> pel_entry \<Rightarrow> unit handler" where
  "quarantine_single E p =
     bind (result_of (ReadMessagesByIDs E [PeID p])) (\<lambda>r.
     case r of
       Inl _ \<Rightarrow> ignore (Acknowledge E (PeID p))
     | Inr msgs \<Rightarrow> quarantineOne E (hd msgs) (PeCount p))"

definition quarantinePoison :: "env \<Rightarrow> pel_entry list \<Rightarrow> unit handler" where
  "quarantinePoison E poison =
     (if poison = [] then ret ()
      else
        bind (result_of (ReadMessagesByIDs E (map PeID poison))) (\<lambda>r.
        case r of
          Inl _ \<Rightarrow> for_each (quarantine_single E) poison
        | Inr messages \<Rightarrow>
            for_each (\<lambda>m. quarantineOne E m
              (case map_of (rev (map (\<lambda>p. (PeID p, PeCount p)) poison)) (MsgID m) of
                 None \<Rightarrow> 0 | Some c \<Rightarrow> c)) messages))"

definition reclaimStale :: "env \<Rightarrow> config \<Rightarrow> string \<Rightarrow> unit handler" where
  "reclaimStale E cfg consumer =
     bind (result_of (ListStalePending E stalePendingAfter reclaimBatch)) (\<lambda>r.
     case r of
       Inl _ \<Rightarrow> ret ()
     | Inr pending \<Rightarrow>
         (let poison = filter (\<lambda>p. maxPoisonDeliveries \<le> PeCount p) pending;
              normal = filter (\<lambda>p. \<not> maxPoisonDeliveries \<le> PeCount p) pending in
          bind (quarantinePoison E poison) (\<lambda>_.
          if normal = [] then ret ()
          else
            bind (result_of (Claim E consumer stalePendingAfter (map PeID normal))) (\<lambda>c.
            case c of
              Inl _ \<Rightarrow> ret ()
            | Inr claimed \<Rightarrow> for_each (Process E cfg) claimed))))"

text \<open>One turn of \<open>Worker.Run\<close>'s loop. What the turn observes of its surroundings: whether
  the context is cancelled at its four checks (at the top, while the read is in flight,
  after a failed read, during the pause that follows it) and whether the reclaim ticker has
  fired. A read that is abandoned still runs to its end in its goroutine. The value is the
  error with which \<open>Run\<close> returns, if it does.\<close>

record turn =
  TnCancelled :: bool
  TnReclaim :: bool
  TnDoneInRead :: bool
  TnErrAfterRead :: bool
  TnDoneInPause :: bool

definition Run_once :: "env \<Rightarrow> config \<Rightarrow> string \<Rightarrow> turn \<Rightarrow> goerr option handler" where
  "Run_once E cfg consumer t =
     (if TnCancelled t then ret (Some Canceled)
      else
        bind (if TnReclaim t then reclaimStale E cfg consumer else ret ()) (\<lambda>_.
        bind (result_of (ReadNextWithTimeout E consumer)) (\<lambda>r.
        if TnDoneInRead t then ret (Some Canceled)
        else
          case r of
            Inl e \<Rightarrow>
              if TnErrAfterRead t then ret (Some Canceled)
              else if errors_Is e Canceled then ret (Some e)
              else bind (if isNoGroupError e then ignore (EnsureConsumerGroup E) else ret ()) (\<lambda>_.
                ret (if TnDoneInPause t then Some Canceled else None))
          | Inr messages \<Rightarrow> bind (for_each (Process E cfg) messages) (\<lambda>_. ret None))))"

text \<open>\<open>Worker.Run\<close> over the turns it makes: \<open>None\<close> while it is still running after them.
  Other processes act between the turns; what they do to the shared state is part of the
  turn.\<close>

fun worker_loop :: "env \<Rightarrow> config \<Rightarrow> string \<Rightarrow> ((world \<Rightarrow> world) \<times> turn) list \<Rightarrow> goerr option handler" where
  "worker_loop E cfg consumer [] = ret None"
| "worker_loop E cfg consumer ((others, t) # ts) = (\<lambda>w.
     bind (Run_once E cfg consumer t) (\<lambda>r.
     case r of Some e \<Rightarrow> ret (Some e) | None \<Rightarrow> worker_loop E cfg consumer ts) (others w))"

definition worker_Run :: "env \<Rightarrow> config \<Rightarrow> string \<Rightarrow> ((world \<Rightarrow> world) \<times> turn) list \<Rightarrow> goerr option handler" where
  "worker_Run E cfg consumer ts = bind (EnsureConsumerGroup E) (\<lambda>_. worker_loop E cfg consumer ts)"

definition NewWorker :: "string \<Rightarrow> string" where
  "NewWorker consumer = (if consumer = '''' then ''worker-unknown'' else consumer)"

end
