(* ===== verification/Tracking.thy ===== *)
theory Tracking
  imports Queues JobRules Processor
begin

text \<open>
  The invariant of the platform. Its first half speaks about the tables alone and holds
  whatever fails: attempts stay within the budget, a job that waits for a run has budget
  left, and a job is \<open>done\<close> only with a completed execution of its current generation.
  Its second half says that no job is lost: a job that still has to run is held by the
  outbox, by the ready stream or by the delayed queue under its current generation. It needs
  the environment to be \<open>reliable\<close>.
\<close>

section \<open>The invariant\<close>

definition life_ok :: "job \<Rightarrow> bool" where
  "life_ok j \<longleftrightarrow> Attempts j \<le> MaxAttempts j
     \<and> (Status j = Pending \<or> Status j = Scheduled \<longrightarrow> Attempts j < MaxAttempts j)"

definition done_ok :: "tables \<Rightarrow> job \<Rightarrow> bool" where
  "done_ok d j \<longleftrightarrow> (Status j = Done \<longrightarrow> completed (ID j) (QueueGeneration j) d)"

definition db_inv :: "tables \<Rightarrow> bool" where
  "db_inv d \<longleftrightarrow> schema_ok d \<and> (\<forall>j\<in>set (jobs d). life_ok j \<and> done_ok d j)"

definition job_key :: "job \<Rightarrow> qkey" where
  "job_key j = (ID j, QueueGeneration j)"

definition outbox_keys :: "tables \<Rightarrow> qkey set" where
  "outbox_keys d = (\<lambda>e. (ObJobID e, ObGeneration e)) ` set (outbox d)"

text \<open>Lua prints numbers with 14 significant digits, so a generation survives the delayed queue
  below that bound.\<close>

definition gen_bound :: int where
  "gen_bound = 100000000000000"

definition job_tracked :: "env \<Rightarrow> qkey set \<Rightarrow> redis \<Rightarrow> job \<Rightarrow> bool" where
  "job_tracked E ob s j \<longleftrightarrow> (QueueGeneration j < gen_bound \<longrightarrow>
     (Status j = Pending \<or> Status j = Scheduled \<longrightarrow>
        job_key j \<in> ob \<union> ready_keys E s \<union> delayed_keys E s)
     \<and> (Status j = Running \<longrightarrow> job_key j \<in> ready_keys E s))"

definition tracked :: "env \<Rightarrow> tables \<Rightarrow> redis \<Rightarrow> bool" where
  "tracked E d s \<longleftrightarrow> (\<forall>j\<in>set (jobs d). job_tracked E (outbox_keys d) s j)"

text \<open>
  What the environment has to provide: the server keeps its documented promises and does not
  trim outstanding entries; UUIDs survive printing and parsing; a generation survives the
  JSON document and the Lua script of the delayed queue; the statement of \<open>ScheduleRetry\<close>
  never commits without its reply arriving; \<open>XRANGE\<close> is answered. Every other call may
  fail, before or after it took effect.
\<close>

definition reliable :: "env \<Rightarrow> bool" where
  "reliable E \<longleftrightarrow> server_ok (srv E)
     \<and> (\<forall>i. uuid_Parse E (uuid_String E i) = Some i)
     \<and> (\<forall>p g. 1 \<le> g \<and> g < gen_bound \<longrightarrow>
          (\<exists>p' gs. lua_fields E (sched_Marshal E p g) = Some (Some p', gs) \<and> ParseInt gs = Some g))
     \<and> (\<forall>n. outcome E PgRetry n \<noteq> Late) \<and> (\<forall>n. outcome E RedisRange n = Up)"

lemma reliableD:
  assumes "reliable E"
  shows "server_ok (srv E)" "uuid_Parse E (uuid_String E i) = Some i"
    "outcome E PgRetry n \<noteq> Late" "outcome E RedisRange n = Up"
    "1 \<le> g \<Longrightarrow> g < gen_bound \<Longrightarrow>
       \<exists>p' gs. lua_fields E (sched_Marshal E p g) = Some (Some p', gs) \<and> ParseInt gs = Some g"
  using assms by (auto simp: reliable_def)

definition platform_inv :: "env \<Rightarrow> tables \<Rightarrow> redis \<Rightarrow> bool" where
  "platform_inv E d s \<longleftrightarrow> db_inv d \<and> (reliable E \<longrightarrow> stream_wf s \<and> tracked E d s)"

lemma platform_invD:
  assumes "platform_inv E d s"
  shows "db_inv d" "schema_ok d" "reliable E \<Longrightarrow> stream_wf s" "reliable E \<Longrightarrow> tracked E d s"
  using assms by (auto simp: platform_inv_def db_inv_def)

section \<open>Changing one job\<close>

lemma set_job_members:
  assumes "schema_ok d" and "job_of i d = Some j" and "x \<in> set (jobs (set_job i f d))"
  shows "x = f j \<or> x \<in> set (jobs d)"
proof -
  from assms(3) obtain r where r: "r \<in> set (jobs d)" "x = (if ID r = i then f r else r)"
    by (auto simp: set_update_where jobs_set_job)
  show ?thesis
  proof (cases "ID r = i")
    case True
    with job_of_unique [OF assms(1) r(1)] assms(2) have "r = j" by simp
    with r True show ?thesis by simp
  qed (use r in simp)
qed

lemma platform_inv_set_job:
  assumes inv: "platform_inv E d s" and j: "job_of i d = Some j"
    and ok: "schema_ok (set_job i f d)" and life: "life_ok (f j)" and evid: "done_ok d (f j)"
    and track: "reliable E \<Longrightarrow> job_tracked E (outbox_keys d) s (f j)"
  shows "platform_inv E (set_job i f d) s"
proof -
  note mem = set_job_members [OF platform_invD(2) [OF inv] j]
  have "life_ok x \<and> done_ok (set_job i f d) x" if "x \<in> set (jobs (set_job i f d))" for x
    using mem [OF that] life evid platform_invD(1) [OF inv] by (auto simp: db_inv_def done_ok_def)
  moreover have "job_tracked E (outbox_keys (set_job i f d)) s x"
    if "x \<in> set (jobs (set_job i f d))" and "reliable E" for x
    using mem [OF that(1)] track [OF that(2)] platform_invD(4) [OF inv that(2)]
    by (auto simp: tracked_def outbox_keys_def)
  ultimately show ?thesis
    using ok platform_invD(3) [OF inv] by (simp add: platform_inv_def db_inv_def tracked_def)
qed

lemma platform_inv_job:
  assumes "platform_inv E d s" and "job_of i d = Some j"
  shows "life_ok j" "done_ok d j" "job_ok j" "ID j = i" "reliable E \<Longrightarrow> job_tracked E (outbox_keys d) s j"
proof -
  have m: "j \<in> set (jobs d)" "ID j = i" using job_ofD [OF assms(2)] by simp_all
  then show "ID j = i" "life_ok j" "done_ok d j"
    using platform_invD(1) [OF assms(1)] by (simp_all add: db_inv_def)
  show "job_ok j" using platform_invD(2) [OF assms(1)] m by (simp add: schema_ok_def jobs_ok_def)
  show "reliable E \<Longrightarrow> job_tracked E (outbox_keys d) s j"
    using platform_invD(4) [OF assms(1)] m by (simp add: tracked_def)
qed

section \<open>Changing the queues\<close>

text \<open>\<open>qstep E I K s s'\<close>: between \<open>s\<close> and \<open>s'\<close> at most the stream entries with an id in
  \<open>I\<close> and the delayed keys in \<open>K\<close> are gone.\<close>

definition qstep :: "env \<Rightarrow> string set \<Rightarrow> qkey set \<Rightarrow> redis \<Rightarrow> redis \<Rightarrow> bool" where
  "qstep E I K s s' \<longleftrightarrow> (stream_wf s \<longrightarrow> stream_wf s'
     \<and> (\<forall>e\<in>live_entries s. fst e \<notin> I \<longrightarrow> e \<in> live_entries s') \<and> delayed_keys E s - K \<subseteq> delayed_keys E s')"

lemma qstep_view: "queue_view s' = queue_view s \<Longrightarrow> qstep E I K s s'"
  using queue_view_cong [of s' s] by (simp add: qstep_def)

lemma qstep_refl [simp]: "qstep E I K s s"
  by (rule qstep_view) simp

lemma qstep_ready:
  assumes "qstep E I K s s'" and "stream_wf s" and "k \<in> ready_keys E s"
    and "\<And>e. e \<in> live_entries s \<Longrightarrow> fst e \<in> I \<Longrightarrow> entry_key E e \<noteq> Some k"
  shows "k \<in> ready_keys E s'"
  using assms unfolding ready_keys_def qstep_def by blast

lemma platform_inv_qstep:
  assumes inv: "platform_inv E d s" and step: "reliable E \<Longrightarrow> qstep E I K s s'"
    and kept: "\<And>j. reliable E \<Longrightarrow> j \<in> set (jobs d) \<Longrightarrow> Status j \<in> {Pending, Scheduled, Running}
       \<Longrightarrow> QueueGeneration j < gen_bound \<Longrightarrow> job_key j \<in> ready_keys E s \<Longrightarrow> job_key j \<in> ready_keys E s'"
    and gone: "\<And>j. reliable E \<Longrightarrow> j \<in> set (jobs d) \<Longrightarrow> Status j \<in> {Pending, Scheduled}
       \<Longrightarrow> QueueGeneration j < gen_bound \<Longrightarrow> job_key j \<in> K
       \<Longrightarrow> job_key j \<in> outbox_keys d \<union> ready_keys E s' \<union> delayed_keys E s'"
  shows "platform_inv E d s'"
proof -
  have "stream_wf s' \<and> tracked E d s'" if rel: "reliable E"
  proof -
    note wf = platform_invD(3) [OF inv rel] and q = step [OF rel]
    have "job_tracked E (outbox_keys d) s' j" if j: "j \<in> set (jobs d)" for j
    proof -
      have t: "job_tracked E (outbox_keys d) s j"
        using platform_invD(4) [OF inv rel] j by (simp add: tracked_def)
      have delayed: "job_key j \<in> delayed_keys E s \<Longrightarrow> job_key j \<notin> K \<Longrightarrow> job_key j \<in> delayed_keys E s'"
        using q wf by (auto simp: qstep_def)
      show ?thesis
        using t kept [OF rel j] delayed gone [OF rel j] unfolding job_tracked_def by blast
    qed
    then show ?thesis using q wf by (simp add: tracked_def qstep_def)
  qed
  then show ?thesis using platform_invD(1) [OF inv] by (simp add: platform_inv_def)
qed

text \<open>An operation that loses nothing.\<close>

lemma platform_inv_keep:
  assumes "platform_inv E d s" and "reliable E \<Longrightarrow> qstep E {} {} s s'"
  shows "platform_inv E d s'"
  by (rule platform_inv_qstep [OF assms(1), where I = "{}" and K = "{}"])
     (use assms platform_invD(3) [OF assms(1)] qstep_ready [of E "{}" "{}" s s'] in auto)

section \<open>Effects of the stream operations\<close>

lemma parse_FormatInt:
  "1 \<le> g \<Longrightarrow> g < 2 ^ 63 \<Longrightarrow> parseQueueGeneration (RawString (FormatInt g)) = g"
  using ParseInt_FormatInt [of g] by (simp add: parseQueueGeneration_def)

lemma parseQueueGeneration_ge_1: "1 \<le> parseQueueGeneration r"
  by (cases r) (auto simp: parseQueueGeneration_def split: option.splits)

lemma xadd_keeps_delayed:
  assumes "server_ok S" and "stream_wf s"
  shows "sched_lookup (snd (XADD S ReadyStream 100000 f s)) = sched_lookup s"
  by (rule xadd_run [OF assms, of f]) simp

lemma enqueue_effect:
  assumes "server_ok S"
  shows "qstep E {} {} s (snd (XADD S ReadyStream 100000 f s))"
  unfolding qstep_def
  using rq.wf_add [OF assms, of s f] rq.live_add [OF assms, of s f] xadd_keeps_delayed [OF assms, of s f]
  by (simp add: delayed_keys_def keys_of_def) blast

lemma enqueue_key:
  assumes "reliable E" and "stream_wf s" and "1 \<le> g" and "g < gen_bound"
  shows "(i, g) \<in> ready_keys E (snd (XADD (srv E) ReadyStream 100000 (ready_fields (uuid_String E i) p (FormatInt g)) s))"
proof -
  have "entry_key E (n, ready_fields (uuid_String E i) p (FormatInt g)) = Some (i, g)" for n
    using assms(3,4) reliableD(2) [OF assms(1)]
    by (simp add: entry_key_ready_fields parse_FormatInt gen_bound_def)
  then show ?thesis
    unfolding ready_keys_def by (intro CollectI rq.keys_add_new [OF reliableD(1) [OF assms(1)] assms(2)])
qed

lemma other_stream:
  assumes "redis_ok S" and "k \<noteq> ReadyStream"
  shows "queue_view (snd (XADD S k m f s)) = queue_view s"
proof -
  from assms(1) obtain i n where "XADD S k m f s = (i, push_entry k n (i, f) s)"
    unfolding redis_ok_def xadd_law_def by blast
  then show ?thesis using assms(2) by (simp add: queue_view_def push_entry_def)
qed

lemma incr_effect: "redis_ok S \<Longrightarrow> queue_view (snd (INCR S k s)) = queue_view s"
  by (simp add: redis_ok_def incr_law_def queue_view_def)

lemma item_key_of_job: "reliable E \<Longrightarrow> item_key E (uuid_String E i) v = Some k \<Longrightarrow> fst k = i"
  by (auto simp: item_key_def reliableD(2) split: option.splits prod.splits)

lemma delayed_of_job: "fst k \<noteq> i \<Longrightarrow> reliable E \<Longrightarrow> item_key E (uuid_String E i) v \<noteq> Some k"
  using item_key_of_job by blast

lemma server_redis_ok: "server_ok S \<Longrightarrow> redis_ok S"
  by (simp add: server_ok_def)

lemmas reliable_redis_ok = server_redis_ok [OF reliableD(1)]

lemma schedule_effect:
  assumes "reliable E"
  shows "qstep E {} ({i} \<times> UNIV) s (snd (schedule_script (srv E) (uuid_String E i) sc v s))"
proof -
  have "k \<in> delayed_keys E (snd (schedule_script (srv E) (uuid_String E i) sc v s))"
    if "k \<in> delayed_keys E s" and "k \<notin> {i} \<times> UNIV" for k
  proof -
    have "fst k \<noteq> i" using that(2) by (cases k) auto
    then show ?thesis
      using dq.keys_put_other [OF reliable_redis_ok [OF assms], of k "item_key E" s "uuid_String E i" "(sc, v)"]
        delayed_of_job [OF _ assms] that(1) by (simp add: delayed_keys_def)
  qed
  then show ?thesis
    by (auto simp: qstep_def delay_ready [OF reliableD(1) [OF assms]])
qed

lemma schedule_key:
  assumes "reliable E" and "1 \<le> g" and "g < gen_bound"
  shows "(i, g) \<in> delayed_keys E
    (snd (schedule_script (srv E) (uuid_String E i) sc (sched_Marshal E p g) s))"
proof -
  from reliableD(5) [OF assms] obtain p' gs where
    lua: "lua_fields E (sched_Marshal E p g) = Some (Some p', gs)" "ParseInt gs = Some g" by blast
  have "gs \<noteq> ''''" using lua(2) by (auto simp: ParseInt_def has_prefix_def parse_unsigned_def)
  then have "item_key E (uuid_String E i) (sc, sched_Marshal E p g) = Some (i, g)"
    using assms(2) lua by (simp add: item_key_def reliableD(2) [OF assms(1)] parseQueueGeneration_def)
  then show ?thesis
    using dq.keys_put [OF reliable_redis_ok [OF assms(1)]] by (fastforce simp: delayed_keys_def)
qed

lemma remove_effect:
  assumes "reliable E"
  shows "qstep E {} ({i} \<times> UNIV) s
    (HDEL (srv E) ScheduledPayloads (uuid_String E i) (ZREM (srv E) ScheduledSet (uuid_String E i) s))"
proof -
  have "k \<in> delayed_keys E (HDEL (srv E) ScheduledPayloads (uuid_String E i) (ZREM (srv E) ScheduledSet (uuid_String E i) s))"
    if "k \<in> delayed_keys E s" and "k \<notin> {i} \<times> UNIV" for k
  proof -
    have "fst k \<noteq> i" using that(2) by (cases k) auto
    then show ?thesis
      using dq.keys_del_other [OF reliable_redis_ok [OF assms], of k "item_key E" s "uuid_String E i"]
        delayed_of_job [OF _ assms] that(1) by (simp add: delayed_keys_def)
  qed
  then show ?thesis
    by (auto simp: qstep_def delay_ready [OF reliableD(1) [OF assms]])
qed

lemma ack_effect:
  assumes "server_ok S"
  shows "qstep E {i} {} s (snd (XACK S ReadyStream ConsumerGroup i s))"
proof -
  have "sched_lookup (snd (XACK S ReadyStream ConsumerGroup i s)) = sched_lookup s"
    by (auto simp: xack_run [OF assms] split: option.splits)
  then show ?thesis
    using rq.live_ack [OF assms] rq.wf_ack [OF assms]
    by (auto simp: qstep_def delayed_keys_def keys_of_def)
qed

section \<open>Promotion\<close>

text \<open>The script moves keys from the delayed queue to the ready stream and loses none.\<close>

definition moved :: "env \<Rightarrow> redis \<Rightarrow> redis \<Rightarrow> bool" where
  "moved E s s' \<longleftrightarrow> (stream_wf s \<longrightarrow> stream_wf s' \<and> live_entries s \<subseteq> live_entries s'
     \<and> delayed_keys E s \<subseteq> ready_keys E s' \<union> delayed_keys E s')"

lemma ready_mono: "live_entries s \<subseteq> live_entries s' \<Longrightarrow> ready_keys E s \<subseteq> ready_keys E s'"
  by (auto simp: ready_keys_def)

lemma moved_trans:
  assumes "moved E s s1" and "moved E s1 s2"
  shows "moved E s s2"
  using assms ready_mono [of s1 s2 E] unfolding moved_def by blast

lemma moved_remove:
  assumes "server_ok S" and "\<And>v k. sched_lookup s m = Some v \<Longrightarrow> item_key E m v = Some k \<Longrightarrow> k \<in> ready_keys E s"
  shows "moved E s (HDEL S ScheduledPayloads m (ZREM S ScheduledSet m s))"
proof -
  let ?s = "HDEL S ScheduledPayloads m (ZREM S ScheduledSet m s)"
  have "ready_keys E ?s = ready_keys E s" by (simp add: ready_keys_def delay_ready [OF assms(1)])
  moreover have "k \<in> delayed_keys E ?s" if "k \<in> delayed_keys E s" "k \<notin> ready_keys E s" for k
    using that assms(2) unfolding delayed_keys_def
    by (intro dq.keys_del_other [OF server_redis_ok [OF assms(1)]]) blast+
  ultimately show ?thesis by (auto simp: moved_def delay_ready [OF assms(1)])
qed

lemma moved_zrem:
  assumes "server_ok S" and "map_of (Hashes s ScheduledPayloads) m = None"
  shows "moved E s (ZREM S ScheduledSet m s)"
proof -
  have "sched_lookup (ZREM S ScheduledSet m s) = sched_lookup s"
    using assms(2) by (auto simp: delay_commands [OF server_redis_ok [OF assms(1)]] sched_lookup_def
        set_zset_def fun_eq_iff split: option.splits)
  then show ?thesis
    by (auto simp: moved_def delay_ready [OF assms(1)] delayed_keys_def keys_of_def)
qed

lemma moved_xadd:
  assumes "server_ok S"
  shows "moved E s (snd (XADD S ReadyStream 100000 f s))"
  using rq.wf_add [OF assms, of s f] rq.live_add [OF assms, of s f] xadd_keeps_delayed [OF assms, of s f]
  by (simp add: moved_def delayed_keys_def keys_of_def subset_iff)

lemma moved_promote:
  assumes "server_ok S" and "stream_wf s" and "lua_fields E data = Some (Some p, gs)"
    and "map_of (Hashes s ScheduledPayloads) m = Some data"
  shows "moved E s (HDEL S ScheduledPayloads m (ZREM S ScheduledSet m
      (snd (XADD S ReadyStream 100000 (ready_fields m p gs) s))))"
proof -
  let ?s1 = "snd (XADD S ReadyStream 100000 (ready_fields m p gs) s)"
  have look: "sched_lookup ?s1 = sched_lookup s" by (rule xadd_keeps_delayed [OF assms(1,2)])
  have "k \<in> ready_keys E ?s1" if "sched_lookup ?s1 m = Some v" "item_key E m v = Some k" for v k
  proof -
    have "snd v = data" using that(1) assms(4) by (auto simp: look sched_lookup_def split: option.splits)
    then have "entry_key E (n, ready_fields m p gs) = Some k" for n
      using item_key_ready_fields [of E v p gs m n] that(2) assms(3) by simp
    then show ?thesis unfolding ready_keys_def by (intro CollectI rq.keys_add_new [OF assms(1,2)])
  qed
  then have "moved E ?s1 (HDEL S ScheduledPayloads m (ZREM S ScheduledSet m ?s1))"
    by (rule moved_remove [OF assms(1)])
  with moved_xadd [OF assms(1)] show ?thesis by (rule moved_trans)
qed

lemma promote_loop_moved:
  assumes "server_ok S"
  shows "promote_loop S (lua_fields E) acc ids s = (r, s') \<Longrightarrow> stream_wf s \<Longrightarrow> moved E s s'"
proof (induction ids arbitrary: acc s)
  case Nil
  then show ?case by (simp add: moved_def)
next
  case (Cons m ids)
  have hget: "HGET S ScheduledPayloads m s = map_of (Hashes s ScheduledPayloads) m"
    by (rule delay_commands(5) [OF server_redis_ok [OF assms]])
  have next_step: "moved E s s'"
    if "moved E s s1" and "promote_loop S (lua_fields E) acc' ids s1 = (r, s')" for s1 acc'
  proof (rule moved_trans [OF that(1) Cons.IH [OF that(2)]])
    show "stream_wf s1" using that(1) Cons.prems(2) by (simp add: moved_def)
  qed
  show ?case
  proof (cases "map_of (Hashes s ScheduledPayloads) m")
    case None
    with Cons.prems(1) hget have "promote_loop S (lua_fields E) acc ids (ZREM S ScheduledSet m s) = (r, s')"
      by simp
    then show ?thesis by (rule next_step [OF moved_zrem [OF assms None]])
  next
    case (Some data)
    show ?thesis
    proof (cases "lua_fields E data")
      case None
      with Cons.prems(1) hget Some have run: "promote_loop S (lua_fields E) acc ids
          (HDEL S ScheduledPayloads m (ZREM S ScheduledSet m s)) = (r, s')" by simp
      have "item_key E m v \<noteq> Some k" if "sched_lookup s m = Some v" for v k
        using that Some None by (auto simp: sched_lookup_def item_key_def split: option.splits)
      then show ?thesis by (intro next_step [OF moved_remove [OF assms] run]) blast
    next
      case lua: (Some pg)
      obtain po gs where pg: "pg = (po, gs)" by fastforce
      show ?thesis
      proof (cases po)
        case None
        with Cons.prems hget Some lua pg show ?thesis by (simp add: moved_def)
      next
        case (Some p)
        with Cons.prems(1) hget \<open>map_of (Hashes s ScheduledPayloads) m = Some data\<close> lua pg
        have run: "promote_loop S (lua_fields E) (acc @ [m]) ids (HDEL S ScheduledPayloads m
            (ZREM S ScheduledSet m (snd (XADD S ReadyStream 100000 (ready_fields m p gs) s)))) = (r, s')" by simp
        show ?thesis
          by (rule next_step [OF moved_promote [OF assms Cons.prems(2)] run])
             (use lua pg Some \<open>map_of (Hashes s ScheduledPayloads) m = Some data\<close> in simp_all)
      qed
    qed
  qed
qed

lemma platform_inv_moved:
  assumes inv: "platform_inv E d s" and "reliable E \<Longrightarrow> moved E s s'"
  shows "platform_inv E d s'"
proof -
  have "stream_wf s' \<and> tracked E d s'" if "reliable E"
    using platform_invD(3,4) [OF inv that] assms(2) [OF that] ready_mono [of s s' E]
    unfolding moved_def tracked_def job_tracked_def by blast
  then show ?thesis using platform_invD(1) [OF inv] by (simp add: platform_inv_def)
qed

end
