(* ===== verification/ProcessInv.thy ===== *)
theory ProcessInv
  imports Tracking
begin

text \<open>
  Processing one message preserves the invariant of the platform, whatever call fails in
  between. The other messages of the batch that is being worked off stay live meanwhile.
\<close>

section \<open>Messages that are still pending\<close>

definition msg_live :: "redis \<Rightarrow> message \<Rightarrow> bool" where
  "msg_live s m \<longleftrightarrow> (\<exists>e\<in>live_entries s. toMessage e = Inr m)"

text \<open>The invariant while a batch of messages is still to be processed.\<close>

definition batch_inv :: "env \<Rightarrow> message list \<Rightarrow> tables \<Rightarrow> redis \<Rightarrow> bool" where
  "batch_inv E ms d s \<longleftrightarrow> platform_inv E d s \<and> (reliable E \<longrightarrow> (\<forall>m\<in>set ms. msg_live s m))"

lemma batch_invD: "batch_inv E ms d s \<Longrightarrow> platform_inv E d s"
  by (simp add: batch_inv_def)

lemma batch_inv_tl: "batch_inv E (m # ms) d s \<Longrightarrow> batch_inv E ms d s"
  by (simp add: batch_inv_def)

lemma batch_inv_schema: "batch_inv E ms d s \<Longrightarrow> schema_ok d"
  by (rule platform_invD(2) [OF batch_invD])

lemma toMessage_ID: "toMessage e = Inr m \<Longrightarrow> fst e = MsgID m"
  by (auto simp: toMessage_def split: option.splits)

lemma msg_live_qstep:
  assumes "qstep E I K s s'" and "stream_wf s" and "msg_live s m" and "MsgID m \<notin> I"
  shows "msg_live s' m"
proof -
  from assms(3) obtain e where e: "e \<in> live_entries s" "toMessage e = Inr m"
    by (auto simp: msg_live_def)
  with assms(1,2,4) toMessage_ID [OF e(2)] show ?thesis
    by (auto simp: msg_live_def qstep_def)
qed

lemma batch_inv_db:
  "batch_inv E ms d s \<Longrightarrow> platform_inv E d' s \<Longrightarrow> batch_inv E ms d' s"
  by (simp add: batch_inv_def)

lemma batch_inv_step:
  assumes "batch_inv E ms d s" and "reliable E \<Longrightarrow> qstep E I K s s'"
    and "\<And>m. m \<in> set ms \<Longrightarrow> MsgID m \<notin> I" and "platform_inv E d s'"
  shows "batch_inv E ms d s'"
  using assms platform_invD(3) [OF batch_invD [OF assms(1)]] msg_live_qstep [of E I K s s']
  unfolding batch_inv_def by blast

lemma batch_inv_keep:
  assumes "batch_inv E ms d s" and "reliable E \<Longrightarrow> qstep E {} {} s s'"
  shows "batch_inv E ms d s'"
  by (rule batch_inv_step [OF assms]) (simp_all add: platform_inv_keep [OF batch_invD [OF assms(1)] assms(2)])

section \<open>Rules for the stream operations\<close>

lemma valid_rcallQ:
  assumes "\<And>d s. P d s \<Longrightarrow> Q (fst (f (srv E) s)) d (snd (f (srv E) s))"
    and "\<And>d s. P d s \<Longrightarrow> R d s" and "\<And>a d s. Q a d s \<Longrightarrow> R d s"
  shows "valid (holds P) (rcall E f) (post (\<lambda>a. holds (Q a)) (holds R))"
  by (rule valid_rcall) (use assms in blast)+

lemma valid_DeadLetter:
  assumes "\<And>d s s'. P d s \<Longrightarrow> (redis_ok (srv E) \<Longrightarrow> queue_view s' = queue_view s) \<Longrightarrow> Q d s'"
    and "\<And>d s. P d s \<Longrightarrow> R d s" and "\<And>d s. Q d s \<Longrightarrow> R d s"
  shows "valid (holds P) (DeadLetter E jid p) (post (\<lambda>_. holds Q) (holds R))"
  unfolding DeadLetter_def
  by (rule valid_wrap, rule valid_rcallQ)
     (use assms other_stream [of "srv E" DeadLetterStream] in \<open>auto simp: DeadLetterStream_def ReadyStream_def\<close>)

lemma valid_ignore:
  assumes "valid (holds P) m (post (\<lambda>a. holds Q) (holds Q))"
  shows "valid (holds P) (ignore m) (post (\<lambda>_. holds Q) (holds R))"
  unfolding ignore_def
proof (rule valid_bindH [OF valid_result_ofH [OF assms]])
  show "valid (holds (case r of Inl e \<Rightarrow> Q | Inr a \<Rightarrow> Q)) (ret ()) (post (\<lambda>_. holds Q) (holds R))" for r :: "goerr + 'a"
    by (rule valid_ret_H) (simp split: sum.splits)
qed

lemma valid_Increment:
  assumes "\<And>d s s'. P d s \<Longrightarrow> (redis_ok (srv E) \<Longrightarrow> queue_view s' = queue_view s) \<Longrightarrow> P d s'"
  shows "valid (holds P) (ignore (Increment E k)) (post (\<lambda>_. holds P) (holds R))"
proof (rule valid_ignore)
  have "valid (holds P) (rcall E (\<lambda>S. INCR S k)) (post (\<lambda>_. holds P) (holds P))"
    by (rule valid_rcallQ) (use assms incr_effect in auto)
  then show "valid (holds P) (Increment E k) (post (\<lambda>_. holds P) (holds P))"
    unfolding Increment_def by (rule valid_bindH) (auto intro!: valid_ret_H)
qed

text \<open>Metrics and dead letters do not touch the queues.\<close>

lemma batch_inv_view:
  "batch_inv E ms d s \<Longrightarrow> (redis_ok (srv E) \<Longrightarrow> queue_view s' = queue_view s) \<Longrightarrow> batch_inv E ms d s'"
  by (rule batch_inv_keep) (auto intro: qstep_view simp: reliable_redis_ok)

lemma valid_acknowledgeOnce:
  assumes "\<And>d s. P d s \<Longrightarrow> Q d (snd (XACK (srv E) ReadyStream ConsumerGroup i s))"
    and "\<And>d s. P d s \<Longrightarrow> R d s" and "\<And>d s. Q d s \<Longrightarrow> R d s"
  shows "valid (holds P) (acknowledgeOnce E i) (post (\<lambda>_. holds Q) (holds R))"
proof -
  have "valid (holds P) (Acknowledge E i) (post (\<lambda>_. holds Q) (holds R))"
    unfolding Acknowledge_def by (rule valid_wrap, rule valid_rcallQ) (use assms in auto)
  then show ?thesis
    unfolding acknowledgeOnce_def
    by (rule valid_bindH) (auto intro!: valid_fail_H valid_ret_H assms(3))
qed

section \<open>Acknowledging a processed message\<close>

definition other_ready :: "env \<Rightarrow> message \<Rightarrow> qkey \<Rightarrow> redis \<Rightarrow> bool" where
  "other_ready E m k s \<longleftrightarrow> (\<exists>e\<in>live_entries s. fst e \<noteq> MsgID m \<and> entry_key E e = Some k)"

lemma live_entry_unique:
  assumes "stream_wf s" and "e \<in> live_entries s" and "e' \<in> live_entries s" and "fst e = fst e'"
  shows "e = e'"
proof -
  have "distinct (map fst (Streams s ReadyStream))" using assms(1) by (simp add: stream_wf_def)
  moreover have "e \<in> set (Streams s ReadyStream)" "e' \<in> set (Streams s ReadyStream)"
    using assms(2,3) live_subset by auto
  ultimately show ?thesis using assms(4) by (auto simp: distinct_map inj_on_def)
qed

lemma msg_key:
  assumes "msg_live s m" and "uuid_Parse E (MsgJobID m) = Some i"
  shows "(i, MsgGeneration m) \<in> ready_keys E s"
proof -
  from assms(1) obtain e where "e \<in> live_entries s" "toMessage e = Inr m" by (auto simp: msg_live_def)
  moreover from this assms(2) have "entry_key E e = Some (i, MsgGeneration m)" by (simp add: entry_key_def)
  ultimately show ?thesis by (auto simp: ready_keys_def)
qed

text \<open>Acknowledging may cost the run its place in the ready stream, so the job must not need it
  any more, or be held by another entry.\<close>

lemma ack_inv:
  assumes b: "batch_inv E (m # ms) d s" and u: "uuid_Parse E (MsgJobID m) = Some i"
    and ids: "MsgID m \<notin> MsgID ` set ms"
    and free: "\<And>j. reliable E \<Longrightarrow> job_of i d = Some j \<Longrightarrow> QueueGeneration j = MsgGeneration m
      \<Longrightarrow> Status j \<in> {Pending, Scheduled, Running} \<Longrightarrow> QueueGeneration j < gen_bound
      \<Longrightarrow> other_ready E m (i, MsgGeneration m) s"
  shows "batch_inv E ms d (snd (XACK (srv E) ReadyStream ConsumerGroup (MsgID m) s))"
proof -
  let ?s = "snd (XACK (srv E) ReadyStream ConsumerGroup (MsgID m) s)"
  note inv = batch_invD [OF b]
  have q: "qstep E {MsgID m} {} s ?s" if "reliable E" by (rule ack_effect [OF reliableD(1) [OF that]])
  have kept: "job_key j \<in> ready_keys E ?s"
    if rel: "reliable E" and j: "j \<in> set (jobs d)" and act: "Status j \<in> {Pending, Scheduled, Running}"
      "QueueGeneration j < gen_bound" and k: "job_key j \<in> ready_keys E s" for j
  proof -
    note wf = platform_invD(3) [OF inv rel]
    from b rel obtain e0 where e0: "e0 \<in> live_entries s" "toMessage e0 = Inr m"
      by (auto simp: batch_inv_def msg_live_def)
    have key0: "entry_key E e0 = Some (i, MsgGeneration m)" using e0(2) u by (simp add: entry_key_def)
    have "\<exists>e\<in>live_entries s. fst e \<noteq> MsgID m \<and> entry_key E e = Some (job_key j)"
    proof (cases "job_key j = (i, MsgGeneration m)")
      case True
      then have "job_of i d = Some j"
        using job_of_unique [OF platform_invD(2) [OF inv] j] by (simp add: job_key_def)
      with free [OF rel] True act show ?thesis by (auto simp: job_key_def other_ready_def)
    next
      case False
      from k obtain e where e: "e \<in> live_entries s" "entry_key E e = Some (job_key j)"
        by (auto simp: ready_keys_def)
      moreover have "fst e \<noteq> MsgID m"
        using live_entry_unique [OF wf e(1) e0(1)] e(2) key0 False toMessage_ID [OF e0(2)] by auto
      ultimately show ?thesis by blast
    qed
    then show ?thesis using q [OF rel] wf by (auto simp: qstep_def ready_keys_def)
  qed
  have "platform_inv E d ?s"
    by (rule platform_inv_qstep [OF inv q kept]) auto
  then show ?thesis
    using ids by (intro batch_inv_step [OF batch_inv_tl [OF b] q]) (auto simp: image_iff)
qed

section \<open>Steps of a run\<close>

lemma inv_start:
  assumes "platform_inv E d s" and j: "job_of i d = Some j" and g: "start_guard i g j"
    and "reliable E \<Longrightarrow> (i, g) \<in> ready_keys E s"
  shows "platform_inv E (set_job i (start_job t) d) s"
proof (rule platform_inv_set_job [OF assms(1) j])
  show "schema_ok (set_job i (start_job t) d)"
    by (rule start.schema_ok_set_job [OF platform_invD(2) [OF assms(1)]])
qed (use platform_inv_job [OF assms(1) j] g assms(4) in
     \<open>auto simp: row_defs life_ok_def done_ok_def job_tracked_def job_key_def\<close>)

lemma inv_status:
  assumes "platform_inv E d s" and j: "job_of i d = Some j" and "x \<noteq> Running"
    and "x = Done \<Longrightarrow> completed i (QueueGeneration j) d"
    and "x = Pending \<or> x = Scheduled \<Longrightarrow> Attempts j < MaxAttempts j \<and> Status j = Running"
  shows "platform_inv E (set_job i (set_status x le t) d) s"
proof (rule platform_inv_set_job [OF assms(1) j])
  show "schema_ok (set_job i (set_status x le t) d)"
    by (rule status.schema_ok_set_job [OF platform_invD(2) [OF assms(1)]])
qed (use platform_inv_job [OF assms(1) j] assms(3-5) in
     \<open>auto simp: row_defs life_ok_def done_ok_def job_tracked_def job_key_def\<close>)

lemma inv_resched:
  assumes "platform_inv E d s" and j: "job_of i d = Some j" and "Status j = Running"
    and "Attempts j < MaxAttempts j"
    and "reliable E \<Longrightarrow> QueueGeneration j + 1 < gen_bound \<Longrightarrow> (i, QueueGeneration j + 1) \<in> delayed_keys E s"
  shows "platform_inv E (set_job i (schedule_retry_job n le t) d) s"
proof (rule platform_inv_set_job [OF assms(1) j])
  show "schema_ok (set_job i (schedule_retry_job n le t) d)"
    by (rule resched.schema_ok_set_job [OF platform_invD(2) [OF assms(1)]])
qed (use platform_inv_job [OF assms(1) j] assms(3-5) in
     \<open>auto simp: row_defs life_ok_def done_ok_def job_tracked_def job_key_def\<close>)

lemma completed_mono: "set (executions d) \<subseteq> set (executions d') \<Longrightarrow> completed i g d \<Longrightarrow> completed i g d'"
  by (auto simp: completed_def)

lemma inv_executions:
  assumes "platform_inv E d s" and "schema_ok d'" and "jobs d' = jobs d" and "outbox d' = outbox d"
    and "\<And>i g. completed i g d \<Longrightarrow> completed i g d'"
  shows "platform_inv E d' s"
  using assms by (auto simp: platform_inv_def db_inv_def done_ok_def tracked_def outbox_keys_def)

lemma add_execution_simps [simp]:
  "jobs (add_execution x d) = jobs d" "outbox (add_execution x d) = outbox d"
  "executions (add_execution x d) = executions d @ [x\<lparr>ExID := execution_seq d\<rparr>]"
  by (simp_all add: add_execution_def)

lemma inv_add_execution:
  assumes "platform_inv E d s" and "insert_execution x d = Inr (n, d')"
  shows "platform_inv E d' s"
  by (rule inv_executions [OF assms(1) insert_execution_ok [OF assms(2) platform_invD(2) [OF assms(1)]]])
     (use insert_execution_run [OF assms(2)] in \<open>auto simp: completed_def\<close>)

text \<open>Completing an execution that is not completed yet keeps every completed one.\<close>

lemma schema_ok_set_execution:
  assumes "schema_ok d"
  shows "schema_ok (set_execution n (finish t st err code) d)"
proof -
  let ?xs = "update_where (\<lambda>x. ExID x = n) (finish t st err code) (executions d)"
  have keys: "map ExID ?xs = map ExID (executions d)" "map ExJobID ?xs = map ExJobID (executions d)"
    "map (\<lambda>x. (ExJobID x, ExGeneration x, ExAttempt x)) ?xs = map (\<lambda>x. (ExJobID x, ExGeneration x, ExAttempt x)) (executions d)"
    by (rule map_key_update_where, simp add: finish_def)+
  have "ExID ` set ?xs = ExID ` set (executions d)" "ExJobID ` set ?xs = ExJobID ` set (executions d)"
    using keys(1,2) [THEN arg_cong, of set] by simp_all
  moreover have "\<forall>x\<in>set ?xs. ExID x < execution_seq d"
    using assms by (auto simp: schema_ok_def executions_ok_def set_update_where finish_def)
  ultimately show ?thesis
    using assms keys by (simp add: schema_ok_def executions_ok_def set_execution_def)
qed

lemma completed_set_execution:
  assumes "\<And>x. x \<in> set (executions d) \<Longrightarrow> ExID x = n \<Longrightarrow> ExStatus x \<noteq> ExecDone" and "completed i g d"
  shows "completed i g (set_execution n f d)"
proof -
  from assms(2) obtain x where "x \<in> set (executions d)" "ExJobID x = i" "ExGeneration x = g" "ExStatus x = ExecDone"
    by (auto simp: completed_def)
  moreover from this assms(1) have "ExID x \<noteq> n" by blast
  ultimately have "x \<in> set (executions (set_execution n f d))"
    by (force simp: set_execution_def set_update_where)
  then show ?thesis using \<open>ExJobID x = i\<close> \<open>ExGeneration x = g\<close> \<open>ExStatus x = ExecDone\<close>
    by (auto simp: completed_def)
qed

lemma inv_set_execution:
  assumes "platform_inv E d s"
    and "\<And>x. x \<in> set (executions d) \<Longrightarrow> ExID x = n \<Longrightarrow> ExStatus x \<noteq> ExecDone"
  shows "platform_inv E (set_execution n (finish t st err code) d) s"
  by (rule inv_executions [OF assms(1) schema_ok_set_execution [OF platform_invD(2) [OF assms(1)]]])
     (use completed_set_execution [OF assms(2)] in \<open>auto simp: set_execution_def\<close>)

section \<open>The callback\<close>

text \<open>Validation and the HTTP exchange change neither the tables nor the keyspace.\<close>

lemma valid_ValidateCallbackURL:
  "valid (holds P) (ValidateCallbackURL E cfg u) (post (\<lambda>_. holds P) (holds P))"
proof (rule validI)
  fix w r w'
  assume "holds P w" and "ValidateCallbackURL E cfg u w = (r, w')"
  then show "post (\<lambda>_. holds P) (holds P) r w'"
    by (auto simp: ValidateCallbackURL_def resolveHost_def result_of_def bind_def holds_def
        split: if_splits option.splits sum.splits)
qed

lemma valid_client_Do:
  "valid (holds P) (client_Do E cfg v n first req) (post (\<lambda>_. holds P) (holds P))"
proof (induction n arbitrary: req rule: less_induct)
  case (less n)
  have send: "valid (holds P) (send E ips rq) (post (\<lambda>_. holds P) (holds P))" for ips rq
    by (simp add: valid_def send_def)
  have IH: "valid (holds P) (bind (ValidateCallbackURL E cfg (RqURL rq)) (\<lambda>_. client_Do E cfg v (Suc k) first rq))
      (post (\<lambda>_. holds P) (holds P))" if "n = Suc (Suc k)" for k rq
    by (rule valid_bindH [OF valid_ValidateCallbackURL less.IH]) (simp add: that)
  show ?case
    unfolding client_Do.simps [of E cfg v n]
    by (rule valid_bindH [OF send])
       (auto split: hop.splits nat.splits intro!: valid_fail_H valid_ret_H IH)
qed

lemma valid_ExecuteJob:
  "valid (holds P) (ExecuteJob E cfg u p jid a) (post (\<lambda>_. holds P) (holds R))"
proof -
  let ?req = "callback_request u p jid a"
  have tail: "valid (holds P) (bind (result_of (client_Do E cfg v maxRedirects ?req ?req)) f)
      (post (\<lambda>_. holds P) (holds R))"
    if "\<And>r. valid (holds P) (f r) (post (\<lambda>_. holds P) (holds R))" for v and f :: "goerr + http_response \<Rightarrow> (int \<times> goerr option) handler"
  proof (rule valid_bindH [OF valid_result_ofH [OF valid_client_Do]])
    show "valid (holds (case r of Inl e \<Rightarrow> P | Inr a \<Rightarrow> P)) (f r) (post (\<lambda>_. holds P) (holds R))" for r
      using that [of r] by (cases r) simp_all
  qed
  show ?thesis
    unfolding ExecuteJob_def CreateValidatingTransport_eq Let_def
  proof (rule valid_bindH [OF valid_result_ofH [OF valid_ValidateCallbackURL]])
    fix v :: "goerr + validation_result"
    have P: "(case v of Inl e \<Rightarrow> P | Inr a \<Rightarrow> P) = P" by (cases v) simp_all
    show "valid (holds (case v of Inl e \<Rightarrow> P | Inr a \<Rightarrow> P)) (case v of
       Inl e \<Rightarrow> ret (0, Some (Wrap ''callback URL validation failed'' e))
     | Inr validated \<Rightarrow>
         (case url_Parse E u of
            None \<Rightarrow> ret (0, Some (Wrap ''create callback request'' ErrInvalidURL))
          | Some _ \<Rightarrow>
               bind (result_of (client_Do E cfg validated maxRedirects ?req ?req)) (\<lambda>d.
               case d of
                 Inl e \<Rightarrow> ret (0, Some (Wrap ''execute callback'' e))
               | Inr resp \<Rightarrow>
                    if maxResponseBodyBytes < min (RsBodyLen resp) (maxResponseBodyBytes + 1)
                    then ret (RsStatus resp, Some (Err ''callback response body exceeds limit''))
                    else if RsStatus resp < 200 \<or> 300 \<le> RsStatus resp
                    then ret (RsStatus resp, Some (Err ''callback returned status''))
                    else ret (RsStatus resp, None)))) (post (\<lambda>_. holds P) (holds R))"
      unfolding P
      by (auto split: sum.splits option.splits intro!: valid_ret_H tail)
  qed
qed

section \<open>Process\<close>

text \<open>What is known while the run of message \<open>m\<close> (of job \<open>i\<close>, read as \<open>j\<close>) is in
  progress as attempt \<open>a\<close>.\<close>

definition run_inv :: "env \<Rightarrow> message \<Rightarrow> message list \<Rightarrow> uuid \<Rightarrow> job \<Rightarrow> int \<Rightarrow> tables \<Rightarrow> redis \<Rightarrow> bool" where
  "run_inv E m ms i j a d s \<longleftrightarrow> batch_inv E (m # ms) d s \<and> (\<exists>j'. job_of i d = Some j' \<and> Status j' = Running
     \<and> QueueGeneration j' = MsgGeneration m \<and> Attempts j' = a \<and> MaxAttempts j' = MaxAttempts j)"

lemma run_invE:
  assumes "run_inv E m ms i j a d s"
  obtains j' where "batch_inv E (m # ms) d s" "platform_inv E d s" "schema_ok d" "job_of i d = Some j'"
    "Status j' = Running" "QueueGeneration j' = MsgGeneration m" "Attempts j' = a" "MaxAttempts j' = MaxAttempts j"
  using assms batch_invD batch_inv_schema unfolding run_inv_def by blast

lemma run_inv_batch: "run_inv E m ms i j a d s \<Longrightarrow> batch_inv E ms d s"
  by (auto simp: run_inv_def dest: batch_inv_tl)

lemma run_inv_view:
  "run_inv E m ms i j a d s \<Longrightarrow> (redis_ok (srv E) \<Longrightarrow> queue_view s' = queue_view s) \<Longrightarrow> run_inv E m ms i j a d s'"
  unfolding run_inv_def using batch_inv_view by blast

text \<open>The state when only the acknowledgement is missing: the job no longer needs the message.\<close>

definition settled :: "env \<Rightarrow> message \<Rightarrow> message list \<Rightarrow> uuid \<Rightarrow> tables \<Rightarrow> redis \<Rightarrow> bool" where
  "settled E m ms i d s \<longleftrightarrow> batch_inv E (m # ms) d s
     \<and> (\<forall>j. reliable E \<longrightarrow> job_of i d = Some j \<longrightarrow> QueueGeneration j = MsgGeneration m
         \<longrightarrow> Status j \<in> {Pending, Scheduled, Running} \<longrightarrow> QueueGeneration j < gen_bound
         \<longrightarrow> other_ready E m (i, MsgGeneration m) s)"

lemma settled_batch: "settled E m ms i d s \<Longrightarrow> batch_inv E ms d s"
  by (auto simp: settled_def dest: batch_inv_tl)

lemma settled_view:
  assumes "settled E m ms i d s" and "redis_ok (srv E) \<Longrightarrow> queue_view s' = queue_view s"
  shows "settled E m ms i d s'"
proof -
  have "batch_inv E (m # ms) d s'"
    using assms(1) by (intro batch_inv_view [OF _ assms(2)]) (auto simp: settled_def)
  moreover have "live_entries s' = live_entries s" if "reliable E"
    by (rule queue_view_cong(1) [OF assms(2) [OF reliable_redis_ok [OF that]]])
  ultimately show ?thesis using assms(1) by (auto simp: settled_def other_ready_def)
qed

lemma valid_ack_settled:
  assumes "uuid_Parse E (MsgJobID m) = Some i" and "MsgID m \<notin> MsgID ` set ms"
  shows "valid (holds (settled E m ms i)) (acknowledgeOnce E (MsgID m))
    (post (\<lambda>_. holds (batch_inv E ms)) (holds (batch_inv E ms)))"
proof (rule valid_acknowledgeOnce)
  show "batch_inv E ms d (snd (XACK (srv E) ReadyStream ConsumerGroup (MsgID m) s))"
    if "settled E m ms i d s" for d s
    using ack_inv [OF _ assms] that unfolding settled_def by blast
qed (simp_all add: settled_batch)

text \<open>A final status settles the message.\<close>

lemma settled_status:
  assumes b: "batch_inv E (m # ms) d s" and j: "job_of i d = Some j" and x: "x \<in> {Done, Dead}"
    and done_ev: "x = Done \<Longrightarrow> completed i (QueueGeneration j) d"
  shows "settled E m ms i (set_job i (set_status x le t) d) s"
proof -
  have "platform_inv E (set_job i (set_status x le t) d) s"
    by (rule inv_status [OF batch_invD [OF b] j]) (use x done_ev in auto)
  moreover have "job_of i (set_job i (set_status x le t) d) = Some (set_status x le t j)"
    by (simp add: status.job_of_set_job j)
  ultimately show ?thesis
    using batch_inv_db [OF b] x by (auto simp: settled_def set_status_def)
qed

lemma valid_UpdateStatus_final:
  assumes st: "validStatuses st = Some x" and x: "x \<in> {Done, Dead}"
    and P: "\<And>d s. P d s \<Longrightarrow> \<exists>j. batch_inv E (m # ms) d s \<and> job_of i d = Some j
       \<and> (x = Done \<longrightarrow> completed i (QueueGeneration j) d)"
  shows "valid (holds P) (UpdateStatus E i st le)
    (post (\<lambda>_. holds (settled E m ms i)) (holds (batch_inv E ms)))"
proof (rule valid_UpdateStatus [OF st])
  show "schema_ok d" if "P d s" for d s using P [OF that] batch_inv_schema by blast
  show "settled E m ms i (set_job i (set_status x le t) d) s" if "P d s" "job_of i d = Some j" for d s j t
    using P [OF that(1)] settled_status [OF _ that(2) x] that(2) by auto
  show "batch_inv E ms d s" if "P d s" for d s using P [OF that] batch_inv_tl by blast
qed (rule settled_batch)

text \<open>The branch of a refused delivery.\<close>

lemma redrive_settled:
  assumes b: "batch_inv E (m # ms) d s" and u: "uuid_Parse E (MsgJobID m) = Some i"
    and f: "f = ready_fields (uuid_String E i) p (FormatInt (MsgGeneration m))"
    and g: "1 \<le> MsgGeneration m"
  shows "settled E m ms i d (snd (XADD (srv E) ReadyStream 100000 f s))"
proof -
  let ?s = "snd (XADD (srv E) ReadyStream 100000 f s)"
  have b': "batch_inv E (m # ms) d ?s"
    by (rule batch_inv_keep [OF b]) (rule enqueue_effect [OF reliableD(1)])
  moreover have "other_ready E m (i, MsgGeneration m) ?s"
    if rel: "reliable E" and bound: "MsgGeneration m < gen_bound"
  proof -
    from b rel obtain e0 where e0: "e0 \<in> live_entries s" "fst e0 = MsgID m"
      using toMessage_ID by (fastforce simp: batch_inv_def msg_live_def)
    have "entry_key E (n, f) = Some (i, MsgGeneration m)" for n
      using g bound by (simp add: f entry_key_ready_fields reliableD(2) [OF rel] parse_FormatInt gen_bound_def)
    then show ?thesis
      unfolding other_ready_def e0(2) [symmetric]
      by (rule rq.keys_add_fresh [OF reliableD(1) [OF rel] platform_invD(3) [OF batch_invD [OF b] rel] _ e0(1)])
  qed
  ultimately show ?thesis by (auto simp: settled_def)
qed

text \<open>What is known once the job of message \<open>m\<close> has been read.\<close>

definition read_inv :: "env \<Rightarrow> message \<Rightarrow> message list \<Rightarrow> uuid \<Rightarrow> job \<Rightarrow> tables \<Rightarrow> redis \<Rightarrow> bool" where
  "read_inv E m ms i j d s \<longleftrightarrow> batch_inv E (m # ms) d s \<and> job_of i d = Some j"

lemma read_inv_batch: "read_inv E m ms i j d s \<Longrightarrow> batch_inv E ms d s"
  by (auto simp: read_inv_def dest: batch_inv_tl)

lemma read_inv_job:
  assumes "read_inv E m ms i j d s"
  shows "ID j = i" "1 \<le> QueueGeneration j" "0 \<le> Attempts j"
  using platform_inv_job(3,4) [OF batch_invD, of E "m # ms" d s i j] assms
  by (simp_all add: read_inv_def job_ok_def attempts_check_def)

lemma valid_UpdateStatus_read:
  assumes "validStatuses st = Some x" and "x \<in> {Done, Dead}"
  shows "valid (holds (\<lambda>d s. read_inv E m ms i j d s \<and> (x = Done \<longrightarrow> completed i (QueueGeneration j) d)))
    (UpdateStatus E i st le) (post (\<lambda>_. holds (settled E m ms i)) (holds (batch_inv E ms)))"
  by (rule valid_UpdateStatus_final [OF assms]) (auto simp: read_inv_def)

lemma valid_stale_reschedule:
  assumes "Status j = Running" and "\<not> MaxAttempts j \<le> Attempts j"
  shows "valid (holds (read_inv E m ms i j)) (UpdateStatus E i StatusScheduled None)
    (post (\<lambda>_. holds (batch_inv E (m # ms))) (holds (batch_inv E ms)))"
proof (rule valid_UpdateStatus)
  show "batch_inv E (m # ms) (set_job i (set_status Scheduled None t) d) s" if "read_inv E m ms i j d s" for d s t
  proof (rule batch_inv_db)
    show "batch_inv E (m # ms) d s" using that by (simp add: read_inv_def)
    show "platform_inv E (set_job i (set_status Scheduled None t) d) s"
      using that assms by (intro inv_status [of E d s i j]) (auto simp: read_inv_def dest: batch_invD)
  qed
qed (auto simp: read_inv_def intro: batch_inv_schema elim: batch_inv_tl)

lemma valid_redrive:
  assumes u: "uuid_Parse E (MsgJobID m) = Some i" and g: "1 \<le> MsgGeneration m"
  shows "valid (holds (batch_inv E (m # ms))) (EnqueueDue E (uuid_String E i) p (MsgGeneration m))
    (post (\<lambda>_. holds (settled E m ms i)) (holds (batch_inv E ms)))"
  unfolding EnqueueDue_def
proof (rule valid_wrap, rule valid_rcallQ)
  show "settled E m ms i d (snd (XADD (srv E) ReadyStream 100000
      (ready_fields (uuid_String E i) p (FormatInt (MsgGeneration m))) s))" if "batch_inv E (m # ms) d s" for d s
    by (rule redrive_settled [OF that u refl g])
qed (auto dest: settled_batch batch_inv_tl)

lemma valid_process_stale:
  assumes u: "uuid_Parse E (MsgJobID m) = Some i" and ids: "MsgID m \<notin> MsgID ` set ms"
    and i: "ID j = i" and gen: "1 \<le> QueueGeneration j"
    and refused: "\<not> start_guard i (MsgGeneration m) j"
  shows "valid (holds (read_inv E m ms i j)) (process_stale E m j)
    (post (\<lambda>_. holds (batch_inv E ms)) (holds (batch_inv E ms)))"
proof (cases "Status j = Running \<and> MsgGeneration m = QueueGeneration j")
  case False
  have "settled E m ms i d s" if "read_inv E m ms i j d s" for d s
    using that refused False i by (auto simp: read_inv_def settled_def start_guard_def)
  then have "valid (holds (read_inv E m ms i j)) (acknowledgeOnce E (MsgID m))
      (post (\<lambda>_. holds (batch_inv E ms)) (holds (batch_inv E ms)))"
    by (rule valid_preH [OF valid_ack_settled [OF u ids]])
  then show ?thesis unfolding process_stale_def if_not_P [OF False] by (rule valid_wrap)
next
  case True
  then have g: "QueueGeneration j = MsgGeneration m" "1 \<le> MsgGeneration m" using gen by simp_all
  let ?A = "read_inv E m ms i j" and ?R = "batch_inv E ms"
  let ?C = "\<lambda>c d s. ?A d s \<and> (c \<longrightarrow> completed i (QueueGeneration j) d)"
  have has: "valid (holds ?A) (HasCompletedExecution E i (QueueGeneration j)) (post (\<lambda>c. holds (?C c)) (holds ?R))"
    by (rule valid_HasCompletedExecution) (use read_inv_batch in blast)+
  have dl: "valid (holds ?A) (DeadLetter E jid p) (post (\<lambda>_. holds ?A) (holds ?R))" for jid p
    by (rule valid_DeadLetter) (auto simp: read_inv_def intro: batch_inv_view dest: batch_inv_tl)
  note ack = valid_wrap [OF valid_ack_settled [OF u ids]]
  note finalize = valid_bindH [OF valid_wrap [OF valid_UpdateStatus_read] ack]
  note redrive = valid_bindH [OF valid_wrap [OF valid_stale_reschedule]
      valid_bindH [OF valid_wrap [OF valid_redrive [OF u g(2), folded g(1)]] ack]]
  show ?thesis
    unfolding process_stale_def i if_P [OF True]
    by (rule valid_bindH [OF valid_wrap [OF has]], rule valid_if,
        rule valid_preH [OF finalize [of _ Done]], simp, simp, simp,
        rule valid_if, rule valid_preH [OF valid_bindH [OF valid_wrap [OF dl] valid_preH [OF finalize [of _ Dead]]]],
        simp, simp, simp, simp,
        rule valid_preH [OF redrive], use True in simp_all)
qed

text \<open>After a failed callback: the retry is queued before the row moves on, so the run is held
  by the pending message, then by both, then by the delayed queue alone.\<close>

lemma run_inv_delay:
  assumes r: "run_inv E m ms i j a d s" and q: "reliable E \<Longrightarrow> qstep E {} ({i} \<times> UNIV) s s'"
  shows "run_inv E m ms i j a d s'"
proof (rule run_invE [OF r])
  fix j'
  assume b: "batch_inv E (m # ms) d s" and inv: "platform_inv E d s" and ok: "schema_ok d"
    and j': "job_of i d = Some j'" "Status j' = Running"
  have "platform_inv E d s'"
  proof (rule platform_inv_qstep [OF inv q])
    show "job_key x \<in> ready_keys E s'" if "reliable E" "job_key x \<in> ready_keys E s" for x
      using qstep_ready [OF q [OF that(1)] platform_invD(3) [OF inv that(1)] that(2)] by simp
    show "job_key x \<in> outbox_keys d \<union> ready_keys E s' \<union> delayed_keys E s'"
      if "x \<in> set (jobs d)" "Status x \<in> {Pending, Scheduled}" "job_key x \<in> {i} \<times> UNIV" for x
      using that job_of_unique [OF ok that(1)] j' by (auto simp: job_key_def)
  qed
  then have "batch_inv E (m # ms) d s'" by (intro batch_inv_step [OF b q]) simp_all
  with r show ?thesis by (simp add: run_inv_def)
qed

lemma valid_ScheduleJob_run:
  assumes g: "1 \<le> g"
  shows "valid (holds (run_inv E m ms i j a)) (ScheduleJob E (uuid_String E i) p g t)
    (post (\<lambda>_. holds (\<lambda>d s. run_inv E m ms i j a d s \<and> (reliable E \<longrightarrow> g < gen_bound \<longrightarrow> (i, g) \<in> delayed_keys E s)))
      (holds (batch_inv E ms)))"
  unfolding ScheduleJob_def
proof (rule valid_wrap, rule valid_rcallQ)
  fix d s
  assume r: "run_inv E m ms i j a d s"
  show "run_inv E m ms i j a d (snd (schedule_script (srv E) (uuid_String E i) (Unix t) (sched_Marshal E p g) s))
    \<and> (reliable E \<longrightarrow> g < gen_bound \<longrightarrow> (i, g) \<in> delayed_keys E
      (snd (schedule_script (srv E) (uuid_String E i) (Unix t) (sched_Marshal E p g) s)))"
    using run_inv_delay [OF r schedule_effect] schedule_key [OF _ g] by blast
  show "batch_inv E ms d s" by (rule run_inv_batch [OF r])
qed (blast dest: run_inv_batch)

lemma valid_RemoveScheduled_run:
  "valid (holds (run_inv E m ms i j a)) (RemoveScheduled E (uuid_String E i))
    (post (\<lambda>_. holds (batch_inv E ms)) (holds (batch_inv E ms)))"
  unfolding RemoveScheduled_def
proof (rule valid_wrap, rule valid_rcallQ)
  fix d s
  assume r: "run_inv E m ms i j a d s"
  show "batch_inv E ms d (snd ((), HDEL (srv E) ScheduledPayloads (uuid_String E i)
      (ZREM (srv E) ScheduledSet (uuid_String E i) s)))"
    unfolding snd_conv by (rule run_inv_batch [OF run_inv_delay [OF r remove_effect]])
  show "batch_inv E ms d s" by (rule run_inv_batch [OF r])
qed

lemma valid_ScheduleRetry_run:
  assumes "a < MaxAttempts j"
  shows "valid (holds (\<lambda>d s. run_inv E m ms i j a d s \<and> (reliable E \<longrightarrow> MsgGeneration m + 1 < gen_bound
        \<longrightarrow> (i, MsgGeneration m + 1) \<in> delayed_keys E s)))
     (ScheduleRetry E i n le)
     (post (\<lambda>_. holds (settled E m ms i)) (holds (\<lambda>d s. batch_inv E ms d s \<and> (reliable E \<longrightarrow> run_inv E m ms i j a d s))))"
    (is "valid (holds ?P) _ _")
proof (rule valid_ScheduleRetry)
  fix d s j' t
  assume P: "?P d s" and j': "job_of i d = Some j'"
  then obtain b: "batch_inv E (m # ms) d s" and inv: "platform_inv E d s" and row: "Status j' = Running"
    "QueueGeneration j' = MsgGeneration m" "Attempts j' = a" "MaxAttempts j' = MaxAttempts j"
    by (auto elim: run_invE)
  let ?d = "set_job i (schedule_retry_job n le t) d"
  have "platform_inv E ?d s"
    by (rule inv_resched [OF inv j']) (use row assms P in auto)
  moreover have "job_of i ?d = Some (schedule_retry_job n le t j')" by (simp add: resched.job_of_set_job j')
  ultimately show "settled E m ms i ?d s"
    using batch_inv_db [OF b] row by (auto simp: settled_def schedule_retry_job_def)
next
  show "batch_inv E ms d s \<and> (reliable E \<longrightarrow> run_inv E m ms i j a d s)"
    if "outcome E PgRetry n' = Late" "settled E m ms i d s" for n' d s
    using settled_batch [OF that(2)] reliableD(3) [of E n'] that(1) by auto
qed (auto elim: run_invE dest: run_inv_batch)

lemma valid_undo_schedule:
  "valid (holds (\<lambda>d s. batch_inv E ms d s \<and> (reliable E \<longrightarrow> run_inv E m ms i j a d s)))
     (ignore (RemoveScheduled E (uuid_String E i))) (post (\<lambda>_. holds (batch_inv E ms)) (holds (batch_inv E ms)))"
proof (cases "reliable E")
  case True
  then show ?thesis by (intro valid_ignore valid_preH [OF valid_RemoveScheduled_run [of E m ms i j a]]) simp
next
  case False
  then have nochange: "batch_inv E ms d s \<Longrightarrow> batch_inv E ms d s'" for d s s'
    by (simp add: batch_inv_def platform_inv_def)
  show ?thesis unfolding RemoveScheduled_def
    by (intro valid_ignore valid_wrap valid_rcallQ) (auto intro: nochange)
qed

lemma valid_process_failed:
  assumes u: "uuid_Parse E (MsgJobID m) = Some i" and ids: "MsgID m \<notin> MsgID ` set ms"
    and i: "ID j = i" and gen: "QueueGeneration j = MsgGeneration m" "1 \<le> MsgGeneration m"
  shows "valid (holds (run_inv E m ms i j a)) (process_failed E m j a err)
    (post (\<lambda>_. holds (batch_inv E ms)) (holds (batch_inv E ms)))"
proof (cases "a < MaxAttempts j")
  case True
  have g: "1 \<le> MsgGeneration m + 1" using gen(2) by simp
  have fails: "valid (holds (batch_inv E ms)) (fail e :: unit handler) (post (\<lambda>_. holds (batch_inv E ms)) (holds (batch_inv E ms)))" for e
    by (rule valid_fail_H)
  show ?thesis
    unfolding process_failed_def if_P [OF True] Let_def i gen(1)
    by (rule valid_bindH [OF valid_time_Now], assumption, rule valid_bindH [OF valid_rand_Draw], assumption,
        rule valid_bindH [OF valid_wrap [OF valid_ScheduleJob_run [OF g]]],
        rule valid_bindH [OF valid_result_ofH [OF valid_ScheduleRetry_run [OF True]]], rule valid_case_sum,
        simp only: sum.case, rule valid_bindH [OF valid_undo_schedule fails],
        simp only: sum.case, rule valid_bindH [OF valid_wrap [OF valid_ack_settled [OF u ids]] fails])
next
  case False
  let ?R = "batch_inv E ms"
  have dl: "valid (holds (run_inv E m ms i j a)) (DeadLetter E (uuid_String E i) p)
      (post (\<lambda>_. holds (run_inv E m ms i j a)) (holds ?R))" for p
    by (rule valid_DeadLetter) (auto intro: run_inv_view dest: run_inv_batch)
  have dead: "valid (holds (run_inv E m ms i j a)) (UpdateStatus E i StatusDead le)
      (post (\<lambda>_. holds (settled E m ms i)) (holds ?R))" for le
    by (rule valid_UpdateStatus_final) (auto simp: run_inv_def)
  show ?thesis
    unfolding process_failed_def if_not_P [OF False] i
    by (rule valid_bindH [OF valid_wrap [OF dl]], rule valid_bindH [OF valid_wrap [OF dead]],
        rule valid_bindH [OF valid_wrap [OF valid_ack_settled [OF u ids]]], rule valid_fail_H, simp)
qed

text \<open>A started run: the execution row is opened, the callback made, the row closed.\<close>

definition exec_inv :: "env \<Rightarrow> message \<Rightarrow> message list \<Rightarrow> uuid \<Rightarrow> job \<Rightarrow> int \<Rightarrow> int \<Rightarrow> tables \<Rightarrow> redis \<Rightarrow> bool" where
  "exec_inv E m ms i j a n d s \<longleftrightarrow> run_inv E m ms i j a d s
     \<and> (\<exists>x\<in>set (executions d). ExID x = n \<and> ExJobID x = i \<and> ExGeneration x = MsgGeneration m)
     \<and> (\<forall>x\<in>set (executions d). ExID x = n \<longrightarrow> ExStatus x = ExecRunning)"

lemma run_inv_tables:
  assumes "run_inv E m ms i j a d s" and "platform_inv E d' s" and "jobs d' = jobs d"
  shows "run_inv E m ms i j a d' s"
  using assms batch_inv_db by (simp add: run_inv_def) blast

lemma exec_inv_batch: "exec_inv E m ms i j a n d s \<Longrightarrow> batch_inv E ms d s"
  by (auto simp: exec_inv_def intro: run_inv_batch)

lemma valid_CreateExecution_run:
  assumes g: "1 \<le> MsgGeneration m"
  shows "valid (holds (run_inv E m ms i j a)) (CreateExecution E i k t ExecRunning (MsgGeneration m))
    (post (\<lambda>n. holds (exec_inv E m ms i j a n)) (holds (batch_inv E ms)))"
proof (rule valid_CreateExecution)
  fix d s x d'
  assume r: "run_inv E m ms i j a d s" and x: "ExJobID x = i" "ExStatus x = ExecRunning"
    "ExGeneration x = (if MsgGeneration m \<le> 0 then 1 else MsgGeneration m)"
    and ins: "insert_execution x d = Inr (execution_seq d, d')" and d': "d' = add_execution x d"
  have inv: "platform_inv E d s" and ok: "schema_ok d" using r by (auto elim: run_invE)
  have "run_inv E m ms i j a d' s"
    by (rule run_inv_tables [OF r inv_add_execution [OF inv ins]]) (simp add: d')
  moreover have "\<forall>y\<in>set (executions d). ExID y \<noteq> execution_seq d"
    using ok by (auto simp: schema_ok_def executions_ok_def)
  ultimately show "exec_inv E m ms i j a (execution_seq d) d' s"
    using x g by (auto simp: exec_inv_def d')
qed (auto intro: exec_inv_batch run_inv_batch)

lemma exec_inv_finish:
  assumes "exec_inv E m ms i j a n d s"
  shows "run_inv E m ms i j a (set_execution n (finish t st err code) d) s"
    "st = ExecDone \<Longrightarrow> completed i (MsgGeneration m) (set_execution n (finish t st err code) d)"
proof -
  from assms have r: "run_inv E m ms i j a d s"
    and ex: "\<exists>x\<in>set (executions d). ExID x = n \<and> ExJobID x = i \<and> ExGeneration x = MsgGeneration m"
    and open_row: "\<And>x. x \<in> set (executions d) \<Longrightarrow> ExID x = n \<Longrightarrow> ExStatus x \<noteq> ExecDone"
    by (auto simp: exec_inv_def)
  have "platform_inv E d s" using r by (auto elim: run_invE)
  then have "platform_inv E (set_execution n (finish t st err code) d) s"
    using open_row by (rule inv_set_execution)
  then show "run_inv E m ms i j a (set_execution n (finish t st err code) d) s"
    by (rule run_inv_tables [OF r]) (simp add: set_execution_def)
  show "completed i (MsgGeneration m) (set_execution n (finish t st err code) d)" if "st = ExecDone"
  proof -
    from ex obtain x where x: "x \<in> set (executions d)" "ExID x = n" "ExJobID x = i"
      "ExGeneration x = MsgGeneration m" by blast
    let ?x = "finish t st err code x"
    have "?x \<in> set (executions (set_execution n (finish t st err code) d))"
      using x by (auto simp: set_execution_def set_update_where image_iff intro!: bexI [of _ x])
    moreover have "ExJobID ?x = i" "ExGeneration ?x = MsgGeneration m" "ExStatus ?x = ExecDone"
      using x that by (simp_all add: finish_def)
    ultimately show ?thesis unfolding completed_def by blast
  qed
qed

lemma valid_process_done:
  assumes u: "uuid_Parse E (MsgJobID m) = Some i" and ids: "MsgID m \<notin> MsgID ` set ms" and i: "ID j = i"
  shows "valid (holds (\<lambda>d s. run_inv E m ms i j a d s \<and> completed i (MsgGeneration m) d)) (process_done E m j)
    (post (\<lambda>_. holds (batch_inv E ms)) (holds (batch_inv E ms)))"
proof -
  have fin: "valid (holds (\<lambda>d s. run_inv E m ms i j a d s \<and> completed i (MsgGeneration m) d))
      (UpdateStatus E i StatusDone None) (post (\<lambda>_. holds (settled E m ms i)) (holds (batch_inv E ms)))"
    by (rule valid_UpdateStatus_final) (auto simp: run_inv_def)
  have inc: "valid (holds (settled E m ms i)) (ignore (Increment E JobsCompletedKey))
      (post (\<lambda>_. holds (settled E m ms i)) (holds (batch_inv E ms)))"
    by (rule valid_Increment) (rule settled_view)
  show ?thesis
    unfolding process_done_def i
    by (rule valid_bindH [OF valid_wrap [OF fin]], rule valid_bindH [OF inc],
        rule valid_wrap [OF valid_ack_settled [OF u ids]])
qed

lemma valid_CompleteExecution_run:
  "valid (holds (exec_inv E m ms i j a n)) (CompleteExecution E n t st err code)
    (post (\<lambda>_. holds (\<lambda>d s. run_inv E m ms i j a d s \<and> (st = ExecDone \<longrightarrow> completed i (MsgGeneration m) d)))
      (holds (batch_inv E ms)))"
proof (rule valid_CompleteExecution)
  show "run_inv E m ms i j a (set_execution n (finish t st err code) d) s
      \<and> (st = ExecDone \<longrightarrow> completed i (MsgGeneration m) (set_execution n (finish t st err code) d))"
    if "exec_inv E m ms i j a n d s" for d s
    using exec_inv_finish [OF that] by blast
qed (blast intro: exec_inv_batch run_inv_batch)+

lemma valid_process_started:
  assumes u: "uuid_Parse E (MsgJobID m) = Some i" and ids: "MsgID m \<notin> MsgID ` set ms"
    and i: "ID j = i" and gen: "QueueGeneration j = MsgGeneration m" "1 \<le> MsgGeneration m"
  shows "valid (holds (run_inv E m ms i j a)) (process_started E cfg m j cb a)
    (post (\<lambda>_. holds (batch_inv E ms)) (holds (batch_inv E ms)))"
proof -
  let ?R = "batch_inv E ms"
  have inc: "valid (holds (run_inv E m ms i j a)) (ignore (Increment E JobsFailedKey))
      (post (\<lambda>_. holds (run_inv E m ms i j a)) (holds ?R))"
    by (rule valid_Increment) (rule run_inv_view)
  have done_br: "valid (holds (exec_inv E m ms i j a n)) (bind (wrap ''complete successful execution''
      (CompleteExecution E n t ExecDone err code)) (\<lambda>_. process_done E m j)) (post (\<lambda>_. holds ?R) (holds ?R))" for n t err code
    by (rule valid_bindH [OF valid_wrap [OF valid_CompleteExecution_run]])
       (rule valid_preH [OF valid_process_done [OF u ids i, where a = a]], simp)
  have fail_br: "valid (holds (exec_inv E m ms i j a n)) (bind (wrap ''complete failed execution''
      (CompleteExecution E n t ExecFailed err co)) (\<lambda>_. bind (ignore (Increment E JobsFailedKey)) (\<lambda>_. process_failed E m j a e)))
      (post (\<lambda>_. holds ?R) (holds ?R))" for n t err co e
    by (rule valid_bindH [OF valid_wrap [OF valid_CompleteExecution_run]])
       (rule valid_preH [OF valid_bindH [OF inc valid_process_failed [OF u ids i gen]]], simp)
  have branch: "valid (holds (exec_inv E m ms i j a n)) (case r of (code, executeErr) \<Rightarrow>
      bind (time_Now E) (\<lambda>finishedAt. case executeErr of
       Some e \<Rightarrow>
         bind (wrap ''complete failed execution'' (CompleteExecution E n finishedAt ExecFailed
           (Some (Error e)) (if code \<noteq> 0 then Some code else None))) (\<lambda>_.
         bind (ignore (Increment E JobsFailedKey)) (\<lambda>_. process_failed E m j a e))
     | None \<Rightarrow>
         bind (wrap ''complete successful execution'' (CompleteExecution E n finishedAt ExecDone
           None (Some code))) (\<lambda>_. process_done E m j))) (post (\<lambda>_. holds ?R) (holds ?R))" for n r
  proof -
    obtain code ee where r: "r = (code, ee)" by fastforce
    show ?thesis unfolding r prod.case
      by (rule valid_bindH [OF valid_time_Now], assumption, cases ee) (use done_br fail_br in simp_all)
  qed
  show ?thesis
    unfolding process_started_def i
    by (rule valid_bindH [OF valid_time_Now], assumption,
        rule valid_bindH [OF valid_wrap [OF valid_CreateExecution_run [OF gen(2)]]],
        rule valid_bindH [OF valid_ExecuteJob], rule branch)
qed

lemma valid_False: "(\<And>d s. \<not> P d s) \<Longrightarrow> valid (holds P) m Q"
  by (simp add: valid_def holds_def)

text \<open>The row a successful \<open>StartExecution\<close> leaves behind, and what each of its answers
  means.\<close>

lemma run_inv_started:
  assumes A: "read_inv E m ms i j d s" and u: "uuid_Parse E (MsgJobID m) = Some i"
    and g: "start_guard i (MsgGeneration m) j"
  shows "run_inv E m ms i j (Attempts j + 1) (set_job i (start_job t) d) s"
proof -
  have b: "batch_inv E (m # ms) d s" and j: "job_of i d = Some j" using A by (auto simp: read_inv_def)
  have "reliable E \<Longrightarrow> (i, MsgGeneration m) \<in> ready_keys E s"
    using b msg_key [OF _ u] by (simp add: batch_inv_def)
  then have "platform_inv E (set_job i (start_job t) d) s"
    by (rule inv_start [OF batch_invD [OF b] j g])
  moreover have "job_of i (set_job i (start_job t) d) = Some (start_job t j)"
    by (simp add: start.job_of_set_job j)
  ultimately show ?thesis
    using batch_inv_db [OF b] g by (auto simp: run_inv_def start_job_def start_guard_def)
qed

definition start_inv :: "env \<Rightarrow> message \<Rightarrow> message list \<Rightarrow> uuid \<Rightarrow> job \<Rightarrow> int \<Rightarrow> tables \<Rightarrow> redis \<Rightarrow> bool" where
  "start_inv E m ms i j a d s \<longleftrightarrow> ID j = i \<and> 1 \<le> QueueGeneration j \<and>
     (if a = 0 then read_inv E m ms i j d s \<and> \<not> start_guard i (MsgGeneration m) j
      else run_inv E m ms i j a d s \<and> QueueGeneration j = MsgGeneration m)"

lemma valid_StartExecution_read:
  assumes u: "uuid_Parse E (MsgJobID m) = Some i"
  shows "valid (holds (read_inv E m ms i j)) (StartExecution E i (MsgGeneration m))
    (post (\<lambda>a. holds (start_inv E m ms i j a)) (holds (batch_inv E ms)))"
proof (rule valid_StartExecution)
  let ?A = "read_inv E m ms i j"
  show "schema_ok d" if "?A d s" for d s using that batch_inv_schema by (auto simp: read_inv_def)
  show "start_inv E m ms i j (Attempts j' + 1) (set_job i (start_job t) d) s"
    if "?A d s" "job_of i d = Some j'" "start_guard i (MsgGeneration m) j'" for d s j' t
    using that read_inv_job [OF that(1)] run_inv_started [OF that(1) u]
    by (auto simp: start_inv_def read_inv_def start_guard_def)
  show "start_inv E m ms i j 0 d s"
    if "?A d s" "\<And>j'. job_of i d = Some j' \<Longrightarrow> \<not> start_guard i (MsgGeneration m) j'" for d s
    using that read_inv_job [OF that(1)] by (auto simp: start_inv_def read_inv_def)
  show "batch_inv E ms d s" if "?A d s" for d s using that by (rule read_inv_batch)
  show "batch_inv E ms d s" if "start_inv E m ms i j a d s" for a d s
    using that by (cases "a = 0") (auto simp: start_inv_def intro: read_inv_batch run_inv_batch)
qed

lemma valid_process_attempt:
  assumes u: "uuid_Parse E (MsgJobID m) = Some i" and ids: "MsgID m \<notin> MsgID ` set ms"
  shows "valid (holds (start_inv E m ms i j a)) (if a = 0 then process_stale E m j else process_started E cfg m j cb a)
    (post (\<lambda>_. holds (batch_inv E ms)) (holds (batch_inv E ms)))"
proof (cases "ID j = i \<and> 1 \<le> QueueGeneration j \<and>
    (if a = 0 then \<not> start_guard i (MsgGeneration m) j else QueueGeneration j = MsgGeneration m)")
  case True
  then show ?thesis
    by (intro valid_if valid_preH [OF valid_process_stale [OF u ids]] valid_preH [OF valid_process_started [OF u ids]])
       (auto simp: start_inv_def)
next
  case False
  then show ?thesis by (intro valid_False) (auto simp: start_inv_def split: if_splits)
qed

lemma valid_Process:
  assumes ids: "MsgID m \<notin> MsgID ` set ms"
  shows "valid (holds (batch_inv E (m # ms))) (Process E cfg m)
    (post (\<lambda>_. holds (batch_inv E ms)) (holds (batch_inv E ms)))"
proof (cases "uuid_Parse E (MsgJobID m)")
  case None
  then show ?thesis by (auto simp: Process_def intro!: valid_fail_H dest: batch_inv_tl)
next
  case (Some i)
  let ?R = "batch_inv E ms"
  have get: "valid (holds (batch_inv E (m # ms))) (GetByID E i) (post (\<lambda>j. holds (read_inv E m ms i j)) (holds ?R))"
    by (rule valid_GetByID) (auto simp: read_inv_def dest: batch_inv_tl)
  have start: "valid (holds (read_inv E m ms i j)) (StartExecution E (ID j) (MsgGeneration m))
      (post (\<lambda>a. holds (start_inv E m ms i j a)) (holds ?R))" for j
  proof (cases "ID j = i")
    case True
    then show ?thesis using valid_StartExecution_read [OF Some] by simp
  next
    case False
    then show ?thesis by (intro valid_False) (use read_inv_job(1) in blast)
  qed
  have no_url: "valid (holds (read_inv E m ms i j)) (fail e :: unit handler) (post (\<lambda>_. holds ?R) (holds ?R))" for j e
    by (rule valid_fail_H) (rule read_inv_batch)
  show ?thesis
    unfolding Process_def Some option.case
    by (rule valid_bindH [OF valid_wrap [OF get]], rule valid_case_option, rule no_url, rule valid_if, rule no_url,
        rule valid_bindH [OF valid_wrap [OF start] valid_process_attempt [OF Some ids]])
qed

end
