(* ===== verification/WorkerInv.thy ===== *)
theory WorkerInv
  imports ProcessInv
begin

text \<open>
  The rest of the worker preserves the invariant of the platform: quarantining a message,
  reclaiming stale entries and a turn of the main loop, whatever call fails in between.
\<close>

section \<open>Quarantine\<close>

text \<open>The message may be anything: a job that is not finished is dead-lettered first, and a
  message without one is acknowledged. Here no liveness of the message is needed, only that
  its id belongs to it.\<close>

definition own_id :: "env \<Rightarrow> message \<Rightarrow> redis \<Rightarrow> bool" where
  "own_id E m s \<longleftrightarrow> (\<forall>e\<in>live_entries s. fst e = MsgID m \<longrightarrow> toMessage e = Inr m)"

text \<open>No active job depends on the entry with this id.\<close>

definition free_id :: "env \<Rightarrow> string \<Rightarrow> tables \<Rightarrow> redis \<Rightarrow> bool" where
  "free_id E n d s \<longleftrightarrow> (\<forall>e\<in>live_entries s. fst e = n \<longrightarrow>
     (\<forall>j\<in>set (jobs d). Status j \<in> {Pending, Scheduled, Running} \<longrightarrow> entry_key E e \<noteq> Some (job_key j)))"

lemma ack_free:
  assumes inv: "platform_inv E d s" and free: "reliable E \<Longrightarrow> free_id E n d s"
  shows "platform_inv E d (snd (XACK (srv E) ReadyStream ConsumerGroup n s))"
proof (rule platform_inv_qstep [OF inv, where I = "{n}" and K = "{}"])
  show q: "qstep E {n} {} s (snd (XACK (srv E) ReadyStream ConsumerGroup n s))" if "reliable E"
    by (rule ack_effect [OF reliableD(1) [OF that]])
  show "job_key j \<in> ready_keys E (snd (XACK (srv E) ReadyStream ConsumerGroup n s))"
    if "reliable E" "j \<in> set (jobs d)" "Status j \<in> {Pending, Scheduled, Running}" "job_key j \<in> ready_keys E s" for j
    using qstep_ready [OF q [OF that(1)] platform_invD(3) [OF inv that(1)] that(4)] free [OF that(1)] that(2,3)
    by (auto simp: free_id_def)
qed simp_all

definition poison_inv :: "env \<Rightarrow> message list \<Rightarrow> tables \<Rightarrow> redis \<Rightarrow> bool" where
  "poison_inv E ms d s \<longleftrightarrow> platform_inv E d s \<and> (reliable E \<longrightarrow> (\<forall>m\<in>set ms. own_id E m s))"

definition poison_done :: "env \<Rightarrow> message \<Rightarrow> message list \<Rightarrow> tables \<Rightarrow> redis \<Rightarrow> bool" where
  "poison_done E m ms d s \<longleftrightarrow> poison_inv E ms d s \<and> (reliable E \<longrightarrow> free_id E (MsgID m) d s)"

lemma poison_view:
  assumes "redis_ok (srv E) \<Longrightarrow> queue_view s' = queue_view s"
  shows "poison_inv E ms d s \<Longrightarrow> poison_inv E ms d s'" "poison_done E m ms d s \<Longrightarrow> poison_done E m ms d s'"
proof -
  have inv: "platform_inv E d s'" if "platform_inv E d s"
    by (rule platform_inv_keep [OF that]) (rule qstep_view [OF assms [OF reliable_redis_ok]])
  have live: "live_entries s' = live_entries s" if "reliable E"
    by (rule queue_view_cong(1) [OF assms [OF reliable_redis_ok [OF that]]])
  show "poison_inv E ms d s \<Longrightarrow> poison_inv E ms d s'" "poison_done E m ms d s \<Longrightarrow> poison_done E m ms d s'"
    using inv live by (auto simp: poison_inv_def poison_done_def own_id_def free_id_def)
qed

lemma ack_subset: "server_ok S \<Longrightarrow> live_entries (snd (XACK S ReadyStream ConsumerGroup i s)) \<subseteq> live_entries s"
  by (auto simp: xack_run live_entries_def split: option.splits)

lemma ack_poison:
  assumes "poison_inv E ms d s" and "reliable E \<Longrightarrow> free_id E n d s"
  shows "poison_inv E ms d (snd (XACK (srv E) ReadyStream ConsumerGroup n s))"
  using ack_free [OF _ assms(2)] assms(1) ack_subset [OF reliableD(1), of E n s]
  unfolding poison_inv_def own_id_def by blast

lemma valid_ack_poison:
  "valid (holds (poison_done E m ms)) (acknowledgeOnce E (MsgID m))
    (post (\<lambda>_. holds (poison_inv E ms)) (holds (poison_inv E ms)))"
  by (rule valid_acknowledgeOnce) (auto simp: poison_done_def intro: ack_poison)

lemma own_id_key:
  assumes "own_id E m s" and "e \<in> live_entries s" and "fst e = MsgID m" and "entry_key E e = Some k"
  shows "uuid_Parse E (MsgJobID m) = Some (fst k)"
  using assms by (auto simp: own_id_def entry_key_def)

lemma poison_doneI:
  assumes "poison_inv E ms d s" and "m \<in> set ms"
    and "\<And>i j. uuid_Parse E (MsgJobID m) = Some i \<Longrightarrow> job_of i d = Some j \<Longrightarrow> Status j \<notin> {Pending, Scheduled, Running}"
  shows "poison_done E m ms d s"
proof -
  have ok: "schema_ok d" using assms(1) platform_invD(2) by (auto simp: poison_inv_def)
  have "free_id E (MsgID m) d s" if "reliable E"
    unfolding free_id_def
  proof (intro ballI impI notI)
    fix e j
    assume e: "e \<in> live_entries s" "fst e = MsgID m" and j: "j \<in> set (jobs d)"
      "Status j \<in> {Pending, Scheduled, Running}" and k: "entry_key E e = Some (job_key j)"
    have "uuid_Parse E (MsgJobID m) = Some (ID j)"
      using own_id_key [OF _ e k] assms(1,2) that by (simp add: poison_inv_def job_key_def)
    then show False using assms(3) job_of_unique [OF ok j(1)] j(2) by blast
  qed
  with assms(1) show ?thesis by (simp add: poison_inv_def poison_done_def)
qed

text \<open>What is known once the job of a poison message has been read.\<close>

definition poison_read :: "env \<Rightarrow> message list \<Rightarrow> uuid \<Rightarrow> job \<Rightarrow> tables \<Rightarrow> redis \<Rightarrow> bool" where
  "poison_read E ms i j d s \<longleftrightarrow> poison_inv E ms d s \<and> job_of i d = Some j"

lemma poison_done_weak: "poison_done E m ms d s \<Longrightarrow> poison_inv E ms d s"
  by (simp add: poison_done_def)

lemma poison_read_weak: "poison_read E ms i j d s \<Longrightarrow> poison_inv E ms d s"
  by (simp add: poison_read_def)

lemma valid_GetByID_poison:
  assumes u: "uuid_Parse E (MsgJobID m) = Some i" and m: "m \<in> set ms"
  shows "valid (holds (poison_inv E ms)) (result_of (GetByID E i))
    (post (\<lambda>r. holds (\<lambda>d s. case r of
        Inl e \<Rightarrow> if errors_Is e ErrNotFound then poison_done E m ms d s else poison_inv E ms d s
      | Inr j \<Rightarrow> poison_read E ms i j d s)) (holds (poison_inv E ms)))"
proof (rule validI)
  fix w r w'
  assume "holds (poison_inv E ms) w" and "result_of (GetByID E i) w = (r, w')"
  moreover have "poison_done E m ms d s" if "poison_inv E ms d s" "job_of i d = None" for d s
    using that u m by (intro poison_doneI) simp_all
  ultimately show "post (\<lambda>r. holds (\<lambda>d s. case r of
        Inl e \<Rightarrow> if errors_Is e ErrNotFound then poison_done E m ms d s else poison_inv E ms d s
      | Inr j \<Rightarrow> poison_read E ms i j d s)) (holds (poison_inv E ms)) r w'"
    by (auto simp: result_of_def GetByID_run holds_def poison_read_def dest: poison_done_weak
        split: fault.splits option.splits)
qed

lemma poison_dead:
  assumes A: "poison_read E ms i j d s" and u: "uuid_Parse E (MsgJobID m) = Some i" and m: "m \<in> set ms"
  shows "poison_done E m ms (set_job i (set_status Dead le t) d) s"
proof (rule poison_doneI [OF _ m])
  have "platform_inv E (set_job i (set_status Dead le t) d) s"
    using A by (intro inv_status [of E d s i j]) (auto simp: poison_read_def poison_inv_def)
  then show "poison_inv E ms (set_job i (set_status Dead le t) d) s"
    using A by (simp add: poison_read_def poison_inv_def)
  show "Status j' \<notin> {Pending, Scheduled, Running}"
    if "uuid_Parse E (MsgJobID m) = Some i'" "job_of i' (set_job i (set_status Dead le t) d) = Some j'" for i' j'
    using that A u by (auto simp: poison_read_def status.job_of_set_job set_status_def)
qed

lemma valid_UpdateStatus_poison:
  assumes u: "uuid_Parse E (MsgJobID m) = Some i" and m: "m \<in> set ms"
  shows "valid (holds (poison_read E ms i j)) (UpdateStatus E (ID j) StatusDead le)
    (post (\<lambda>_. holds (poison_done E m ms)) (holds (poison_inv E ms)))"
proof (cases "ID j = i")
  case True
  show ?thesis unfolding True
  proof (rule valid_UpdateStatus)
    show "validStatuses StatusDead = Some Dead" by simp
    show "schema_ok d" if "poison_read E ms i j d s" for d s
      using that platform_invD(2) by (auto simp: poison_read_def poison_inv_def)
  qed (use poison_dead [OF _ u m] poison_done_weak poison_read_weak in blast)+
next
  case False
  show ?thesis by (rule valid_False) (use False job_ofD in \<open>auto simp: poison_read_def\<close>)
qed

lemma valid_Quarantine:
  assumes m: "m \<in> set ms"
  shows "valid (holds (poison_inv E ms)) (Quarantine E m n)
    (post (\<lambda>_. holds (poison_inv E ms)) (holds (poison_inv E ms)))"
proof (cases "uuid_Parse E (MsgJobID m)")
  case None
  then have "poison_done E m ms d s" if "poison_inv E ms d s" for d s
    using that m by (intro poison_doneI) simp_all
  then show ?thesis
    using None by (auto simp: Quarantine_def intro!: valid_wrap valid_preH [OF valid_ack_poison])
next
  case (Some i)
  let ?I = "poison_inv E ms"
  note ack = valid_wrap [OF valid_ack_poison]
  have dl: "valid (holds (poison_read E ms i j)) (DeadLetter E jid p) (post (\<lambda>_. holds (poison_read E ms i j)) (holds ?I))" for j jid p
    by (rule valid_DeadLetter) (use poison_view(1) in \<open>auto simp: poison_read_def\<close>)
  have inc: "valid (holds (poison_done E m ms)) (ignore (Increment E JobsFailedKey)) (post (\<lambda>_. holds (poison_done E m ms)) (holds ?I))"
    by (rule valid_Increment) (rule poison_view(2))
  have ended: "poison_done E m ms d s" if "Status j \<in> {Done, Cancelled, Dead}" "poison_read E ms i j d s" for j d s
    using that Some m by (intro poison_doneI) (auto simp: poison_read_def)
  show ?thesis
    unfolding Quarantine_def Some option.case
    by (rule valid_bindH [OF valid_GetByID_poison [OF Some m]], rule valid_case_sum, simp only: sum.case,
        rule valid_if, simp only: if_True, rule ack, simp only: if_False, rule valid_fail_H, assumption,
        simp only: sum.case, rule valid_if, rule valid_preH [OF ack], erule (1) ended,
        rule valid_bindH [OF valid_wrap [OF dl]], rule valid_bindH [OF valid_wrap [OF valid_UpdateStatus_poison [OF Some m]]],
        rule valid_bindH [OF inc], rule ack)
qed

section \<open>The worker loop\<close>

lemma valid_for_each_same:
  assumes "\<And>x. x \<in> set xs \<Longrightarrow> valid (holds P) (f x) (post (\<lambda>_. holds P) (holds P))"
  shows "valid (holds P) (for_each f xs) (post (\<lambda>_. holds P) (holds P))"
  using assms
proof (induction xs)
  case Nil
  then show ?case by (simp add: valid_def)
next
  case (Cons x xs)
  have "valid (holds P) (ignore (f x)) (post (\<lambda>_. holds P) (holds P))"
    by (rule valid_ignore) (simp add: Cons.prems)
  moreover have "valid (holds P) (for_each f xs) (post (\<lambda>_. holds P) (holds P))"
    by (rule Cons.IH) (simp add: Cons.prems)
  ultimately show ?case unfolding for_each.simps by (rule valid_bindH)
qed

lemma valid_Process_batch:
  "distinct (map MsgID ms) \<Longrightarrow> valid (holds (batch_inv E ms)) (for_each (Process E cfg) ms)
     (post (\<lambda>_. holds (platform_inv E)) (holds (platform_inv E)))"
proof (induction ms)
  case Nil
  then show ?case by (simp add: valid_def holds_def batch_inv_def)
next
  case (Cons m ms)
  then have "MsgID m \<notin> MsgID ` set ms" and d: "distinct (map MsgID ms)" by auto
  then have "valid (holds (batch_inv E (m # ms))) (ignore (Process E cfg m))
      (post (\<lambda>_. holds (batch_inv E ms)) (holds (platform_inv E)))"
    by (intro valid_ignore valid_Process)
  then show ?case unfolding for_each.simps by (rule valid_bindH) (rule Cons.IH [OF d])
qed

text \<open>Delivered batches satisfy the precondition.\<close>

lemma toMessages_spec:
  "toMessages es = Inr ms \<Longrightarrow> map MsgID ms = map fst es \<and> (\<forall>m\<in>set ms. \<exists>e\<in>set es. toMessage e = Inr m)"
proof (induction es arbitrary: ms)
  case (Cons e es)
  then obtain m ms' where "toMessage e = Inr m" "toMessages es = Inr ms'" "ms = m # ms'"
    by (auto split: sum.splits)
  then show ?case using Cons.IH [of ms'] toMessage_ID [of e m] by auto
qed simp

definition delivered :: "env \<Rightarrow> entry list \<Rightarrow> tables \<Rightarrow> redis \<Rightarrow> bool" where
  "delivered E es d s \<longleftrightarrow> platform_inv E d s \<and> (reliable E \<longrightarrow> set es \<subseteq> live_entries s \<and> distinct (map fst es))"

lemma delivered_batch:
  "delivered E es d s \<Longrightarrow> toMessages es = Inr ms \<Longrightarrow> batch_inv E ms d s \<and> (reliable E \<longrightarrow> distinct (map MsgID ms))"
  using toMessages_spec [of es ms] by (fastforce simp: delivered_def batch_inv_def msg_live_def)

text \<open>A batch with repeated ids cannot come from a reliable server; without one the invariant
  asks nothing of the queues.\<close>

lemma valid_Process_any:
  "valid (holds (\<lambda>d s. batch_inv E ms d s \<and> (reliable E \<longrightarrow> distinct (map MsgID ms))))
     (for_each (Process E cfg) ms) (post (\<lambda>_. holds (platform_inv E)) (holds (platform_inv E)))"
proof (cases "reliable E")
  case True
  show ?thesis
  proof (cases "distinct (map MsgID ms)")
    case d: True
    show ?thesis by (rule valid_preH [OF valid_Process_batch [OF d]]) simp
  next
    case False
    with True show ?thesis by (intro valid_False) simp
  qed
next
  case False
  have "valid (holds (platform_inv E)) (Process E cfg m) (post (\<lambda>_. holds (platform_inv E)) (holds (platform_inv E)))" for m
    using valid_Process [of m "[]" E cfg] False by (simp add: batch_inv_def [abs_def])
  then have "valid (holds (platform_inv E)) (for_each (Process E cfg) ms) (post (\<lambda>_. holds (platform_inv E)) (holds (platform_inv E)))"
    by (intro valid_for_each_same)
  then show ?thesis by (rule valid_preH) (simp add: batch_inv_def)
qed

lemma valid_lift_sum_batch:
  "valid (holds (delivered E es)) (lift_sum (toMessages es))
     (post (\<lambda>ms. holds (\<lambda>d s. batch_inv E ms d s \<and> (reliable E \<longrightarrow> distinct (map MsgID ms)))) (holds (platform_inv E)))"
proof (cases "toMessages es")
  case (Inl e)
  then show ?thesis by (auto simp: lift_sum_def delivered_def intro: valid_fail_H)
next
  case (Inr ms)
  then show ?thesis using delivered_batch [OF _ Inr] by (auto simp: lift_sum_def intro!: valid_ret_H)
qed

lemma valid_deliver:
  assumes "\<And>S s r s' es. server_ok S \<Longrightarrow> stream_wf s \<Longrightarrow> f S s = (r, s') \<Longrightarrow>
      live_entries s \<subseteq> live_entries s' \<and> stream_wf s' \<and> sched_lookup s' = sched_lookup s
      \<and> (r = Inr es \<longrightarrow> set es \<subseteq> live_entries s' \<and> distinct (map fst es))"
  shows "valid (holds (platform_inv E)) (lift_reply (rcall E f))
    (post (\<lambda>es. holds (delivered E es)) (holds (platform_inv E)))"
proof (rule valid_lift_reply)
  have step: "case fst (f (srv E) s) of Inl e \<Rightarrow> platform_inv E d (snd (f (srv E) s))
      | Inr es \<Rightarrow> delivered E es d (snd (f (srv E) s))" if inv: "platform_inv E d s" for d s
  proof -
    obtain r s' where run: "f (srv E) s = (r, s')" by fastforce
    have "qstep E {} {} s s'" if "reliable E"
      using assms [OF reliableD(1) [OF that] platform_invD(3) [OF inv that] run]
      by (auto simp: qstep_def delayed_keys_def keys_of_def)
    then have "platform_inv E d s'" by (rule platform_inv_keep [OF inv])
    moreover have "set es \<subseteq> live_entries s' \<and> distinct (map fst es)" if "reliable E" "r = Inr es" for es
      using assms [OF reliableD(1) [OF that(1)] platform_invD(3) [OF inv that(1)] run] that(2) by blast
    ultimately show ?thesis by (auto simp: run delivered_def split: sum.splits)
  qed
  have "valid (holds (platform_inv E)) (rcall E f)
      (post (\<lambda>r. holds (\<lambda>d s. case r of Inl e \<Rightarrow> platform_inv E d s | Inr es \<Rightarrow> delivered E es d s)) (holds (platform_inv E)))"
    by (rule valid_rcallQ) (use step in \<open>auto simp: delivered_def split: sum.splits\<close>)
  then show "valid (holds (platform_inv E)) (rcall E f)
      (post (\<lambda>r w. case r of Inl e \<Rightarrow> holds (platform_inv E) w | Inr es \<Rightarrow> holds (delivered E es) w) (holds (platform_inv E)))"
    by (rule valid_conseq) (auto simp: post_def holds_def split: sum.splits)
qed

text \<open>The messages of poison entries.\<close>

lemma xrange_own:
  assumes "server_ok S" and "stream_wf s" and "XRANGE S ReadyStream i s = es" and "e \<in> live_entries s" and "fst e = i"
  shows "es \<noteq> [] \<and> hd es = e"
proof -
  have es: "es = filter (\<lambda>e. fst e = i) (Streams s ReadyStream)"
    using server_okD(7) [OF assms(1)] assms(3) by (simp add: xrange_law_def)
  have mem: "e \<in> set es" using assms(4,5) live_subset [of s] es by auto
  then have "es \<noteq> []" by auto
  then have "hd es \<in> set es" by simp
  then have "fst (hd es) = fst e" "hd es \<in> set (Streams s ReadyStream)" "e \<in> set (Streams s ReadyStream)"
    using es assms(5) mem by auto
  moreover have "distinct (map fst (Streams s ReadyStream))" using assms(2) by (simp add: stream_wf_def)
  ultimately have "hd es = e" by (auto simp: distinct_map inj_on_def)
  with \<open>es \<noteq> []\<close> show ?thesis by simp
qed

lemma ReadMessagesByIDs_Cons:
  "ReadMessagesByIDs E (i # ids) w =
     (if outcome E RedisRange (calls w) \<noteq> Up then (Inl (Wrap ''read stream message'' Unavailable), tick w)
      else let es = XRANGE (srv E) ReadyStream i (rd w) in
        if es = [] then (Inl (Err ''stream message not found (trimmed)''), tick w)
        else case toMessage (hd es) of
            Inl e \<Rightarrow> (Inl e, tick w)
          | Inr m \<Rightarrow> (case ReadMessagesByIDs E ids (tick w) of
              (Inl e, w') \<Rightarrow> (Inl e, w') | (Inr ms, w') \<Rightarrow> (Inr (m # ms), w')))"
  by (auto simp: bind_def wrap_def rread_def lift_sum_def Let_def split: fault.splits sum.splits prod.splits)

lemma ReadMessagesByIDs_frame:
  "ReadMessagesByIDs E ids w = (r, w') \<Longrightarrow> rd w' = rd w \<and> db w' = db w"
proof (induction ids arbitrary: w r w')
  case (Cons i ids)
  obtain r1 w1 where rest: "ReadMessagesByIDs E ids (tick w) = (r1, w1)" by fastforce
  have "rd w1 = rd w \<and> db w1 = db w" using Cons.IH [OF rest] by simp
  with Cons.prems rest show ?case
    unfolding ReadMessagesByIDs_Cons by (auto simp: Let_def split: if_splits sum.splits)
qed simp

lemma own_id_read:
  assumes rel: "reliable E" and wf: "stream_wf s" and ne: "XRANGE (srv E) ReadyStream i s \<noteq> []"
    and m: "toMessage (hd (XRANGE (srv E) ReadyStream i s)) = Inr m"
  shows "own_id E m s"
  unfolding own_id_def
proof (intro ballI impI)
  let ?es = "XRANGE (srv E) ReadyStream i s"
  fix e
  assume e: "e \<in> live_entries s" "fst e = MsgID m"
  have "set ?es \<subseteq> {e. fst e = i}"
    using server_okD(7) [OF reliableD(1) [OF rel]] by (auto simp: xrange_law_def)
  then have "fst (hd ?es) = i" using ne hd_in_set [of ?es] by blast
  then have "fst e = i" using e(2) toMessage_ID [OF m] by simp
  then show "toMessage e = Inr m"
    using xrange_own [OF reliableD(1) [OF rel] wf refl e(1)] m by simp
qed

lemma valid_ReadMessagesByIDs:
  "valid (holds (platform_inv E)) (ReadMessagesByIDs E ids)
     (post (\<lambda>ms. holds (poison_inv E ms)) (holds (platform_inv E)))"
proof (induction ids)
  case Nil
  then show ?case by (simp add: valid_def holds_def poison_inv_def)
next
  case (Cons i ids)
  show ?case
  proof (rule validI)
    fix w w' :: world and r
    let ?es = "XRANGE (srv E) ReadyStream i (rd w)"
    assume inv: "holds (platform_inv E) w" and run: "ReadMessagesByIDs E (i # ids) w = (r, w')"
    obtain r1 w1 where rest: "ReadMessagesByIDs E ids (tick w) = (r1, w1)" by fastforce
    have p: "post (\<lambda>ms. holds (poison_inv E ms)) (holds (platform_inv E)) r1 w1"
      by (rule validD [OF Cons.IH _ rest]) (simp add: inv)
    have same: "rd w1 = rd w" using ReadMessagesByIDs_frame [OF rest] by simp
    consider m ms where "outcome E RedisRange (calls w) = Up" "?es \<noteq> []" "toMessage (hd ?es) = Inr m"
        "r1 = Inr ms" "r = Inr (m # ms)" "w' = w1"
      | e where "r = Inl e" "w' = tick w" | e where "r = Inl e" "r1 = Inl e" "w' = w1"
      using run rest by (auto simp: rread_def bind_def wrap_def lift_sum_def split: fault.splits if_splits sum.splits)
    then show "post (\<lambda>ms. holds (poison_inv E ms)) (holds (platform_inv E)) r w'"
    proof cases
      case (1 m ms)
      then have "own_id E m (rd w1)" if "reliable E"
        using own_id_read [OF that _ 1(2,3)] inv platform_invD(3) that same by (auto simp: holds_def)
      then show ?thesis using p 1 by (auto simp: poison_inv_def holds_def)
    qed (use inv p in \<open>auto simp: holds_def\<close>)
  qed
qed

text \<open>An entry that cannot be read back carries no job.\<close>

lemma unreadable_free:
  assumes inv: "platform_inv E d s" and rel: "reliable E"
    and bad: "XRANGE (srv E) ReadyStream i s = [] \<or> (\<exists>e. toMessage (hd (XRANGE (srv E) ReadyStream i s)) = Inl e)"
  shows "free_id E i d s"
  unfolding free_id_def
proof (intro ballI impI)
  fix e j
  assume e: "e \<in> live_entries s" "fst e = i"
  have "toMessage e \<noteq> Inr m" for m
    using xrange_own [OF reliableD(1) [OF rel] platform_invD(3) [OF inv rel] refl e(1)] e(2) bad by auto
  then show "entry_key E e \<noteq> Some (job_key j)" by (auto simp: entry_key_def split: sum.splits)
qed

lemma valid_read_single:
  "valid (holds (platform_inv E)) (result_of (ReadMessagesByIDs E [i]))
     (post (\<lambda>r. holds (\<lambda>d s. case r of Inl e \<Rightarrow> platform_inv E d s \<and> (reliable E \<longrightarrow> free_id E i d s)
        | Inr ms \<Rightarrow> poison_inv E ms d s \<and> ms \<noteq> [])) (holds (platform_inv E)))"
proof (rule validI)
  fix w r w'
  assume inv: "holds (platform_inv E) w" and run: "result_of (ReadMessagesByIDs E [i]) w = (r, w')"
  let ?es = "XRANGE (srv E) ReadyStream i (rd w)"
  obtain q where q: "ReadMessagesByIDs E [i] w = (q, w')" and r: "r = Inr q"
    using run by (auto simp: result_of_def split: prod.splits)
  have p: "post (\<lambda>ms. holds (poison_inv E ms)) (holds (platform_inv E)) q w'"
    by (rule validD [OF valid_ReadMessagesByIDs inv q])
  have "holds (\<lambda>d s. reliable E \<longrightarrow> free_id E i d s) w'" if "q = Inl e" for e
  proof -
    have "?es = [] \<or> (\<exists>e. toMessage (hd ?es) = Inl e)" "db w' = db w" "rd w' = rd w" if "reliable E"
      using q \<open>q = Inl e\<close> reliableD(4) [OF that, of "calls w"]
      by (auto simp: rread_def bind_def wrap_def lift_sum_def split: if_splits sum.splits)
    then show ?thesis using inv unreadable_free [of E "db w" "rd w" i] by (auto simp: holds_def)
  qed
  moreover have "ms \<noteq> []" if "q = Inr ms" for ms
    using q that by (auto simp: rread_def bind_def wrap_def lift_sum_def split: if_splits sum.splits fault.splits)
  ultimately show "post (\<lambda>r. holds (\<lambda>d s. case r of Inl e \<Rightarrow> platform_inv E d s \<and> (reliable E \<longrightarrow> free_id E i d s)
        | Inr ms \<Rightarrow> poison_inv E ms d s \<and> ms \<noteq> [])) (holds (platform_inv E)) r w'"
    using p unfolding r by (cases q) (auto simp: holds_def)
qed

lemma poison_weak: "poison_inv E ms d s \<Longrightarrow> platform_inv E d s"
  by (simp add: poison_inv_def)

lemma valid_quarantineOne:
  assumes "m \<in> set ms"
  shows "valid (holds (poison_inv E ms)) (quarantineOne E m n)
     (post (\<lambda>_. holds (poison_inv E ms)) (holds (poison_inv E ms)))"
  unfolding quarantineOne_def by (rule valid_ignore [OF valid_Quarantine [OF assms]])

lemma valid_quarantine_single:
  "valid (holds (platform_inv E)) (quarantine_single E p)
     (post (\<lambda>_. holds (platform_inv E)) (holds (platform_inv E)))"
  unfolding quarantine_single_def
proof (rule valid_bindH [OF valid_read_single])
  fix r
  let ?P = "\<lambda>d s. case r of Inl e \<Rightarrow> platform_inv E d s \<and> (reliable E \<longrightarrow> free_id E (PeID p) d s)
        | Inr ms \<Rightarrow> poison_inv E ms d s \<and> ms \<noteq> []"
  show "valid (holds ?P) (case r of Inl _ \<Rightarrow> ignore (Acknowledge E (PeID p)) | Inr msgs \<Rightarrow> quarantineOne E (hd msgs) (PeCount p))
      (post (\<lambda>_. holds (platform_inv E)) (holds (platform_inv E)))"
  proof (cases r)
    case (Inl e)
    have "valid (holds ?P) (Acknowledge E (PeID p)) (post (\<lambda>_. holds (platform_inv E)) (holds (platform_inv E)))"
      unfolding Acknowledge_def
      by (rule valid_wrap, rule valid_rcallQ) (use Inl in \<open>auto intro: ack_free\<close>)
    then show ?thesis unfolding Inl sum.case by (rule valid_ignore)
  next
    case (Inr ms)
    show ?thesis
    proof (cases "ms = []")
      case True
      then show ?thesis by (intro valid_False) (simp add: Inr)
    next
      case False
      then have "hd ms \<in> set ms" by simp
      from valid_quarantineOne [OF this] show ?thesis unfolding Inr sum.case
        by (rule valid_conseqH) (auto dest: poison_weak)
    qed
  qed
qed

lemma valid_quarantinePoison:
  "valid (holds (platform_inv E)) (quarantinePoison E ps)
     (post (\<lambda>_. holds (platform_inv E)) (holds (platform_inv E)))"
proof (cases "ps = []")
  case True
  then show ?thesis by (simp add: quarantinePoison_def valid_def)
next
  case False
  show ?thesis
    unfolding quarantinePoison_def if_not_P [OF False]
  proof (rule valid_bindH [OF valid_result_ofH [OF valid_ReadMessagesByIDs]])
    fix r
    let ?count = "\<lambda>m. case map_of (rev (map (\<lambda>p. (PeID p, PeCount p)) ps)) (MsgID m) of None \<Rightarrow> 0 | Some c \<Rightarrow> c"
    show "valid (holds (case r of Inl e \<Rightarrow> platform_inv E | Inr ms \<Rightarrow> poison_inv E ms))
      (case r of Inl _ \<Rightarrow> for_each (quarantine_single E) ps
       | Inr messages \<Rightarrow> for_each (\<lambda>m. quarantineOne E m (?count m)) messages)
      (post (\<lambda>_. holds (platform_inv E)) (holds (platform_inv E)))"
    proof (cases r)
      case (Inl e)
      show ?thesis unfolding Inl sum.case by (rule valid_for_each_same) (rule valid_quarantine_single)
    next
      case (Inr ms)
      have "valid (holds (poison_inv E ms)) (for_each (\<lambda>m. quarantineOne E m (?count m)) ms)
          (post (\<lambda>_. holds (poison_inv E ms)) (holds (poison_inv E ms)))"
        by (rule valid_for_each_same) (rule valid_quarantineOne)
      then show ?thesis unfolding Inr sum.case by (rule valid_conseqH) (auto dest: poison_weak)
    qed
  qed
qed

lemma valid_ignore_list: "(\<And>r. valid (holds P) (f r) (post (\<lambda>_. holds P) (holds P))) \<Longrightarrow>
  valid (holds P) m (post (\<lambda>_. holds P) (holds P)) \<Longrightarrow> valid (holds P) (bind (result_of m) f) (post (\<lambda>_. holds P) (holds P))"
proof -
  assume f: "\<And>r. valid (holds P) (f r) (post (\<lambda>_. holds P) (holds P))"
    and m: "valid (holds P) m (post (\<lambda>_. holds P) (holds P))"
  show ?thesis
  proof (rule valid_bindH [OF valid_result_ofH [OF m]])
    show "valid (holds (case r of Inl e \<Rightarrow> P | Inr a \<Rightarrow> P)) (f r) (post (\<lambda>_. holds P) (holds P))" for r
      using f [of r] by (cases r) simp_all
  qed
qed

lemma valid_Claim:
  "valid (holds (platform_inv E)) (Claim E con t ids)
     (post (\<lambda>ms. holds (\<lambda>d s. batch_inv E ms d s \<and> (reliable E \<longrightarrow> distinct (map MsgID ms)))) (holds (platform_inv E)))"
  unfolding Claim_def
proof (rule valid_bindH [OF valid_wrap [OF valid_deliver] valid_lift_sum_batch])
  show "live_entries s \<subseteq> live_entries s' \<and> stream_wf s' \<and> sched_lookup s' = sched_lookup s
      \<and> (r = Inr es \<longrightarrow> set es \<subseteq> live_entries s' \<and> distinct (map fst es))"
    if "server_ok S" "stream_wf s" "XCLAIM S ReadyStream ConsumerGroup con t ids s = (r, s')" for S s r s' es
    using xclaim_effect [OF that] by blast
qed

lemma batch_any_weak: "batch_inv E ms d s \<and> Q \<Longrightarrow> platform_inv E d s"
  by (simp add: batch_inv_def)

lemma valid_claim_batch:
  "valid (holds (platform_inv E)) (bind (result_of (Claim E con t ids)) (\<lambda>c.
     case c of Inl _ \<Rightarrow> ret () | Inr claimed \<Rightarrow> for_each (Process E cfg) claimed))
   (post (\<lambda>_. holds (platform_inv E)) (holds (platform_inv E)))"
proof (rule valid_bindH [OF valid_result_ofH [OF valid_Claim]])
  show "valid (holds (case c of Inl e \<Rightarrow> platform_inv E
        | Inr ms \<Rightarrow> (\<lambda>d s. batch_inv E ms d s \<and> (reliable E \<longrightarrow> distinct (map MsgID ms)))))
      (case c of Inl _ \<Rightarrow> ret () | Inr claimed \<Rightarrow> for_each (Process E cfg) claimed)
      (post (\<lambda>_. holds (platform_inv E)) (holds (platform_inv E)))" for c
    by (cases c) (use valid_Process_any in \<open>simp_all add: valid_def\<close>)
qed

lemma valid_reclaimStale:
  "valid (holds (platform_inv E)) (reclaimStale E cfg con)
     (post (\<lambda>_. holds (platform_inv E)) (holds (platform_inv E)))"
proof -
  let ?I = "platform_inv E"
  have list: "valid (holds ?I) (ListStalePending E t n) (post (\<lambda>_. holds ?I) (holds ?I))" for t n
    unfolding ListStalePending_def
    by (intro valid_wrap valid_lift_reply)
       (auto simp: valid_def rread_def holds_def post_def split: fault.splits sum.splits)
  show ?thesis
    unfolding reclaimStale_def Let_def
    by (rule valid_ignore_list [OF _ list], rule valid_case_sum [where P = "\<lambda>_. holds ?I"], rule valid_ret_H, assumption,
        rule valid_bindH [OF valid_quarantinePoison], rule valid_if, rule valid_ret_H, assumption, rule valid_claim_batch)
qed

lemma valid_EnsureConsumerGroup:
  "valid (holds (platform_inv E)) (EnsureConsumerGroup E)
     (post (\<lambda>_. holds (platform_inv E)) (holds (platform_inv E)))"
proof -
  let ?I = "platform_inv E"
  have step: "?I d (snd (XGROUP_CREATE (srv E) ReadyStream ConsumerGroup s))" if "?I d s" for d s
  proof (rule platform_inv_keep [OF that])
    show "qstep E {} {} s (snd (XGROUP_CREATE (srv E) ReadyStream ConsumerGroup s))" if "reliable E"
      using xgroup_create_effect [OF reliableD(1) [OF that] surjective_pairing]
      by (simp add: qstep_def delayed_keys_def keys_of_def)
  qed
  have "valid (holds ?I) (rcall E (\<lambda>S. XGROUP_CREATE S ReadyStream ConsumerGroup)) (post (\<lambda>_. holds ?I) (holds ?I))"
    by (rule valid_rcallQ) (use step in auto)
  then have "valid (holds ?I) (lift_reply (rcall E (\<lambda>S. XGROUP_CREATE S ReadyStream ConsumerGroup))) (post (\<lambda>_. holds ?I) (holds ?I))"
    by (intro valid_lift_reply) (erule valid_conseq, auto simp: post_def split: sum.splits)
  then show ?thesis
    unfolding EnsureConsumerGroup_def
    by (rule valid_ignore_list [rotated]) (auto simp: valid_def split: sum.splits)
qed

lemma valid_ReadNext:
  "valid (holds (platform_inv E)) (ReadNextWithTimeout E con)
     (post (\<lambda>ms. holds (\<lambda>d s. batch_inv E ms d s \<and> (reliable E \<longrightarrow> distinct (map MsgID ms)))) (holds (platform_inv E)))"
  unfolding ReadNextWithTimeout_def
proof (rule valid_bindH [OF valid_result_ofH])
  show "valid (holds (platform_inv E)) (lift_reply (rcall E (\<lambda>S. XREADGROUP S ReadyStream ConsumerGroup con 10)))
      (post (\<lambda>es. holds (delivered E es)) (holds (platform_inv E)))"
  proof (rule valid_deliver)
    show "live_entries s \<subseteq> live_entries s' \<and> stream_wf s' \<and> sched_lookup s' = sched_lookup s
        \<and> (r = Inr es \<longrightarrow> set es \<subseteq> live_entries s' \<and> distinct (map fst es))"
      if "server_ok S" "stream_wf s" "XREADGROUP S ReadyStream ConsumerGroup con 10 s = (r, s')" for S s r s' es
      using xreadgroup_effect [OF that] by blast
  qed
  fix r :: "goerr + entry list"
  show "valid (holds (case r of Inl e \<Rightarrow> platform_inv E | Inr es \<Rightarrow> delivered E es))
    (case r of Inl e \<Rightarrow> if errors_Is e RedisNil then ret [] else fail (Wrap ''read from stream'' e)
     | Inr es \<Rightarrow> lift_sum (toMessages es))
    (post (\<lambda>ms. holds (\<lambda>d s. batch_inv E ms d s \<and> (reliable E \<longrightarrow> distinct (map MsgID ms)))) (holds (platform_inv E)))"
    by (cases r) (use valid_lift_sum_batch in \<open>auto simp: valid_def holds_def batch_inv_def\<close>)
qed

lemma valid_Run_once:
  "valid (holds (platform_inv E)) (Run_once E cfg con t)
     (post (\<lambda>_. holds (platform_inv E)) (holds (platform_inv E)))"
proof (cases "TnCancelled t")
  case True
  then show ?thesis by (simp add: Run_once_def valid_ret_H del: ret_apply)
next
  case False
  let ?I = "platform_inv E"
  let ?B = "\<lambda>ms d s. batch_inv E ms d s \<and> (reliable E \<longrightarrow> distinct (map MsgID ms))"
  have rec: "valid (holds ?I) (if TnReclaim t then reclaimStale E cfg con else ret ()) (post (\<lambda>_. holds ?I) (holds ?I))"
    using valid_reclaimStale [of E cfg con] by (simp add: valid_def)
  have group: "valid (holds ?I) (if isNoGroupError e then ignore (EnsureConsumerGroup E) else ret ())
      (post (\<lambda>_. holds ?I) (holds ?I))" for e
    using valid_ignore [OF valid_EnsureConsumerGroup] by (simp add: valid_ret_H del: ret_apply)
  have batch: "valid (holds (?B ms)) (bind (for_each (Process E cfg) ms) (\<lambda>_. ret None))
      (post (\<lambda>_. holds ?I) (holds ?I))" for ms
    by (rule valid_bindH [OF valid_Process_any]) (simp_all add: valid_ret_H del: ret_apply)
  have drop: "valid (holds (?B ms)) (ret x) (post (\<lambda>_. holds ?I) (holds ?I))" for ms and x :: "goerr option"
    by (auto simp: valid_def holds_def batch_inv_def)
  have read: "valid (holds (case r of Inl e \<Rightarrow> ?I | Inr ms \<Rightarrow> ?B ms))
      (if TnDoneInRead t then ret (Some Canceled)
       else case r of
         Inl e \<Rightarrow> if TnErrAfterRead t then ret (Some Canceled) else if errors_Is e Canceled then ret (Some e)
           else bind (if isNoGroupError e then ignore (EnsureConsumerGroup E) else ret ())
             (\<lambda>_. ret (if TnDoneInPause t then Some Canceled else None))
       | Inr messages \<Rightarrow> bind (for_each (Process E cfg) messages) (\<lambda>_. ret None))
      (post (\<lambda>_. holds ?I) (holds ?I))" for r
  proof (cases r)
    case (Inl e)
    then show ?thesis by (simp add: valid_ret_H valid_bindH [OF group] del: ret_apply)
  next
    case (Inr ms)
    then show ?thesis by (simp add: batch drop del: ret_apply)
  qed
  show ?thesis
    unfolding Run_once_def if_not_P [OF False]
    by (rule valid_bindH [OF rec], rule valid_bindH [OF valid_result_ofH [OF valid_ReadNext]], rule read)
qed

end
