(* ===== verification/CronRepo.thy ===== *)
theory CronRepo
  imports JobRepo GoStrings
begin

text \<open>
  \<open>internal/repository/cron_jobs.go\<close>: the cron table and \<open>CreateDueInstance\<close>, the
  transaction that turns a due cron row into a job, its outbox row and a new \<open>next_run_at\<close>.
\<close>

record create_cron_input =
  CiExpression :: string
  CiTemplate :: string
  CiNextRunAt :: time
  CiEnabled :: bool

definition insert_cron :: "env \<Rightarrow> create_cron_input \<Rightarrow> time \<Rightarrow> cron_job stmt" where
  "insert_cron E inp createdAt now d =
     (let c = \<lparr>CrID = cron_seq d, CrExpression = CiExpression inp, CrTemplate = jsonb E (CiTemplate inp),
               CrNextRunAt = CiNextRunAt inp, CrEnabled = CiEnabled inp, CrCreatedAt = createdAt\<rparr> in
      Inr (c, d\<lparr>cron_jobs := cron_jobs d @ [c], cron_seq := cron_seq d + 1\<rparr>))"

definition CreateCron :: "env \<Rightarrow> create_cron_input \<Rightarrow> cron_job handler" where
  "CreateCron E inp =
     bind (time_Now E) (\<lambda>createdAt.
     wrap ''failed to create cron job'' (sql E PgStmt (insert_cron E inp createdAt)))"

definition update_crons :: "(cron_job \<Rightarrow> bool) \<Rightarrow> (cron_job \<Rightarrow> cron_job) \<Rightarrow> int stmt" where
  "update_crons P f now d =
     Inr (int (length (filter P (cron_jobs d))), d\<lparr>cron_jobs := update_where P f (cron_jobs d)\<rparr>)"

definition UpdateEnabled :: "env \<Rightarrow> int \<Rightarrow> bool \<Rightarrow> unit handler" where
  "UpdateEnabled E i enabled =
     bind (wrap ''failed to update cron job''
       (sql E PgStmt (update_crons (\<lambda>c. CrID c = i) (\<lambda>c. c\<lparr>CrEnabled := enabled\<rparr>)))) (\<lambda>n.
     if n = 0 then fail ErrNotFound else ret ())"

definition due :: "time \<Rightarrow> cron_job \<Rightarrow> bool" where
  "due now c \<longleftrightarrow> CrEnabled c \<and> CrNextRunAt c \<le> now"

definition ListDue :: "env \<Rightarrow> time \<Rightarrow> cron_job list handler" where
  "ListDue E now =
     wrap ''failed to list due cron jobs''
       (sql E PgStmt (\<lambda>_ d. Inr (sort_key CrNextRunAt (sort_key CrID (filter (due now) (cron_jobs d))), d)))"

record cron_instance =
  IiID :: uuid
  IiPayload :: string
  IiGeneration :: int

text \<open>The template checks, in the order of the code.\<close>

definition check_template :: "env \<Rightarrow> string \<Rightarrow> goerr + template" where
  "check_template E raw =
     (case template_of E raw of
        None \<Rightarrow> Inl (Err ''invalid cron job template'')
      | Some t \<Rightarrow>
          if TplType t = '''' then Inl (Err ''cron job template type is required'')
          else if TplPayload t = '''' \<or> TplPayload t = ''null''
          then Inl (Err ''cron job template payload is required'')
          else if TplMaxAttempts t \<le> 0
          then Inl (Err ''cron job template max_attempts must be greater than zero'')
          else Inr t)"

definition occurrence_key :: "env \<Rightarrow> cron_job \<Rightarrow> string" where
  "occurrence_key E c = ''cron:'' @ FormatInt (CrID c) @ '':'' @ RFC3339Nano E (CrNextRunAt c)"

definition cron_input :: "env \<Rightarrow> cron_job \<Rightarrow> template \<Rightarrow> create_input" where
  "cron_input E c t =
     \<lparr>InType = TplType t, InPayload = TplPayload t, InRunAt = CrNextRunAt c,
      InMaxAttempts = TplMaxAttempts t, InIdempotencyKey = occurrence_key E c,
      InCallbackURL = TplCallbackURL t\<rparr>"

text \<open>The catch-up guard.\<close>

definition catch_up :: "(string \<Rightarrow> time \<Rightarrow> goerr + time) \<Rightarrow> string \<Rightarrow> time \<Rightarrow> time \<Rightarrow> time" where
  "catch_up nextRun expr now nextRunAt =
     (if now < nextRunAt then nextRunAt
      else case nextRun expr now of
          Inl _ \<Rightarrow> nextRunAt
        | Inr fastForward \<Rightarrow> if nextRunAt < fastForward then fastForward else nextRunAt)"

definition advance :: "env \<Rightarrow> int \<Rightarrow> time \<Rightarrow> int handler" where
  "advance E i nextRunAt =
     tx_sql E (update_crons (\<lambda>c. CrID c = i) (\<lambda>c. c\<lparr>CrNextRunAt := nextRunAt\<rparr>))"

definition is_unique_violation :: "goerr \<Rightarrow> bool" where
  "is_unique_violation e = (case e of PgUnique _ \<Rightarrow> True | _ \<Rightarrow> False)"

text \<open>The three stretches of \<open>CreateDueInstance\<close> after the due row is locked. \<open>None\<close> is
  Go's \<open>CronInstance{}, false, nil\<close>. The occurrence already exists: try to move
  \<open>next_run_at\<close> on.\<close>

definition skip_occurrence ::
    "env \<Rightarrow> (string \<Rightarrow> time \<Rightarrow> goerr + time) \<Rightarrow> cron_job \<Rightarrow> cron_instance option handler" where
  "skip_occurrence E nextRun c =
     bind (case nextRun (CrExpression c) (CrNextRunAt c) of
         Inl _ \<Rightarrow> ret ()
       | Inr nextRunAt \<Rightarrow>
           bind (result_of (advance E (CrID c) nextRunAt)) (\<lambda>_.
           bind (result_of (tx_commit E)) (\<lambda>_. ret ()))) (\<lambda>_.
     ret None)"

text \<open>The job row is in: write the outbox row, advance the cron row, commit.\<close>

definition commit_occurrence ::
    "env \<Rightarrow> time \<Rightarrow> (string \<Rightarrow> time \<Rightarrow> goerr + time) \<Rightarrow> cron_job \<Rightarrow> job \<Rightarrow> uuid \<Rightarrow> cron_instance option handler" where
  "commit_occurrence E now nextRun c j i =
     bind (insertOutboxTx E i (QueueGeneration j) (CrNextRunAt c) OutboxImmediate) (\<lambda>_.
     case nextRun (CrExpression c) (CrNextRunAt c) of
       Inl e \<Rightarrow> fail (Wrap ''failed to calculate next cron run'' e)
     | Inr nextRunAt \<Rightarrow>
         bind (wrap ''failed to advance cron job''
           (advance E (CrID c) (catch_up nextRun (CrExpression c) now nextRunAt))) (\<lambda>_.
         bind (wrap ''failed to commit cron tick transaction'' (tx_commit E)) (\<lambda>_.
         ret (Some \<lparr>IiID = i, IiPayload = Payload j, IiGeneration = QueueGeneration j\<rparr>))))"

definition insert_occurrence ::
    "env \<Rightarrow> time \<Rightarrow> (string \<Rightarrow> time \<Rightarrow> goerr + time) \<Rightarrow> cron_job \<Rightarrow> template \<Rightarrow> cron_instance option handler" where
  "insert_occurrence E now nextRun c t =
     bind (uuid_New E) (\<lambda>jobID.
     let j = new_job E jobID Scheduled (cron_input E c t) now in
     bind (result_of (tx_sql E (\<lambda>_. insert_job j))) (\<lambda>ir.
     case ir of
       Inl e \<Rightarrow> if is_unique_violation e then skip_occurrence E nextRun c
                else fail (Wrap ''failed to create cron job instance'' e)
     | Inr i \<Rightarrow> commit_occurrence E now nextRun c j i))"

definition CreateDueInstance ::
    "env \<Rightarrow> int \<Rightarrow> time \<Rightarrow> (string \<Rightarrow> time \<Rightarrow> goerr + time) \<Rightarrow> cron_instance option handler" where
  "CreateDueInstance E cronJobID now nextRun =
     with_rollback
       (bind (wrap ''failed to begin cron tick transaction'' (tx_begin E)) (\<lambda>_.
        bind (result_of (scan_row (tx_sql E (\<lambda>_ d.
          Inr (find (\<lambda>c. CrID c = cronJobID \<and> due now c) (cron_jobs d), d))))) (\<lambda>r.
        case r of
          Inl e \<Rightarrow> if errors_Is e ErrNoRows then ret None
                   else fail (Wrap ''failed to lock due cron job'' e)
        | Inr c \<Rightarrow>
            (case check_template E (CrTemplate c) of
               Inl e \<Rightarrow> fail e
             | Inr t \<Rightarrow> insert_occurrence E now nextRun c t))))"

end
