(* ===== verification/Scheduler.thy ===== *)
theory Scheduler
  imports CronRepo Streams Processor
begin

text \<open>
  \<open>internal/scheduler\<close>: the leader lock, the promotion of due jobs, the cron tick, the
  outbox reconciler and one tick of the scheduler's main loop.
\<close>

section \<open>Leader lock\<close>

record leader_lock =
  LkKey :: string
  LkInstance :: string
  LkTtl :: int

text \<open>The lock's TTL is a \<open>time.Duration\<close> (positive); Redis counts milliseconds. go-redis
  rounds an expiry below one millisecond up.\<close>

definition Milliseconds :: "int \<Rightarrow> int" where
  "Milliseconds d = d div 1000000"

definition expiry_ms :: "int \<Rightarrow> int" where
  "expiry_ms d = (if 0 < d \<and> d < 1000000 then 1 else Milliseconds d)"

definition Acquire :: "env \<Rightarrow> leader_lock \<Rightarrow> bool handler" where
  "Acquire E l = wrap ''acquire leader lock''
     (rcall E (\<lambda>S. SETNX S (LkKey l) (LkInstance l) (expiry_ms (LkTtl l))))"

text \<open>\<open>renewScript\<close> and \<open>releaseScript\<close>: compare and act in one step.\<close>

definition renewScript :: "redis_srv \<Rightarrow> string \<Rightarrow> string \<Rightarrow> int \<Rightarrow> redis \<Rightarrow> int \<times> redis" where
  "renewScript S key owner ttl s =
     (if GET S key s = Some owner then PEXPIRE S key ttl s else (0, s))"

definition releaseScript :: "redis_srv \<Rightarrow> string \<Rightarrow> string \<Rightarrow> redis \<Rightarrow> int \<times> redis" where
  "releaseScript S key owner s =
     (if GET S key s = Some owner then DEL S key s else (0, s))"

definition Renew :: "env \<Rightarrow> leader_lock \<Rightarrow> bool handler" where
  "Renew E l =
     bind (wrap ''renew leader lock''
       (rcall E (\<lambda>S. renewScript S (LkKey l) (LkInstance l) (Milliseconds (LkTtl l))))) (\<lambda>n. ret (n = 1))"

definition IsLeader :: "env \<Rightarrow> leader_lock \<Rightarrow> bool handler" where
  "IsLeader E l =
     bind (wrap ''check leader lock'' (rread E RedisRead (\<lambda>S. GET S (LkKey l)))) (\<lambda>owner.
     case owner of None \<Rightarrow> ret False | Some v \<Rightarrow> ret (v = LkInstance l))"

definition Release :: "env \<Rightarrow> leader_lock \<Rightarrow> bool handler" where
  "Release E l =
     bind (wrap ''release leader lock''
       (rcall E (\<lambda>S. releaseScript S (LkKey l) (LkInstance l)))) (\<lambda>n. ret (n = 1))"

text \<open>One beat of \<open>Heartbeat\<close>: an error ends the loop.\<close>

definition heartbeat_step :: "env \<Rightarrow> leader_lock \<Rightarrow> unit handler" where
  "heartbeat_step E l =
     (if LkTtl l div 2 \<le> 0 then fail (Err ''leader lock TTL must be greater than zero'')
      else bind (Renew E l) (\<lambda>renewed.
        if renewed then ret () else fail (Err ''leader lock is no longer owned'')))"

section \<open>Cron tick\<close>

text \<open>\<open>NextRunAt\<close> of \<open>cron.go\<close>; parsing and evaluating the expression is the cron
  library's.\<close>

definition cron_NextRunAt :: "env \<Rightarrow> string \<Rightarrow> time \<Rightarrow> goerr + time" where
  "cron_NextRunAt E expr from =
     (case cron_Next E expr from of
        Inl e \<Rightarrow> Inl (Wrap ''parse cron expression'' e)
      | Inr t \<Rightarrow> Inr t)"

definition tick_cron :: "env \<Rightarrow> time \<Rightarrow> cron_job \<Rightarrow> bool handler" where
  "tick_cron E now c =
     bind (result_of (CreateDueInstance E (CrID c) now (cron_NextRunAt E))) (\<lambda>r.
     case r of
       Inl _ \<Rightarrow> ret False
     | Inr None \<Rightarrow> ret False
     | Inr (Some inst) \<Rightarrow>
         bind (result_of (EnqueueDue E (uuid_String E (IiID inst)) (IiPayload inst) (IiGeneration inst))) (\<lambda>q.
         case q of
           Inl _ \<Rightarrow> ret False
         | Inr _ \<Rightarrow> bind (ignore (DeleteOutboxEntries E [IiID inst])) (\<lambda>_. ret True)))"

fun tick_crons :: "env \<Rightarrow> time \<Rightarrow> cron_job list \<Rightarrow> int \<Rightarrow> int handler" where
  "tick_crons E now [] created = ret created"
| "tick_crons E now (c # cs) created =
     bind (tick_cron E now c) (\<lambda>ok. tick_crons E now cs (if ok then created + 1 else created))"

definition TickCronJobs :: "env \<Rightarrow> time \<Rightarrow> int handler" where
  "TickCronJobs E now =
     bind (wrap ''list due cron jobs'' (ListDue E now)) (\<lambda>cs. tick_crons E now cs 0)"

section \<open>Outbox reconciler\<close>

definition outboxBatchSize :: int where "outboxBatchSize = 100"
definition outboxGracePeriod :: int where "outboxGracePeriod = 30 * second"

text \<open>One entry: \<open>Inl e\<close> stops the loop; \<open>Inr True\<close> counts.\<close>

definition reconcile_entry :: "env \<Rightarrow> time \<Rightarrow> outbox_entry \<Rightarrow> bool handler" where
  "reconcile_entry E now e =
     bind (result_of (GetByID E (ObJobID e))) (\<lambda>r.
     case r of
       Inl err \<Rightarrow>
         if errors_Is err ErrNotFound
         then bind (ignore (DeleteOutboxEntries E [ObJobID e])) (\<lambda>_. ret False)
         else fail err
     | Inr j \<Rightarrow>
         if Status j \<noteq> Pending \<and> Status j \<noteq> Scheduled
         then bind (ignore (DeleteOutboxEntries E [ObJobID e])) (\<lambda>_. ret False)
         else if QueueGeneration j \<noteq> ObGeneration e
         then bind (ignore (DeleteOutboxEntries E [ObJobID e])) (\<lambda>_. ret False)
         else
           bind (if now < ObRunAt e
                 then ScheduleJob E (uuid_String E (ID j)) (Payload j) (ObGeneration e) (ObRunAt e)
                 else bind (EnqueueDue E (uuid_String E (ID j)) (Payload j) (ObGeneration e)) (\<lambda>_. ret ())) (\<lambda>_.
           bind (ignore (DeleteOutboxEntries E [ObJobID e])) (\<lambda>_. ret True)))"

fun reconcile_entries :: "env \<Rightarrow> time \<Rightarrow> outbox_entry list \<Rightarrow> int \<Rightarrow> int handler" where
  "reconcile_entries E now [] n = ret n"
| "reconcile_entries E now (e # es) n =
     bind (reconcile_entry E now e) (\<lambda>ok. reconcile_entries E now es (if ok then n + 1 else n))"

definition ReconcileOutbox :: "env \<Rightarrow> int \<Rightarrow> int handler" where
  "ReconcileOutbox E outboxGrace =
     bind (time_Now E) (\<lambda>t0.
     bind (ClaimOutbox E outboxBatchSize (t0 - outboxGrace)) (\<lambda>entries.
     bind (time_Now E) (\<lambda>now.
     reconcile_entries E now entries 0)))"

section \<open>The scheduler loop\<close>

definition scheduler_PromoteDue :: "env \<Rightarrow> time \<Rightarrow> int handler" where
  "scheduler_PromoteDue E now =
     bind (wrap ''promote due jobs'' (PromoteDueWithIDs E now)) (\<lambda>ids. ret (int (length ids)))"

definition outboxReconcileInterval :: int where "outboxReconcileInterval = 30 * second"

text \<open>The local variables of \<open>Run\<close> that survive a tick: the two time stamps and whether
  the heartbeat goroutine is running (\<open>heartbeatDone\<close> and \<open>heartbeatCancel\<close> are set and
  cleared together).\<close>

record sched_state =
  LastReconcile :: time
  LastDepthLog :: time
  HeartbeatOn :: bool

text \<open>How a tick ends: \<open>continue\<close>, or \<open>return ctx.Err()\<close>. The context is cancelled or not
  as a function of the calls made so far.\<close>

datatype tick_end = Continue | Return "goerr option"

definition ctx_Err :: "(nat \<Rightarrow> bool) \<Rightarrow> goerr option handler" where
  "ctx_Err canc w = (Inr (if canc (calls w) then Some Canceled else None), w)"

text \<open>\<open>if errors.Is(err, context.Canceled) || ctx.Err() != nil { return ctx.Err() }\<close>\<close>

definition on_error :: "(nat \<Rightarrow> bool) \<Rightarrow> goerr \<Rightarrow> tick_end handler" where
  "on_error canc e =
     bind (ctx_Err canc) (\<lambda>c. ret (if errors_Is e Canceled \<or> c \<noteq> None then Return c else Continue))"

definition startHeartbeat :: "sched_state \<Rightarrow> sched_state" where
  "startHeartbeat st = (if HeartbeatOn st then st else st\<lparr>HeartbeatOn := True\<rparr>)"

definition stopHeartbeat :: "sched_state \<Rightarrow> sched_state" where
  "stopHeartbeat st = (if HeartbeatOn st then st\<lparr>HeartbeatOn := False\<rparr> else st)"

definition reconcile_if_due ::
    "env \<Rightarrow> (nat \<Rightarrow> bool) \<Rightarrow> sched_state \<Rightarrow> (tick_end \<times> sched_state) handler" where
  "reconcile_if_due E canc st =
     bind (time_Now E) (\<lambda>t.
     if outboxReconcileInterval \<le> t - LastReconcile st then
       bind (result_of (ReconcileOutbox E outboxGracePeriod)) (\<lambda>r.
       bind (case r of Inl e \<Rightarrow> on_error canc e | Inr _ \<Rightarrow> ret Continue) (\<lambda>x.
       case x of
         Return c \<Rightarrow> ret (Return c, st)
       | Continue \<Rightarrow> bind (time_Now E) (\<lambda>t'. ret (Continue, st\<lparr>LastReconcile := t'\<rparr>))))
     else ret (Continue, st))"

definition depth_if_due :: "env \<Rightarrow> sched_state \<Rightarrow> sched_state handler" where
  "depth_if_due E st =
     bind (time_Now E) (\<lambda>t.
     if 60 * second \<le> t - LastDepthLog st then
       bind (result_of (QueueBacklog E)) (\<lambda>r.
       case r of
         Inl _ \<Rightarrow> ret st
       | Inr n \<Rightarrow> bind (time_Now E) (\<lambda>t'. ret (st\<lparr>LastDepthLog := t'\<rparr>)))
     else ret st)"

text \<open>One tick of \<open>Run\<close>. \<open>hb\<close> says whether the heartbeat has reported its end; an error
  ends the tick.\<close>

definition scheduler_tick ::
    "env \<Rightarrow> leader_lock \<Rightarrow> (nat \<Rightarrow> bool) \<Rightarrow> bool \<Rightarrow> sched_state \<Rightarrow> (tick_end \<times> sched_state) handler" where
  "scheduler_tick E l canc hb st0 =
     (let st = (if HeartbeatOn st0 \<and> hb then st0\<lparr>HeartbeatOn := False\<rparr> else st0);
          stop = (\<lambda>s e. bind (on_error canc e) (\<lambda>x. ret (x, s))) in
      bind (result_of (IsLeader E l)) (\<lambda>r.
      case r of
        Inl e \<Rightarrow> stop st e
      | Inr isLeader \<Rightarrow>
          bind (result_of (if isLeader then ret True else Acquire E l)) (\<lambda>a.
          case a of
            Inl e \<Rightarrow> stop st e
          | Inr leading \<Rightarrow>
              if \<not> leading then ret (Continue, st)
              else
                (let st = startHeartbeat st in
                 bind (time_Now E) (\<lambda>now.
                 bind (result_of (scheduler_PromoteDue E now)) (\<lambda>p.
                 case p of
                   Inl e \<Rightarrow> stop st e
                 | Inr _ \<Rightarrow>
                     bind (result_of (TickCronJobs E now)) (\<lambda>c.
                     case c of
                       Inl e \<Rightarrow> stop st e
                     | Inr _ \<Rightarrow>
                         bind (reconcile_if_due E canc st) (\<lambda>(x, st').
                         case x of
                           Return c \<Rightarrow> ret (Return c, st')
                         | Continue \<Rightarrow> bind (depth_if_due E st') (\<lambda>st''. ret (Continue, st'')))))))))) "

text \<open>\<open>Run\<close> over the events its \<open>select\<close> receives. Other processes, the heartbeat among
  them, act between the events. The deferred calls run when the loop ends: the heartbeat is
  cancelled and the lock released, if it is still owned.\<close>

datatype sched_event = CtxDone | Ticker bool | Meanwhile "world \<Rightarrow> world"

definition zero_time :: time where "zero_time = - 62135596800 * second"

fun sched_loop ::
    "env \<Rightarrow> leader_lock \<Rightarrow> (nat \<Rightarrow> bool) \<Rightarrow> sched_event list \<Rightarrow> sched_state
      \<Rightarrow> (goerr option option \<times> sched_state) handler" where
  "sched_loop E l canc [] st = ret (None, st)"
| "sched_loop E l canc (CtxDone # evs) st = ret (Some (Some Canceled), st)"
| "sched_loop E l canc (Meanwhile f # evs) st = (\<lambda>w. sched_loop E l canc evs st (f w))"
| "sched_loop E l canc (Ticker hb # evs) st =
     bind (scheduler_tick E l canc hb st) (\<lambda>(x, st').
     case x of Return c \<Rightarrow> ret (Some c, st') | Continue \<Rightarrow> sched_loop E l canc evs st')"

definition releaseLeadership :: "env \<Rightarrow> leader_lock \<Rightarrow> unit handler" where
  "releaseLeadership E l = ignore (Release E l)"

definition sched_Run ::
    "env \<Rightarrow> leader_lock \<Rightarrow> (nat \<Rightarrow> bool) \<Rightarrow> sched_event list \<Rightarrow> (goerr option option \<times> sched_state) handler" where
  "sched_Run E l canc evs =
     bind (sched_loop E l canc evs \<lparr>LastReconcile = zero_time, LastDepthLog = zero_time, HeartbeatOn = False\<rparr>) (\<lambda>(r, st).
     case r of
       None \<Rightarrow> ret (None, st)
     | Some c \<Rightarrow> bind (releaseLeadership E l) (\<lambda>_. ret (Some c, stopHeartbeat st)))"

end
