(* ===== verification/Limiter.thy ===== *)
theory Limiter
  imports World GoStrings Retry
begin

text \<open>
  \<open>internal/ratelimit\<close>: the sliding-window limiter, a Lua script on one sorted set per
  client whose members are the admitted requests scored by their arrival time in
  milliseconds.
\<close>

record limiter =
  LmLimit :: int
  LmWindow :: int

definition New_limiter :: "int \<Rightarrow> int \<Rightarrow> limiter" where
  "New_limiter limit window =
     \<lparr>LmLimit = (if limit \<le> 0 then 1 else limit),
      LmWindow = (if window \<le> 0 then 60 * second else window)\<rparr>"

text \<open>The script: evict, count, admit or refuse; both branches refresh the key's expiry.\<close>

definition rateLimitScript ::
    "redis_srv \<Rightarrow> string \<Rightarrow> int \<Rightarrow> int \<Rightarrow> int \<Rightarrow> string \<Rightarrow> redis \<Rightarrow> (int \<times> int) \<times> redis" where
  "rateLimitScript S key now window limit member s =
     (let s1 = ZREMRANGEBYSCORE S key 0 (now - window) s;
          count = ZCARD S key s1 in
      if count < limit then
        (let s2 = ZPEXPIRE S key window (ZADD S key now member s1) in ((1, ZPTTL S key s2), s2))
      else
        (let s2 = ZPEXPIRE S key window s1 in ((0, ZPTTL S key s2), s2)))"

definition rate_key :: "string \<Rightarrow> string" where
  "rate_key clientID = ''rate_limit:'' @ clientID"

definition Allow :: "env \<Rightarrow> limiter \<Rightarrow> string \<Rightarrow> (bool \<times> int) handler" where
  "Allow E l clientID =
     (let windowMillis = (if LmWindow l div 1000000 \<le> 0 then 60000 else LmWindow l div 1000000) in
      bind (time_Now E) (\<lambda>t.
      bind (rand_Draw E) (\<lambda>r.
      let nowMillis = t div 1000000; member = FormatInt nowMillis @ ''-'' @ FormatInt r in
      bind (rcall E (\<lambda>S. rateLimitScript S (rate_key clientID) nowMillis windowMillis (LmLimit l) member)) (\<lambda>(allowedInt, ttlMillis).
      let ttl = ttlMillis * 1000000 in
      ret (allowedInt = 1, if ttl \<le> 0 then LmWindow l else ttl)))))"

end
