(* ===== verification/ApiKey.thy ===== *)
theory ApiKey
  imports World
begin

text \<open>
  \<open>internal/apikey\<close>: generation and hashing of API keys. The random bytes and SHA-256 are
  the standard library's cryptography, parameters of the environment; the hexadecimal
  encoding is modelled, because the round trip from \<open>cmd/apikey\<close> to the \<open>Authorization\<close>
  header depends on it: a raw key must survive the trimming of the header.
\<close>

section \<open>Package encoding/hex\<close>

definition hex_digit :: "nat \<Rightarrow> char" where
  "hex_digit n = (if n < 10 then char_of (48 + n) else char_of (87 + n))"

fun EncodeToString :: "string \<Rightarrow> string" where
  "EncodeToString [] = []"
| "EncodeToString (c # s) =
     hex_digit (of_char c div 16) # hex_digit (of_char c mod 16) # EncodeToString s"

section \<open>Keys\<close>

definition keyBytes :: nat where "keyBytes = 32"

definition Hash :: "env \<Rightarrow> string \<Rightarrow> string" where
  "Hash E rawKey = EncodeToString (Sum256 E rawKey)"

definition rand_Read :: "env \<Rightarrow> nat \<Rightarrow> string handler" where
  "rand_Read E n w = (crypto_Read E (calls w) n, tick w)"

definition Generate :: "env \<Rightarrow> (string \<times> string) handler" where
  "Generate E =
     bind (rand_Read E keyBytes) (\<lambda>randomBytes.
     let rawKey = EncodeToString randomBytes in ret (rawKey, Hash E rawKey))"

section \<open>The encoding\<close>

lemma length_EncodeToString [simp]: "length (EncodeToString s) = 2 * length s"
  by (induction s) auto

lemma EncodeToString_Nil_iff [simp]: "EncodeToString s = [] \<longleftrightarrow> s = []"
  by (cases s) auto

lemma hex_digit_code: "n < 16 \<Longrightarrow> of_char (hex_digit n) = (if n < 10 then 48 + n else 87 + n)"
  by (simp add: hex_digit_def)

lemma hex_digit_inj: "m < 16 \<Longrightarrow> n < 16 \<Longrightarrow> hex_digit m = hex_digit n \<Longrightarrow> m = n"
  by (drule arg_cong [where f = "of_char :: char \<Rightarrow> nat"]) (auto simp: hex_digit_code split: if_splits)

lemma of_char_less_256: "(of_char c :: nat) < 256"
  by simp

lemma nibbles [simp]: "(of_char c :: nat) div 16 < 16" "(of_char c :: nat) mod 16 < 16"
  using of_char_less_256 [of c] by linarith+

lemma EncodeToString_inj: "EncodeToString s = EncodeToString t \<Longrightarrow> s = t"
proof (induction s arbitrary: t)
  case Nil
  then show ?case by (cases t) auto
next
  case (Cons c s)
  then obtain d t' where t: "t = d # t'" by (cases t) auto
  have "(of_char c :: nat) div 16 = of_char d div 16" "(of_char c :: nat) mod 16 = of_char d mod 16"
    using Cons.prems unfolding t by (auto intro: hex_digit_inj [OF nibbles(1) nibbles(1)] hex_digit_inj [OF nibbles(2) nibbles(2)])
  then have "(of_char c :: nat) = of_char d" by (metis div_mult_mod_eq)
  then show ?case using Cons t by simp
qed

text \<open>The codes of the characters of an encoded string: digits and the letters a to f.\<close>

lemma set_EncodeToString:
  "c \<in> set (EncodeToString s) \<Longrightarrow> (of_char c :: nat) \<in> {48..57} \<union> {97..102}"
proof (induction s)
  case Nil
  then show ?case by simp
next
  case (Cons b s)
  have code: "n < 16 \<Longrightarrow> (of_char (hex_digit n) :: nat) \<in> {48..57} \<union> {97..102}" for n
    by (simp add: hex_digit_code)
  show ?case using Cons code [OF nibbles(1) [of b]] code [OF nibbles(2) [of b]] by auto
qed

end
