(* ===== verification/API.thy ===== *)
theory API
  imports Scheduler Limiter ApiKey
begin

text \<open>
  \<open>cmd/api\<close> and \<open>internal/api\<close>: the HTTP handlers, their validation and the middleware in
  front of them. A handler returns the response it writes; bodies are the values the JSON
  encoder is given. The outcome of decoding a request body is an input.
\<close>

section \<open>Responses and request bodies\<close>

datatype body = BError string string | BJobID uuid | BJob job | BJobs "job list"
  | BCronID int | BText string | BEmpty

record response =
  RpStatus :: int
  RpHeaders :: "(string \<times> string) list"
  RpBody :: body

definition json_header :: "(string \<times> string) list" where
  "json_header = [(''Content-Type'', ''application/json'')]"

definition respond :: "int \<Rightarrow> body \<Rightarrow> response" where
  "respond st b = \<lparr>RpStatus = st, RpHeaders = json_header, RpBody = b\<rparr>"

definition WriteError :: "int \<Rightarrow> string \<Rightarrow> string \<Rightarrow> response" where
  "WriteError st code msg = respond st (BError code msg)"

definition no_content :: response where
  "no_content = \<lparr>RpStatus = 204, RpHeaders = [], RpBody = BEmpty\<rparr>"

definition invalid_request :: "string \<Rightarrow> response" where
  "invalid_request msg = WriteError 400 ''INVALID_REQUEST'' msg"

definition server_error :: "string \<Rightarrow> response" where
  "server_error msg = WriteError 500 ''INTERNAL_SERVER_ERROR'' msg"

text \<open>What the two \<open>Decode\<close> calls give: the limit is hit, the first value is malformed, or
  a value and whether the input ends there.\<close>

datatype 'a decode = DecTooLarge | DecMalformed | DecOk 'a bool

definition decodeJSONBody :: "'a decode \<Rightarrow> string \<Rightarrow> response + 'a" where
  "decodeJSONBody d malformedMsg =
     (case d of
        DecTooLarge \<Rightarrow> Inl (WriteError 413 ''REQUEST_TOO_LARGE'' ''request body exceeds 1 MiB'')
      | DecMalformed \<Rightarrow> Inl (invalid_request malformedMsg)
      | DecOk x eof \<Rightarrow> if eof then Inr x else Inl (invalid_request malformedMsg))"

section \<open>Validation\<close>

definition defaultJobListLimit :: int where "defaultJobListLimit = 20"
definition maxJobListLimit :: int where "maxJobListLimit = 100"
definition maxBodyBytes :: int where "maxBodyBytes = 1048576"
definition maxTypeLen :: int where "maxTypeLen = 128"
definition maxIdempotencyLen :: int where "maxIdempotencyLen = 128"
definition maxAttemptsLimit :: int where "maxAttemptsLimit = 100"

definition isPrivateHost :: "string \<Rightarrow> bool" where
  "isPrivateHost h0 =
     (let host = ToLower (TrimSpace h0) in
      host = ''localhost'' \<or> host = ''127.0.0.1'' \<or> host = ''::1''
      \<or> has_suffix host ''.local'' \<or> has_suffix host ''.internal''
      \<or> has_prefix host ''10.'' \<or> has_prefix host ''192.168.''
      \<or> (has_prefix host ''172.'' \<and>
          (let parts = Split host (CHR ''.'') in
           2 \<le> length parts \<and>
           (case Atoi (parts ! 1) of None \<Rightarrow> False | Some n \<Rightarrow> 16 \<le> n \<and> n \<le> 31)))
      \<or> host = ''169.254.169.254'' \<or> host = ''metadata.google.internal'')"

definition validateCallbackURL :: "env \<Rightarrow> bool \<Rightarrow> string \<Rightarrow> unit handler" where
  "validateCallbackURL E allowPrivate raw =
     (case url_Parse E (TrimSpace raw) of
        None \<Rightarrow> fail (Err ''callback_url must be a valid absolute URL'')
      | Some u \<Rightarrow>
          if \<not> IsAbs u \<or> Host u = '''' then fail (Err ''callback_url must be a valid absolute URL'')
          else if Scheme u \<noteq> ''http'' \<and> Scheme u \<noteq> ''https''
          then fail (Err ''callback_url must use http or https'')
          else if \<not> allowPrivate \<and> isPrivateHost (Hostname u)
          then fail (Err ''callback_url must not target internal hosts'')
          else bind (result_of (ValidateCallbackURL E \<lparr>AllowPrivateIPs = allowPrivate\<rparr> raw)) (\<lambda>r.
            case r of
              Inr _ \<Rightarrow> ret ()
            | Inl e \<Rightarrow>
                if errors_Is e ErrPrivateAddress \<or> errors_Is e ErrBlockedHost
                then fail (Err ''callback_url must not target internal hosts'')
                else if errors_Is e ErrInvalidURL
                then fail (Err ''callback_url must be a valid absolute URL'')
                else ret ()))"

definition validateCreateJobRequest :: "env \<Rightarrow> bool \<Rightarrow> create_input \<Rightarrow> unit handler" where
  "validateCreateJobRequest E allowPrivate req =
     (if TrimSpace (InType req) = '''' then fail (Err ''type is required'')
      else if maxTypeLen < int (length (InType req)) then fail (Err ''type must be at most 128 characters'')
      else if InPayload req = '''' \<or> maxBodyBytes < int (length (InPayload req)) \<or> \<not> json_Valid E (InPayload req)
      then fail (Err ''payload must be valid JSON'')
      else if InMaxAttempts req \<le> 0 \<or> maxAttemptsLimit < InMaxAttempts req
      then fail (Err ''max_attempts must be between 1 and 100'')
      else if TrimSpace (InIdempotencyKey req) = '''' then fail (Err ''idempotency_key is required'')
      else if maxIdempotencyLen < int (length (InIdempotencyKey req))
      then fail (Err ''idempotency_key must be at most 128 characters'')
      else case InCallbackURL req of
          None \<Rightarrow> fail (Err ''callback_url is required'')
        | Some u \<Rightarrow> if TrimSpace u = '''' then fail (Err ''callback_url is required'')
                    else validateCallbackURL E allowPrivate u)"

text \<open>\<open>json.Unmarshal\<close> into \<open>any\<close> gives unordered objects; \<open>Unmarshal\<close> of the
  environment returns them with sorted keys, so \<open>reflect.DeepEqual\<close> is equality.\<close>

definition jsonPayloadEqual :: "env \<Rightarrow> string \<Rightarrow> string \<Rightarrow> bool" where
  "jsonPayloadEqual E a b =
     (case Unmarshal E a of
        None \<Rightarrow> a = b
      | Some va \<Rightarrow> (case Unmarshal E b of None \<Rightarrow> a = b | Some vb \<Rightarrow> va = vb))"

definition same_request :: "env \<Rightarrow> job \<Rightarrow> create_input \<Rightarrow> bool" where
  "same_request E j req \<longleftrightarrow> Type j = InType req \<and> jsonPayloadEqual E (Payload j) (InPayload req)
     \<and> MaxAttempts j = InMaxAttempts req \<and> CallbackURL j = InCallbackURL req"

section \<open>Job handlers\<close>

text \<open>Lines 124-176 of \<open>CreateJob\<close>: hand the committed job to Redis.\<close>

definition dispatch_created :: "env \<Rightarrow> create_input \<Rightarrow> uuid \<Rightarrow> response handler" where
  "dispatch_created E req jobID =
     bind (ignore (Increment E JobsSubmittedKey)) (\<lambda>_.
     bind (time_Now E) (\<lambda>now.
     bind (result_of
       (if now < InRunAt req
        then ScheduleJob E (uuid_String E jobID) (InPayload req) 1 (InRunAt req)
        else bind (EnqueueDue E (uuid_String E jobID) (InPayload req) 1) (\<lambda>_. ret ()))) (\<lambda>q.
     case q of
       Inl _ \<Rightarrow> ret (server_error ''failed to schedule job'')
     | Inr _ \<Rightarrow>
         bind (ignore (DeleteOutboxEntries E [jobID])) (\<lambda>_.
         ret (respond 201 (BJobID jobID))))))"

text \<open>Lines 178-217: a key that is already taken.\<close>

definition replay_created :: "env \<Rightarrow> create_input \<Rightarrow> response handler" where
  "replay_created E req =
     bind (result_of (GetByIdempotencyKey E (InIdempotencyKey req))) (\<lambda>l.
     case l of
       Inl _ \<Rightarrow> ret (server_error ''failed to retrieve existing job'')
     | Inr j \<Rightarrow>
         if \<not> same_request E j req
         then ret (WriteError 409 ''IDEMPOTENCY_KEY_CONFLICT''
           ''idempotency key already used with different parameters'')
         else ret (respond 200 (BJobID (ID j))))"

definition CreateJob :: "env \<Rightarrow> bool \<Rightarrow> create_input decode \<Rightarrow> response handler" where
  "CreateJob E allowPrivate bdy =
     (case decodeJSONBody bdy ''invalid request body'' of
        Inl resp \<Rightarrow> ret resp
      | Inr req \<Rightarrow>
          bind (result_of (validateCreateJobRequest E allowPrivate req)) (\<lambda>v.
          case v of
            Inl e \<Rightarrow> ret (invalid_request (Error e))
          | Inr _ \<Rightarrow>
              bind (result_of (Create E req)) (\<lambda>c.
              case c of
                Inr jobID \<Rightarrow> dispatch_created E req jobID
              | Inl e \<Rightarrow>
                  if errors_Is e ErrConflict then replay_created E req
                  else ret (server_error ''failed to create job''))))"

definition GetJob :: "env \<Rightarrow> string \<Rightarrow> response handler" where
  "GetJob E pathID =
     (case uuid_Parse E pathID of
        None \<Rightarrow> ret (invalid_request ''invalid job id'')
      | Some i \<Rightarrow>
          bind (result_of (GetByID E i)) (\<lambda>r.
          case r of
            Inl e \<Rightarrow> if errors_Is e ErrNotFound then ret (WriteError 404 ''NOT_FOUND'' ''job not found'')
                     else ret (server_error ''failed to retrieve job'')
          | Inr j \<Rightarrow> ret (respond 200 (BJob j))))"

text \<open>The \<open>limit\<close> and \<open>offset\<close> parameters of both list handlers; an absent parameter is the
  empty string.\<close>

definition parse_page :: "string \<Rightarrow> string \<Rightarrow> response + int \<times> int" where
  "parse_page lim off =
     (let lim_ok = (if lim = '''' then Some defaultJobListLimit
            else case Atoi lim of None \<Rightarrow> None | Some n \<Rightarrow> if n \<le> 0 then None else Some n);
          off_ok = (if off = '''' then Some 0
            else case Atoi off of None \<Rightarrow> None | Some n \<Rightarrow> if n < 0 then None else Some n) in
      case lim_ok of
        None \<Rightarrow> Inl (invalid_request ''limit must be a positive integer'')
      | Some l \<Rightarrow> (case off_ok of
          None \<Rightarrow> Inl (invalid_request ''offset must be a non-negative integer'')
        | Some f \<Rightarrow> Inr (if maxJobListLimit < l then maxJobListLimit else l, f)))"

definition ListJobs :: "env \<Rightarrow> string \<Rightarrow> string \<Rightarrow> string \<Rightarrow> response handler" where
  "ListJobs E st lim off =
     (case parse_page lim off of
        Inl resp \<Rightarrow> ret resp
      | Inr (l, f) \<Rightarrow>
          bind (result_of (if st = '''' then List E l f else ListByStatus E st l f)) (\<lambda>r.
          case r of
            Inl e \<Rightarrow> if Contains (Error e) ''invalid job status'' then ret (invalid_request (Error e))
                     else ret (server_error ''failed to list jobs'')
          | Inr js \<Rightarrow> ret (respond 200 (BJobs js))))"

definition DeleteJob :: "env \<Rightarrow> string \<Rightarrow> response handler" where
  "DeleteJob E pathID =
     (case uuid_Parse E pathID of
        None \<Rightarrow> ret (invalid_request ''invalid job id'')
      | Some i \<Rightarrow>
          bind (result_of (Cancel E i)) (\<lambda>r.
          case r of
            Inl e \<Rightarrow>
              if errors_Is e ErrNotFound then ret (WriteError 404 ''NOT_FOUND'' ''job not found'')
              else if errors_Is e ErrNotCancellable
              then ret (WriteError 409 ''CONFLICT'' ''job cannot be cancelled in its current state'')
              else ret (server_error ''failed to cancel job'')
          | Inr _ \<Rightarrow>
              bind (ignore (RemoveScheduled E (uuid_String E i))) (\<lambda>_. ret no_content)))"

definition ListDeadLetters :: "env \<Rightarrow> string \<Rightarrow> string \<Rightarrow> response handler" where
  "ListDeadLetters E lim off =
     (case parse_page lim off of
        Inl resp \<Rightarrow> ret resp
      | Inr (l, f) \<Rightarrow>
          bind (result_of (ListByStatus E StatusDead l f)) (\<lambda>r.
          case r of
            Inl e \<Rightarrow> ret (server_error ''failed to list dead-lettered jobs'')
          | Inr js \<Rightarrow> ret (respond 200 (BJobs js))))"

text \<open>Lines 638-680 of \<open>RetryJob\<close>: hand the revived job to Redis.\<close>

definition dispatch_retried :: "env \<Rightarrow> uuid \<Rightarrow> response handler" where
  "dispatch_retried E i =
     bind (result_of (GetByID E i)) (\<lambda>g.
     case g of
       Inl _ \<Rightarrow> ret (server_error ''failed to retrieve retried job'')
     | Inr j \<Rightarrow>
         bind (result_of (EnqueueDue E (uuid_String E (ID j)) (Payload j) (QueueGeneration j))) (\<lambda>q.
         case q of
           Inl _ \<Rightarrow> ret (server_error ''failed to enqueue retried job'')
         | Inr _ \<Rightarrow>
             bind (ignore (DeleteOutboxEntries E [ID j])) (\<lambda>_. ret (respond 200 (BJob j)))))"

definition RetryJob :: "env \<Rightarrow> string \<Rightarrow> response handler" where
  "RetryJob E pathID =
     (case uuid_Parse E pathID of
        None \<Rightarrow> ret (invalid_request ''invalid job id'')
      | Some i \<Rightarrow>
          bind (result_of (GetByID E i)) (\<lambda>r.
          case r of
            Inl e \<Rightarrow> if errors_Is e ErrNotFound then ret (WriteError 404 ''NOT_FOUND'' ''job not found'')
                     else ret (server_error ''failed to retrieve job'')
          | Inr j0 \<Rightarrow>
              if Status j0 \<noteq> Dead then ret (WriteError 409 ''CONFLICT'' ''only dead jobs can be retried'')
              else
                bind (result_of (Retry E i)) (\<lambda>t.
                case t of
                  Inl e \<Rightarrow>
                    if errors_Is e ErrNotFound then ret (WriteError 404 ''NOT_FOUND'' ''job not found'')
                    else if errors_Is e ErrNotCancellable
                    then ret (WriteError 409 ''CONFLICT'' ''only dead jobs can be retried'')
                    else ret (server_error ''failed to retry job'')
                | Inr _ \<Rightarrow> dispatch_retried E i)))"

section \<open>Cron handlers\<close>

record create_cron_request =
  CqExpression :: string
  CqTemplate :: string

definition CreateCronJob :: "env \<Rightarrow> bool \<Rightarrow> create_cron_request decode \<Rightarrow> response handler" where
  "CreateCronJob E allowPrivate bdy =
     (case decodeJSONBody bdy ''invalid JSON body'' of
        Inl resp \<Rightarrow> ret resp
      | Inr req \<Rightarrow>
          if TrimSpace (CqExpression req) = '''' then ret (invalid_request ''cron_expression is required'')
          else if CqTemplate req = '''' \<or> CqTemplate req = ''null''
          then ret (invalid_request ''job_template is required'')
          else if \<not> json_Valid E (CqTemplate req)
          then ret (invalid_request ''job_template must be valid JSON'')
          else case template_of E (CqTemplate req) of
              None \<Rightarrow> ret (invalid_request ''job_template must be a valid object'')
            | Some tpl \<Rightarrow>
                if TrimSpace (TplType tpl) = '''' \<or> maxTypeLen < int (length (TplType tpl))
                   \<or> TplPayload tpl = '''' \<or> TplMaxAttempts tpl \<le> 0 \<or> maxAttemptsLimit < TplMaxAttempts tpl
                then ret (invalid_request
                  ''job_template must include type (max 128 chars), payload, and max_attempts (1-100)'')
                else case TplCallbackURL tpl of
                    None \<Rightarrow> ret (invalid_request ''job_template.callback_url is required'')
                  | Some u \<Rightarrow>
                      if TrimSpace u = '''' then ret (invalid_request ''job_template.callback_url is required'')
                      else
                        bind (result_of (validateCallbackURL E allowPrivate u)) (\<lambda>v.
                        case v of
                          Inl e \<Rightarrow> ret (invalid_request (Error e))
                        | Inr _ \<Rightarrow>
                            bind (time_Now E) (\<lambda>now.
                            case cron_NextRunAt E (CqExpression req) now of
                              Inl e \<Rightarrow> ret (invalid_request (Error e))
                            | Inr nextRunAt \<Rightarrow>
                                bind (result_of (CreateCron E \<lparr>CiExpression = CqExpression req,
                                  CiTemplate = CqTemplate req, CiNextRunAt = nextRunAt, CiEnabled = True\<rparr>)) (\<lambda>c.
                                case c of
                                  Inl _ \<Rightarrow> ret (server_error ''failed to create cron job'')
                                | Inr cj \<Rightarrow> ret (respond 201 (BCronID (CrID cj)))))))"

definition UpdateCronJob :: "env \<Rightarrow> string \<Rightarrow> bool option decode \<Rightarrow> response handler" where
  "UpdateCronJob E pathID bdy =
     (case ParseInt pathID of
        None \<Rightarrow> ret (invalid_request ''invalid cron job id'')
      | Some i \<Rightarrow>
          if i \<le> 0 then ret (invalid_request ''invalid cron job id'')
          else case decodeJSONBody bdy ''invalid JSON body'' of
              Inl resp \<Rightarrow> ret resp
            | Inr None \<Rightarrow> ret (invalid_request ''enabled is required'')
            | Inr (Some enabled) \<Rightarrow>
                bind (result_of (UpdateEnabled E i enabled)) (\<lambda>r.
                case r of
                  Inl e \<Rightarrow> if errors_Is e ErrNotFound then ret (WriteError 404 ''NOT_FOUND'' ''cron job not found'')
                           else ret (server_error ''failed to update cron job'')
                | Inr _ \<Rightarrow> ret no_content))"

section \<open>Middleware\<close>

record http_in =
  RqAuthorization :: string
  RqForwardedFor :: string
  RqRemoteAddr :: string

definition GetAPIKeyByHash :: "env \<Rightarrow> string \<Rightarrow> api_key handler" where
  "GetAPIKeyByHash E hashedKey = not_found ''failed to retrieve API key''
     (scan_row (sql E PgStmt (\<lambda>_ d. Inr (find (\<lambda>k. AkHashedKey k = hashedKey) (api_keys d), d))))"

text \<open>The context value the next handler receives is the id of the key.\<close>

definition APIKeyAuth :: "env \<Rightarrow> http_in \<Rightarrow> (string \<Rightarrow> response handler) \<Rightarrow> response handler" where
  "APIKeyAuth E r nxt =
     (let unauthorized = (\<lambda>msg. ret (WriteError 401 ''UNAUTHORIZED'' msg)) in
      if RqAuthorization r = '''' then unauthorized ''missing authorization header''
      else if \<not> has_prefix (RqAuthorization r) ''Bearer ''
      then unauthorized ''invalid authorization header''
      else
        (let rawkey = TrimSpace (TrimPrefix (RqAuthorization r) ''Bearer '') in
         if rawkey = '''' then unauthorized ''invalid authorization header''
         else
           bind (result_of (GetAPIKeyByHash E (Hash E rawkey))) (\<lambda>k.
           case k of
             Inl e \<Rightarrow> if errors_Is e ErrNotFound then unauthorized ''invalid API key''
                      else ret (server_error ''failed to authenticate request'')
           | Inr key \<Rightarrow>
               if AkRevokedAt key \<noteq> None then unauthorized ''API key has been revoked''
               else nxt (uuid_String E (AkID key)))))"

definition retry_after :: "int \<Rightarrow> int" where
  "retry_after ttl = max 1 (ttl div 1000000000)"

definition limited :: "env \<Rightarrow> limiter \<Rightarrow> string \<Rightarrow> response handler \<Rightarrow> response handler" where
  "limited E l bucket nxt =
     bind (result_of (Allow E l bucket)) (\<lambda>r.
     case r of
       Inl _ \<Rightarrow> ret (server_error ''rate limiter failure'')
     | Inr (allowed, ttl) \<Rightarrow>
         if allowed then nxt
         else ret (let e = WriteError 429 ''RATE_LIMIT_EXCEEDED'' ''rate limit exceeded'' in
           e\<lparr>RpHeaders := (''Retry-After'', FormatInt (retry_after ttl)) # RpHeaders e\<rparr>))"

definition RateLimit :: "env \<Rightarrow> limiter \<Rightarrow> string option \<Rightarrow> response handler \<Rightarrow> response handler" where
  "RateLimit E l keyID nxt =
     (case keyID of
        None \<Rightarrow> ret (WriteError 401 ''UNAUTHORIZED'' ''client identity missing'')
      | Some k \<Rightarrow> limited E l (''key:'' @ k) nxt)"

text \<open>\<open>net.SplitHostPort\<close>: the host part, if the address has the form \<open>host:port\<close> or
  \<open>[host]:port\<close>.\<close>

definition SplitHostPort :: "string \<Rightarrow> string option" where
  "SplitHostPort a =
     (if CHR '':'' \<notin> set a then None
      else
        (let pre = rev (tl (dropWhile (\<lambda>c. c \<noteq> CHR '':'') (rev a)));
             port = rev (takeWhile (\<lambda>c. c \<noteq> CHR '':'') (rev a)) in
         if has_prefix a ''['' then
           (let h = takeWhile (\<lambda>c. c \<noteq> CHR '']'') (drop 1 a) in
            if pre = ''['' @ h @ '']'' \<and> CHR ''['' \<notin> set h \<and> CHR ''['' \<notin> set port \<and> CHR '']'' \<notin> set port
            then Some h else None)
         else if CHR '':'' \<in> set pre \<or> CHR ''['' \<in> set a \<or> CHR '']'' \<in> set a then None
         else Some pre))"

definition clientIP :: "http_in \<Rightarrow> string" where
  "clientIP r =
     (let first = TrimSpace (Cut (RqForwardedFor r) (CHR '','')) in
      if RqForwardedFor r \<noteq> '''' \<and> first \<noteq> '''' then first
      else case SplitHostPort (RqRemoteAddr r) of
          Some host \<Rightarrow> host
        | None \<Rightarrow> if TrimSpace (RqRemoteAddr r) \<noteq> '''' then TrimSpace (RqRemoteAddr r) else ''unknown'')"

definition IPRateLimit :: "env \<Rightarrow> limiter option \<Rightarrow> http_in \<Rightarrow> response handler \<Rightarrow> response handler" where
  "IPRateLimit E l r nxt =
     (case l of None \<Rightarrow> nxt | Some lm \<Rightarrow> limited E lm (''ip:'' @ clientIP r) nxt)"

section \<open>Router\<close>

text \<open>The authenticated routes of \<open>Server\<close>; a request carries the decoded body of its route.\<close>

datatype route =
    PostJobs "create_input decode" | GetJobRoute string | ListJobsRoute string string string
  | DeleteJobRoute string | DeadLettersRoute string string | RetryRoute string
  | PostCron "create_cron_request decode" | PatchCron string "bool option decode"

definition handle_route :: "env \<Rightarrow> bool \<Rightarrow> route \<Rightarrow> response handler" where
  "handle_route E allowPrivate rt =
     (case rt of
        PostJobs b \<Rightarrow> CreateJob E allowPrivate b
      | GetJobRoute i \<Rightarrow> GetJob E i
      | ListJobsRoute st l f \<Rightarrow> ListJobs E st l f
      | DeleteJobRoute i \<Rightarrow> DeleteJob E i
      | DeadLettersRoute l f \<Rightarrow> ListDeadLetters E l f
      | RetryRoute i \<Rightarrow> RetryJob E i
      | PostCron b \<Rightarrow> CreateCronJob E allowPrivate b
      | PatchCron i b \<Rightarrow> UpdateCronJob E i b)"

definition Server ::
    "env \<Rightarrow> bool \<Rightarrow> limiter \<Rightarrow> limiter option \<Rightarrow> http_in \<Rightarrow> route \<Rightarrow> response handler" where
  "Server E allowPrivate lm ipLimiter r rt =
     IPRateLimit E ipLimiter r
       (APIKeyAuth E r (\<lambda>keyID. RateLimit E lm (Some keyID) (handle_route E allowPrivate rt)))"

end
