(* ===== verification/PlatformInv.thy ===== *)
theory PlatformInv
  imports WorkerInv API
begin

text \<open>
  The API handlers and the scheduler preserve the invariant of the platform as well. The
  transactions that create or revive a job write the outbox row together with the job row,
  so that the job is held by the outbox at the moment it becomes visible.
\<close>

section \<open>Transactions\<close>

text \<open>After a failing statement the transaction is dead: nothing it does can be committed.\<close>

definition aborted :: "(tables \<Rightarrow> redis \<Rightarrow> bool) \<Rightarrow> world \<Rightarrow> bool" where
  "aborted P w \<longleftrightarrow> (\<exists>v. txn w = Some (v, True)) \<and> holds P w"

lemma aborted_holds: "aborted P w \<Longrightarrow> holds P w"
  by (simp add: aborted_def)

lemma valid_tx_sql_abort:
  assumes "\<And>v d s t a v'. P v d s \<Longrightarrow> f t v = Inr (a, v') \<Longrightarrow> Q a v' d s"
    and "\<And>v d s. P v d s \<Longrightarrow> R d s"
  shows "valid (in_tx P) (tx_sql E f) (post (\<lambda>a. in_tx (Q a)) (aborted R))"
proof (rule validI)
  fix w r w'
  assume "in_tx P w" and run: "tx_sql E f w = (r, w')"
  then obtain v where v: "txn w = Some (v, False)" "P v (db w) (rd w)" by (auto simp: in_tx_def)
  show "post (\<lambda>a. in_tx (Q a)) (aborted R) r w'"
  proof (cases "f (clock_at E (calls w)) v")
    case (Inl e)
    with run v assms(2) [OF v(2)] show ?thesis
      by (auto simp: tx_sql_def holds_def aborted_def split: fault.splits)
  next
    case (Inr p)
    obtain a v' where p: "p = (a, v')" by fastforce
    with run v Inr assms(1) [OF v(2) Inr [unfolded p]] assms(2) [OF v(2)] show ?thesis
      by (auto simp: tx_sql_def holds_def in_tx_def aborted_def split: fault.splits)
  qed
qed

lemma valid_tx_sql_aborted:
  "valid (aborted P) (tx_sql E f) (post Q (aborted P))"
  by (rule validI) (auto simp: aborted_def tx_sql_def holds_def)

lemma valid_tx_commit_aborted:
  "valid (aborted P) (tx_commit E) (post Q (holds P))"
  by (rule validI) (auto simp: aborted_def tx_commit_def)

lemma valid_in_tx_fail: "(\<And>v d s. P v d s \<Longrightarrow> R d s) \<Longrightarrow> valid (in_tx P) (fail e) (post Q (holds R))"
  by (rule validI) (auto simp: in_tx_def holds_def)

lemma valid_in_tx_now:
  "valid (in_tx P) (time_Now E) (post (\<lambda>_. in_tx P) R)" "valid (in_tx P) (uuid_New E) (post (\<lambda>_. in_tx P) R)"
  by (simp_all add: valid_def time_Now_def uuid_New_def in_tx_def)

lemma valid_in_tx_pre:
  assumes "valid (in_tx P') m Q" and "\<And>v d s. P v d s \<Longrightarrow> P' v d s"
  shows "valid (in_tx P) m Q"
  by (rule valid_pre [OF assms(1)]) (auto simp: in_tx_def assms(2))

section \<open>Outbox rows\<close>

text \<open>The tables between the statement that makes a job runnable and the one that writes its
  outbox row: the job is the only one that nothing holds.\<close>

definition pending_row :: "env \<Rightarrow> uuid \<Rightarrow> int \<Rightarrow> tables \<Rightarrow> redis \<Rightarrow> bool" where
  "pending_row E i g d s \<longleftrightarrow> db_inv d \<and> (reliable E \<longrightarrow> stream_wf s \<and>
     (\<forall>j\<in>set (jobs d). if ID j = i then QueueGeneration j = g \<and> Status j \<noteq> Running
        else job_tracked E (outbox_keys d) s j))"

lemma upsert_effect:
  assumes "upsert_outbox e d = Inr (u, d')"
  shows "jobs d' = jobs d" "executions d' = executions d"
    "(ObJobID e, ObGeneration e) \<in> outbox_keys d'"
    "k \<in> outbox_keys d \<Longrightarrow> fst k \<noteq> ObJobID e \<Longrightarrow> k \<in> outbox_keys d'"
proof -
  have "jobs d' = jobs d \<and> executions d' = executions d \<and> (ObJobID e, ObGeneration e) \<in> outbox_keys d'
    \<and> (k \<in> outbox_keys d \<longrightarrow> fst k \<noteq> ObJobID e \<longrightarrow> k \<in> outbox_keys d')"
  proof (cases "ObJobID e \<in> ObJobID ` set (outbox d)")
    case True
    with assms have d': "d' = d\<lparr>outbox := update_where (\<lambda>x. ObJobID x = ObJobID e) (\<lambda>_. e) (outbox d)\<rparr>"
      by (simp add: upsert_outbox_def split: if_splits)
    from True obtain x where "x \<in> set (outbox d)" "ObJobID x = ObJobID e" by auto
    then have "e \<in> set (outbox d')" by (force simp: d' set_update_where)
    moreover have "y \<in> set (outbox d')" if "y \<in> set (outbox d)" "ObJobID y \<noteq> ObJobID e" for y
      using that by (force simp: d' set_update_where)
    ultimately show ?thesis by (force simp: d' outbox_keys_def)
  next
    case False
    with assms show ?thesis by (auto simp: upsert_outbox_def outbox_keys_def split: if_splits)
  qed
  then show "jobs d' = jobs d" "executions d' = executions d"
    "(ObJobID e, ObGeneration e) \<in> outbox_keys d'"
    "k \<in> outbox_keys d \<Longrightarrow> fst k \<noteq> ObJobID e \<Longrightarrow> k \<in> outbox_keys d'" by blast+
qed

lemma upsert_inv:
  assumes p: "pending_row E i g d s" and up: "upsert_outbox e d = Inr (u, d')"
    and e: "ObJobID e = i" "ObGeneration e = g"
  shows "platform_inv E d' s"
proof -
  have "schema_ok d" using p by (simp add: pending_row_def db_inv_def)
  then have "schema_ok d'" by (rule upsert_outbox_ok [OF up])
  then have "db_inv d'"
    using p upsert_effect(1,2) [OF up] by (auto simp: pending_row_def db_inv_def done_ok_def completed_def)
  moreover have "job_tracked E (outbox_keys d') s j" if "reliable E" "j \<in> set (jobs d')" for j
  proof (cases "ID j = i")
    case True
    then have "job_key j \<in> outbox_keys d'" "Status j \<noteq> Running"
      using p that upsert_effect(1,3) [OF up] e by (auto simp: pending_row_def job_key_def)
    then show ?thesis by (simp add: job_tracked_def)
  next
    case False
    then have "job_tracked E (outbox_keys d) s j"
      using p that upsert_effect(1) [OF up] by (simp add: pending_row_def)
    moreover have "job_key j \<in> outbox_keys d \<Longrightarrow> job_key j \<in> outbox_keys d'"
      using upsert_effect(4) [OF up] False e by (simp add: job_key_def)
    ultimately show ?thesis unfolding job_tracked_def by blast
  qed
  ultimately show ?thesis using p by (auto simp: platform_inv_def pending_row_def tracked_def)
qed

definition at_gen :: "env \<Rightarrow> uuid \<Rightarrow> int \<Rightarrow> tables \<Rightarrow> bool" where
  "at_gen E i g d \<longleftrightarrow> (reliable E \<longrightarrow> (\<forall>j\<in>set (jobs d). ID j = i \<longrightarrow> QueueGeneration j = g))"

lemma upsert_at_gen:
  "pending_row E i g d s \<Longrightarrow> upsert_outbox e d = Inr (u, d') \<Longrightarrow> at_gen E i g d'"
  using upsert_effect(1) [of e d u d'] by (auto simp: at_gen_def pending_row_def)

lemma valid_insertOutboxTx:
  "valid (in_tx (\<lambda>v d s. platform_inv E d s \<and> pending_row E i g v s)) (insertOutboxTx E i g t kind)
     (post (\<lambda>_. in_tx (\<lambda>v d s. platform_inv E d s \<and> platform_inv E v s \<and> at_gen E i g v)) (holds (platform_inv E)))"
proof (cases "kind \<noteq> OutboxImmediate \<and> kind \<noteq> OutboxScheduled")
  case True
  show ?thesis unfolding insertOutboxTx_def if_P [OF True] by (rule valid_in_tx_fail) simp
next
  case False
  show ?thesis unfolding insertOutboxTx_def if_not_P [OF False]
    by (rule valid_wrap, rule valid_tx_sql) (auto elim: upsert_inv upsert_at_gen)
qed

section \<open>New jobs\<close>

lemma insert_job_run:
  "insert_job j d = Inr (i, d') \<Longrightarrow> i = ID j \<and> d' = d\<lparr>jobs := jobs d @ [j]\<rparr> \<and> ID j \<notin> ID ` set (jobs d)
     \<and> 0 < MaxAttempts j"
  by (simp add: insert_job_def max_attempts_check_def split: if_splits)

lemma insert_pending:
  assumes inv: "platform_inv E d s" and ins: "insert_job (new_job E i0 st inp now) d = Inr (i, d')"
    and st: "st = Pending \<or> st = Scheduled"
  shows "pending_row E i 1 d' s"
proof -
  let ?j = "new_job E i0 st inp now"
  note run = insert_job_run [OF ins]
  have "schema_ok d'" by (rule insert_job_ok [OF ins platform_invD(2) [OF inv]]) (simp add: new_job_def)
  moreover have "life_ok ?j" "done_ok d' ?j" "QueueGeneration ?j = 1" "Status ?j \<noteq> Running"
    using st run by (auto simp: life_ok_def done_ok_def new_job_def)
  moreover have "done_ok d' x = done_ok d x" "outbox_keys d' = outbox_keys d" for x
    using run by (auto simp: done_ok_def completed_def outbox_keys_def)
  moreover have "\<forall>x\<in>set (jobs d). ID x \<noteq> i" using run by (auto simp: image_iff)
  ultimately show ?thesis
    using platform_invD [OF inv] run unfolding pending_row_def db_inv_def tracked_def by auto
qed

lemma valid_Create:
  "valid (holds (platform_inv E)) (Create E inp)
     (post (\<lambda>i. holds (\<lambda>d s. platform_inv E d s \<and> at_gen E i 1 d)) (holds (platform_inv E)))"
proof (cases "validateCreateJobInput E inp")
  case (Some e)
  then show ?thesis by (simp add: Create_def valid_def)
next
  case None
  let ?I = "platform_inv E"
  let ?B = "\<lambda>v d s. v = d \<and> ?I d s"
  let ?P = "\<lambda>i v d s. ?I d s \<and> pending_row E i 1 v s"
  let ?D = "\<lambda>k v d s. ?I d s \<and> ?I v s \<and> at_gen E k 1 v"
  let ?C = "\<lambda>k d s. ?I d s \<and> at_gen E k 1 d"
  have ins: "valid (in_tx ?B) (tx_sql E (\<lambda>_. insert_job (new_job E i Pending inp now)))
      (post (\<lambda>k. in_tx (?P k)) (holds ?I))" for i now
    by (rule valid_tx_sql) (auto intro: insert_pending)
  have commit: "valid (in_tx (?D k)) (bind (wrap msg (tx_commit E)) (\<lambda>_. ret k)) (post (\<lambda>k. holds (?C k)) (holds ?I))"
    for msg and k :: uuid
    by (rule valid_bind [OF valid_wrap [OF valid_tx_commit [where Q = "?C k"]]]) (auto intro: valid_ret)
  have tail: "valid (in_tx (?P k)) (bind (insertOutboxTx E k 1 t kd) (\<lambda>_. bind (wrap msg (tx_commit E)) (\<lambda>_. ret k)))
      (post (\<lambda>k. holds (?C k)) (holds ?I))" for k t kd msg
    by (rule valid_bind [OF valid_insertOutboxTx commit])
  have begin_tx: "valid (holds ?I) (tx_begin E) (post (\<lambda>_. in_tx ?B) (holds ?I))"
    by (rule valid_tx_begin) auto
  show ?thesis
    unfolding Create_def None option.case
  proof (rule valid_bindH [OF valid_uuid_New], assumption, rule valid_bindH [OF valid_time_Now], assumption,
      rule valid_with_rollback, rule valid_bind [OF valid_wrap [OF begin_tx]], rule valid_bind [OF valid_result_of [OF ins]])
    fix i now r
    show "valid (post (\<lambda>k. in_tx (?P k)) (holds ?I) r) (case r of
        Inl e \<Rightarrow> if e = PgUnique ''jobs_idempotency_key_key'' then fail ErrConflict
                 else fail (Wrap ''failed to create job'' e)
      | Inr jobID \<Rightarrow> bind (insertOutboxTx E jobID 1 (InRunAt inp)
            (if now < InRunAt inp then OutboxScheduled else OutboxImmediate)) (\<lambda>_.
          bind (wrap ''commit create job transaction'' (tx_commit E)) (\<lambda>_. ret jobID)))
      (post (\<lambda>k. holds (?C k)) (holds ?I))"
    proof (cases r)
      case (Inl e)
      then show ?thesis by (simp add: valid_def)
    next
      case (Inr k)
      then show ?thesis using tail [of k] by (simp add: post_def [abs_def])
    qed
  qed
qed

section \<open>Retry and Cancel\<close>

lemma retry_pending:
  assumes inv: "platform_inv E d s" and j: "job_of i d = Some j" and dead: "Status j = Dead"
  shows "pending_row E i (QueueGeneration j + 1) (set_job i (retry_job now) d) s"
proof -
  let ?d = "set_job i (retry_job now) d"
  have ok: "schema_ok ?d" by (rule retry.schema_ok_set_job [OF platform_invD(2) [OF inv]])
  have "0 < MaxAttempts j"
    using platform_inv_job(3) [OF inv j] by (simp add: job_ok_def max_attempts_check_def)
  then have new: "life_ok (retry_job now j)" "done_ok d (retry_job now j)" "Status (retry_job now j) \<noteq> Running"
    "QueueGeneration (retry_job now j) = QueueGeneration j + 1" "ID (retry_job now j) = i"
    using job_ofD [OF j] by (auto simp: retry_job_def life_ok_def done_ok_def)
  have old: "x \<in> set (jobs ?d) \<Longrightarrow> x = retry_job now j \<or> (x \<in> set (jobs d) \<and> ID x \<noteq> i)" for x
  proof -
    assume x: "x \<in> set (jobs ?d)"
    from job_of_unique [OF ok x] have "job_of (ID x) ?d = Some x" .
    then have "ID x = i \<Longrightarrow> x = retry_job now j" using j by (simp add: retry.job_of_set_job)
    then show ?thesis using set_job_members [OF platform_invD(2) [OF inv] j x] new by auto
  qed
  have same: "done_ok ?d x = done_ok d x" "outbox_keys ?d = outbox_keys d" for x
    by (simp_all add: done_ok_def outbox_keys_def)
  have "life_ok x \<and> done_ok ?d x" if "x \<in> set (jobs ?d)" for x
    using old [OF that] new platform_invD(1) [OF inv] by (auto simp: same db_inv_def)
  moreover have "if ID x = i then QueueGeneration x = QueueGeneration j + 1 \<and> Status x \<noteq> Running
      else job_tracked E (outbox_keys ?d) s x" if "x \<in> set (jobs ?d)" "reliable E" for x
    using old [OF that(1)] new platform_invD(4) [OF inv that(2)] by (auto simp: same tracked_def)
  ultimately show ?thesis
    using ok platform_invD(3) [OF inv] by (simp add: pending_row_def db_inv_def)
qed

lemma retry_update_run:
  assumes "platform_inv E v s"
    and "update_returning (row_in Dead i) (\<lambda>_. retry_job now) QueueGeneration t v = Inr (r, v')"
  shows "case r of None \<Rightarrow> v' = v | Some g \<Rightarrow> pending_row E i g v' s"
proof -
  have "update_returning (row_in Dead i) (\<lambda>_. retry_job now) QueueGeneration t v
      = update_returning (row_in Dead i) retry_job QueueGeneration now v" by (simp add: update_returning_def)
  with assms show ?thesis
    using retry.update_returning_run [OF platform_invD(2) [OF assms(1)], where i = i and col = QueueGeneration and t = now]
      retry_pending [OF assms(1), of i _ now]
    by (auto simp: row_in_def retry_job_def split: option.splits if_splits)
qed

lemma valid_retry_update:
  "valid (in_tx (\<lambda>v d s. v = d \<and> platform_inv E d s))
     (scan_row (tx_sql E (update_returning (row_in Dead i) (\<lambda>_. retry_job now) QueueGeneration)))
     (post (\<lambda>g. in_tx (\<lambda>v d s. platform_inv E d s \<and> pending_row E i g v s)) (holds (platform_inv E)))"
proof (rule valid_scan_row)
  have "valid (in_tx (\<lambda>v d s. v = d \<and> platform_inv E d s))
      (tx_sql E (update_returning (row_in Dead i) (\<lambda>_. retry_job now) QueueGeneration))
      (post (\<lambda>r. in_tx (\<lambda>v d s. platform_inv E d s \<and> (case r of None \<Rightarrow> v = d | Some g \<Rightarrow> pending_row E i g v s)))
        (holds (platform_inv E)))"
    by (rule valid_tx_sql) (use retry_update_run in \<open>fastforce split: option.splits\<close>)+
  then show "valid (in_tx (\<lambda>v d s. v = d \<and> platform_inv E d s))
      (tx_sql E (update_returning (row_in Dead i) (\<lambda>_. retry_job now) QueueGeneration))
      (post (\<lambda>r w. case r of None \<Rightarrow> holds (platform_inv E) w
         | Some g \<Rightarrow> in_tx (\<lambda>v d s. platform_inv E d s \<and> pending_row E i g v s) w) (holds (platform_inv E)))"
    by (rule valid_conseq) (auto simp: post_def in_tx_def holds_def split: sum.splits option.splits)
qed

lemma valid_Retry:
  "valid (holds (platform_inv E)) (Retry E i) (post (\<lambda>_. holds (platform_inv E)) (holds (platform_inv E)))"
proof -
  let ?I = "platform_inv E"
  have commit: "valid (in_tx (\<lambda>v d s. ?I d s \<and> ?I v s \<and> at_gen E i g v)) (wrap msg (tx_commit E))
      (post (\<lambda>_. holds ?I) (holds ?I))" for msg g
    by (rule valid_wrap [OF valid_tx_commit]) auto
  have begin_tx: "valid (holds ?I) (tx_begin E) (post (\<lambda>_. in_tx (\<lambda>v d s. v = d \<and> ?I d s)) (holds ?I))"
    by (rule valid_tx_begin) auto
  have fails: "valid (holds ?I) (fail e :: unit handler) (post (\<lambda>_. holds ?I) (holds ?I))" for e
    by (rule valid_fail_H)
  show ?thesis
    unfolding Retry_def
    by (rule valid_with_rollback, rule valid_bind [OF valid_wrap [OF begin_tx]],
        rule valid_bind [OF valid_in_tx_now(1)], rule valid_bind [OF valid_result_of [OF valid_retry_update]],
        rule valid_case_sum, simp only: post_simps, rule valid_if,
        rule valid_bindH [OF valid_look], rule valid_case_sum [where P = "\<lambda>_. holds ?I"], rule valid_if, rule fails, rule fails,
        rule fails, rule fails, simp only: post_simps, rule valid_bind [OF valid_insertOutboxTx commit])
qed

lemma cancel_inv:
  assumes "platform_inv E d s" and "job_of i d = Some j"
  shows "platform_inv E (set_job i (cancel_job t) d) s"
proof (rule platform_inv_set_job [OF assms])
  show "schema_ok (set_job i (cancel_job t) d)"
    by (rule cancel.schema_ok_set_job [OF platform_invD(2) [OF assms(1)]])
qed (use platform_inv_job [OF assms] in \<open>auto simp: cancel_job_def life_ok_def done_ok_def job_tracked_def\<close>)

definition job_closed :: "uuid \<Rightarrow> tables \<Rightarrow> bool" where
  "job_closed i d \<longleftrightarrow> (\<forall>j. job_of i d = Some j \<longrightarrow> Status j = Cancelled)"

lemma valid_Cancel:
  "valid (holds (platform_inv E)) (Cancel E i)
     (post (\<lambda>_. holds (\<lambda>d s. platform_inv E d s \<and> job_closed i d)) (holds (platform_inv E)))"
proof -
  let ?I = "platform_inv E"
  let ?B = "\<lambda>v d s. v = d \<and> ?I d s"
  let ?J = "\<lambda>j v d s. ?I d s \<and> ?I v s \<and> job_of i v = Some j"
  let ?D = "\<lambda>v d s. ?I d s \<and> ?I v s \<and> job_closed i v"
  have sel: "valid (in_tx ?B) (scan_row (tx_sql E (select_job (\<lambda>j. ID j = i)))) (post (\<lambda>j. in_tx (?J j)) (holds ?I))"
  proof (rule valid_scan_row)
    have "valid (in_tx ?B) (tx_sql E (select_job (\<lambda>j. ID j = i)))
        (post (\<lambda>r. in_tx (\<lambda>v d s. ?I d s \<and> ?I v s \<and> job_of i v = r)) (holds ?I))"
      by (rule valid_tx_sql) (auto simp: select_job_def find_job)
    then show "valid (in_tx ?B) (tx_sql E (select_job (\<lambda>j. ID j = i)))
        (post (\<lambda>r w. case r of None \<Rightarrow> holds ?I w | Some j \<Rightarrow> in_tx (?J j) w) (holds ?I))"
      by (rule valid_conseq) (auto simp: post_def in_tx_def holds_def split: sum.splits option.splits)
  qed
  have upd: "valid (in_tx (?J j)) (tx_sql E (update_jobs (any_row i) (\<lambda>_. cancel_job now)))
      (post (\<lambda>_. in_tx ?D) (holds ?I))" for j now
  proof (rule valid_tx_sql)
    fix v d s t a v'
    assume J: "?J j v d s" and run: "update_jobs (any_row i) (\<lambda>_. cancel_job now) t v = Inr (a, v')"
    have "v' = set_job i (cancel_job now) v"
      using run by (auto simp: update_jobs_def set_job_def any_row_def [abs_def])
    then show "?D v' d s"
      using J cancel_inv [of E v s i j now] by (auto simp: job_closed_def cancel.job_of_set_job cancel_job_def)
  qed auto
  have commit: "valid (in_tx ?D) (wrap msg (tx_commit E))
      (post (\<lambda>_. holds (\<lambda>d s. ?I d s \<and> job_closed i d)) (holds ?I))" for msg
    by (rule valid_wrap [OF valid_tx_commit]) auto
  have begin_tx: "valid (holds ?I) (tx_begin E) (post (\<lambda>_. in_tx ?B) (holds ?I))"
    by (rule valid_tx_begin) auto
  have body: "valid (in_tx (?J j)) (if Status j \<noteq> Pending \<and> Status j \<noteq> Scheduled then fail ErrNotCancellable
      else bind (time_Now E) (\<lambda>now. bind (wrap ''failed to cancel job''
            (tx_sql E (update_jobs (any_row i) (\<lambda>_. cancel_job now)))) (\<lambda>_.
          wrap ''failed to commit job cancellation'' (tx_commit E))))
      (post (\<lambda>_. holds (\<lambda>d s. ?I d s \<and> job_closed i d)) (holds ?I))" for j
    by (rule valid_if, rule valid_in_tx_fail, simp,
        rule valid_bind [OF valid_in_tx_now(1)], rule valid_bind [OF valid_wrap [OF upd] commit])
  show ?thesis
    unfolding Cancel_def
    by (rule valid_with_rollback, rule valid_bind [OF valid_wrap [OF begin_tx]],
        rule valid_bind [OF valid_not_found [OF sel] body])
qed

end
