(* ===== verification/HandlerInv.thy ===== *)
theory HandlerInv
  imports PlatformInv
begin

text \<open>
  The remaining handlers of the scheduler and of the API preserve the invariant of the
  platform: the dispatch of a committed job to Redis, which may drop the outbox row once the
  job is in a queue, the reconciler, the promotion, the cron tick and the routes of the server.
\<close>

section \<open>Handing a job to Redis\<close>

text \<open>The job can be taken out of the outbox: if it waits, a queue holds it.\<close>

definition queued :: "env \<Rightarrow> uuid \<Rightarrow> tables \<Rightarrow> redis \<Rightarrow> bool" where
  "queued E i d s \<longleftrightarrow> (reliable E \<longrightarrow> (\<forall>j\<in>set (jobs d). ID j = i \<longrightarrow> Status j \<in> {Pending, Scheduled}
     \<longrightarrow> QueueGeneration j < gen_bound \<longrightarrow> job_key j \<in> outbox_keys d \<longrightarrow> job_key j \<in> ready_keys E s \<union> delayed_keys E s))"

lemma drop_outbox_simps [simp]:
  "jobs (drop_outbox ids d) = jobs d" "executions (drop_outbox ids d) = executions d"
  "execution_seq (drop_outbox ids d) = execution_seq d"
  by (simp_all add: drop_outbox_def)

lemma schema_ok_drop_outbox: "schema_ok d \<Longrightarrow> schema_ok (drop_outbox ids d)"
  by (auto simp: schema_ok_def outbox_ok_def distinct_map_filter) (auto simp: drop_outbox_def distinct_map_filter)

lemma drop_outbox_inv:
  assumes inv: "platform_inv E d s" and q: "queued E i d s"
  shows "platform_inv E (drop_outbox [i] d) s"
proof -
  have keep: "k \<in> outbox_keys d \<Longrightarrow> fst k \<noteq> i \<Longrightarrow> k \<in> outbox_keys (drop_outbox [i] d)" for k
    by (force simp: outbox_keys_def drop_outbox_def)
  have "job_tracked E (outbox_keys (drop_outbox [i] d)) s j" if "j \<in> set (jobs d)" "reliable E" for j
  proof (cases "ID j = i")
    case True
    with q that show ?thesis
      using platform_invD(4) [OF inv that(2)] by (auto simp: queued_def job_tracked_def tracked_def)
  next
    case False
    then show ?thesis
      using platform_invD(4) [OF inv that(2)] keep [of "job_key j"] that(1)
      unfolding job_tracked_def tracked_def by (simp add: job_key_def) blast
  qed
  moreover have "done_ok (drop_outbox [i] d) j = done_ok d j" for j
    by (simp add: done_ok_def completed_def)
  ultimately show ?thesis
    using platform_invD [OF inv] schema_ok_drop_outbox [of d "[i]"]
    by (simp add: platform_inv_def db_inv_def tracked_def)
qed

lemma valid_drop_outbox:
  assumes "\<And>d. C d \<Longrightarrow> C (drop_outbox [i] d)"
  shows "valid (holds (\<lambda>d s. platform_inv E d s \<and> queued E i d s \<and> C d)) (ignore (DeleteOutboxEntries E [i]))
     (post (\<lambda>_. holds (\<lambda>d s. platform_inv E d s \<and> C d)) (holds R))"
  by (rule valid_ignore, rule valid_DeleteOutboxEntries) (auto intro: drop_outbox_inv assms)

lemma schedule_queued:
  assumes inv: "platform_inv E d s" and at: "at_gen E i g d" and g: "1 \<le> g"
  shows "platform_inv E d (snd (schedule_script (srv E) (uuid_String E i) sc (sched_Marshal E p g) s))"
    and "queued E i d (snd (schedule_script (srv E) (uuid_String E i) sc (sched_Marshal E p g) s))"
proof -
  let ?s = "snd (schedule_script (srv E) (uuid_String E i) sc (sched_Marshal E p g) s)"
  have mine: "job_key x \<in> delayed_keys E ?s"
    if "reliable E" "x \<in> set (jobs d)" "ID x = i" "QueueGeneration x < gen_bound" for x
    using that at schedule_key [OF that(1) g, of i sc p s] by (auto simp: at_gen_def job_key_def)
  show "platform_inv E d ?s"
  proof (rule platform_inv_qstep [OF inv schedule_effect])
    show "job_key x \<in> ready_keys E ?s" if "reliable E" "job_key x \<in> ready_keys E s" for x
      using qstep_ready [OF schedule_effect [OF that(1)] platform_invD(3) [OF inv that(1)] that(2)] by simp
    show "job_key x \<in> outbox_keys d \<union> ready_keys E ?s \<union> delayed_keys E ?s"
      if "reliable E" "x \<in> set (jobs d)" "QueueGeneration x < gen_bound" "job_key x \<in> {i} \<times> UNIV" for x
      using mine [OF that(1,2) _ that(3)] that(4) by (simp add: job_key_def)
  qed
  show "queued E i d ?s" using mine by (simp add: queued_def)
qed

lemma enqueue_queued:
  assumes inv: "platform_inv E d s" and at: "at_gen E i g d" and g: "1 \<le> g"
  shows "platform_inv E d (snd (XADD (srv E) ReadyStream 100000 (ready_fields (uuid_String E i) p (FormatInt g)) s))"
    and "queued E i d (snd (XADD (srv E) ReadyStream 100000 (ready_fields (uuid_String E i) p (FormatInt g)) s))"
proof -
  show "platform_inv E d (snd (XADD (srv E) ReadyStream 100000 (ready_fields (uuid_String E i) p (FormatInt g)) s))"
    by (rule platform_inv_keep [OF inv enqueue_effect]) (rule reliableD(1))
  show "queued E i d (snd (XADD (srv E) ReadyStream 100000 (ready_fields (uuid_String E i) p (FormatInt g)) s))"
    using enqueue_key [OF _ platform_invD(3) [OF inv] g] at by (auto simp: queued_def at_gen_def job_key_def)
qed

lemma valid_ScheduleJob:
  assumes "1 \<le> g"
  shows "valid (holds (\<lambda>d s. platform_inv E d s \<and> at_gen E i g d \<and> C d)) (ScheduleJob E (uuid_String E i) p g t)
    (post (\<lambda>_. holds (\<lambda>d s. platform_inv E d s \<and> queued E i d s \<and> C d)) (holds (\<lambda>d s. platform_inv E d s \<and> C d)))"
  unfolding ScheduleJob_def
  by (rule valid_wrap, rule valid_rcallQ) (use schedule_queued [OF _ _ assms] in blast)+

lemma valid_EnqueueDue:
  assumes "1 \<le> g"
  shows "valid (holds (\<lambda>d s. platform_inv E d s \<and> at_gen E i g d \<and> C d)) (EnqueueDue E (uuid_String E i) p g)
    (post (\<lambda>_. holds (\<lambda>d s. platform_inv E d s \<and> queued E i d s \<and> C d)) (holds (\<lambda>d s. platform_inv E d s \<and> C d)))"
  unfolding EnqueueDue_def
  by (rule valid_wrap, rule valid_rcallQ) (use enqueue_queued [OF _ _ assms] in blast)+

lemma valid_dispatch:
  assumes "1 \<le> g"
  shows "valid (holds (\<lambda>d s. platform_inv E d s \<and> at_gen E i g d \<and> C d))
    (if b then ScheduleJob E (uuid_String E i) p g t
     else bind (EnqueueDue E (uuid_String E i) p g) (\<lambda>_. ret ()))
    (post (\<lambda>_. holds (\<lambda>d s. platform_inv E d s \<and> queued E i d s \<and> C d)) (holds (\<lambda>d s. platform_inv E d s \<and> C d)))"
proof (cases b)
  case True
  show ?thesis unfolding if_P [OF True] by (rule valid_ScheduleJob [OF assms])
next
  case False
  show ?thesis unfolding if_not_P [OF False]
    by (rule valid_bindH [OF valid_EnqueueDue [OF assms]]) (rule valid_ret_H)
qed

section \<open>The reconciler\<close>

text \<open>While a batch of claimed entries is worked through, the rows of the entries still to
  come stay as they were claimed.\<close>

definition claimed :: "outbox_entry list \<Rightarrow> tables \<Rightarrow> bool" where
  "claimed es d \<longleftrightarrow> (\<forall>e\<in>set es. \<forall>x\<in>set (outbox d). ObJobID x = ObJobID e \<longrightarrow> ObGeneration x = ObGeneration e)"

lemma claimed_drop: "claimed es d \<Longrightarrow> claimed es (drop_outbox ids d)"
  by (simp add: claimed_def drop_outbox_def)

lemma valid_result_of_any: "valid P m Q \<Longrightarrow> valid P (result_of m) (post Q R)"
  by (auto simp: valid_def result_of_def split: prod.splits)

text \<open>What is known once the job of entry \<open>e\<close> has been read.\<close>

definition entry_read :: "env \<Rightarrow> outbox_entry \<Rightarrow> outbox_entry list \<Rightarrow> job \<Rightarrow> tables \<Rightarrow> redis \<Rightarrow> bool" where
  "entry_read E e es j d s \<longleftrightarrow> platform_inv E d s \<and> claimed (e # es) d \<and> job_of (ObJobID e) d = Some j"

lemma entry_gone:
  assumes "entry_read E e es j d s" and "Status j \<notin> {Pending, Scheduled} \<or> QueueGeneration j \<noteq> ObGeneration e"
  shows "queued E (ObJobID e) d s"
proof -
  have "x = j" if "x \<in> set (jobs d)" "ID x = ObJobID e" for x
    using job_of_unique [OF platform_invD(2) that(1), of E s] that(2) assms(1) by (simp add: entry_read_def)
  moreover have "job_key j \<in> outbox_keys d \<Longrightarrow> QueueGeneration j = ObGeneration e"
    using assms(1) job_ofD [of "ObJobID e" d j] by (auto simp: entry_read_def claimed_def outbox_keys_def job_key_def)
  ultimately show ?thesis using assms(2) by (auto simp: queued_def)
qed

lemma entry_current:
  assumes "entry_read E e es j d s" and "QueueGeneration j = ObGeneration e"
  shows "at_gen E (ObJobID e) (ObGeneration e) d" "1 \<le> ObGeneration e" "ID j = ObJobID e"
  using job_of_unique [OF platform_invD(2) [of E d s]] assms platform_inv_job(3) [of E d s "ObJobID e" j]
    job_ofD [of "ObJobID e" d j]
  by (auto simp: entry_read_def at_gen_def job_ok_def) fastforce

lemma valid_drop_entry:
  "valid (holds (\<lambda>d s. platform_inv E d s \<and> queued E (ObJobID e) d s \<and> claimed (e # es) d))
     (bind (ignore (DeleteOutboxEntries E [ObJobID e])) (\<lambda>_. ret b))
     (post (\<lambda>_. holds (\<lambda>d s. platform_inv E d s \<and> claimed (e # es) d)) (holds (\<lambda>d s. platform_inv E d s \<and> claimed (e # es) d)))"
  by (rule valid_bindH [OF valid_drop_outbox [where C = "claimed (e # es)"]]) (auto intro: claimed_drop valid_ret_H)

lemma valid_GetByID_entry:
  "valid (holds (\<lambda>d s. platform_inv E d s \<and> claimed (e # es) d)) (GetByID E (ObJobID e)) (\<lambda>r w. case r of
      Inl err \<Rightarrow> (if errors_Is err ErrNotFound
        then holds (\<lambda>d s. platform_inv E d s \<and> queued E (ObJobID e) d s \<and> claimed (e # es) d) w
        else holds (\<lambda>d s. platform_inv E d s \<and> claimed (e # es) d) w)
    | Inr j \<Rightarrow> holds (entry_read E e es j) w)"
proof -
  have "job_of (ObJobID e) d = None \<Longrightarrow> queued E (ObJobID e) d s" for d s
    by (force simp: queued_def find_by_None_iff)
  then show ?thesis
    by (intro validI) (auto simp: GetByID_run holds_def entry_read_def split: fault.splits option.splits)
qed

lemma valid_dispatch_entry:
  assumes "QueueGeneration j = ObGeneration e"
  shows "valid (holds (entry_read E e es j))
    (bind (if b then ScheduleJob E (uuid_String E (ID j)) p (ObGeneration e) t
           else bind (EnqueueDue E (uuid_String E (ID j)) p (ObGeneration e)) (\<lambda>_. ret ())) (\<lambda>_.
     bind (ignore (DeleteOutboxEntries E [ObJobID e])) (\<lambda>_. ret True)))
    (post (\<lambda>_. holds (\<lambda>d s. platform_inv E d s \<and> claimed (e # es) d)) (holds (\<lambda>d s. platform_inv E d s \<and> claimed (e # es) d)))"
proof (cases "1 \<le> ObGeneration e \<and> ID j = ObJobID e")
  case True
  then have id: "ID j = ObJobID e" and g: "1 \<le> ObGeneration e" by auto
  show ?thesis unfolding id
    by (rule valid_preH [OF valid_bindH [OF valid_dispatch [OF g, where C = "claimed (e # es)"] valid_drop_entry]])
       (use entry_current(1) [OF _ assms] in \<open>auto simp: entry_read_def\<close>)
next
  case False
  then show ?thesis by (intro valid_False) (use entry_current(2,3) [OF _ assms] in blast)
qed

lemma valid_reconcile_entry:
  "valid (holds (\<lambda>d s. platform_inv E d s \<and> claimed (e # es) d)) (reconcile_entry E now e)
     (post (\<lambda>_. holds (\<lambda>d s. platform_inv E d s \<and> claimed es d)) (holds (platform_inv E)))"
proof -
  let ?I = "\<lambda>d s. platform_inv E d s \<and> claimed (e # es) d"
  have gone: "platform_inv E d s \<and> queued E (ObJobID e) d s \<and> claimed (e # es) d"
    if "entry_read E e es j d s" "Status j \<notin> {Pending, Scheduled} \<or> QueueGeneration j \<noteq> ObGeneration e" for j d s
    using that entry_gone [OF that] by (simp add: entry_read_def)
  have "valid (holds ?I) (reconcile_entry E now e) (post (\<lambda>_. holds ?I) (holds ?I))"
    unfolding reconcile_entry_def
    by (rule valid_bind [OF valid_result_of_any [OF valid_GetByID_entry]], rule valid_case_sum, simp only: sum.case,
        rule valid_if, simp only: if_True, rule valid_drop_entry, simp only: if_False, rule valid_fail_H, assumption,
        simp only: sum.case, rule valid_if, rule valid_preH [OF valid_drop_entry], erule gone, simp,
        rule valid_if, rule valid_preH [OF valid_drop_entry], erule gone, simp,
        rule valid_dispatch_entry, simp)
  then show ?thesis by (rule valid_conseqH) (auto simp: claimed_def)
qed

lemma valid_reconcile_entries:
  "valid (holds (\<lambda>d s. platform_inv E d s \<and> claimed es d)) (reconcile_entries E now es n)
     (post (\<lambda>_. holds (platform_inv E)) (holds (platform_inv E)))"
proof (induction es arbitrary: n)
  case Nil
  then show ?case unfolding reconcile_entries.simps by (rule valid_ret_H) simp
next
  case (Cons e es)
  show ?case unfolding reconcile_entries.simps by (rule valid_bindH [OF valid_reconcile_entry Cons.IH])
qed

lemma valid_ReconcileOutbox:
  "valid (holds (platform_inv E)) (ReconcileOutbox E grace)
     (post (\<lambda>_. holds (platform_inv E)) (holds (platform_inv E)))"
proof -
  let ?I = "platform_inv E"
  have claim: "valid (holds ?I) (ClaimOutbox E lim t)
      (post (\<lambda>es. holds (\<lambda>d s. ?I d s \<and> claimed es d)) (holds ?I))" for lim t
  proof (rule valid_ClaimOutbox)
    fix d s es
    assume inv: "?I d s" and "set es \<subseteq> set (outbox d)"
    moreover have "distinct (map ObJobID (outbox d))"
      using platform_invD(2) [OF inv] by (simp add: schema_ok_def outbox_ok_def)
    ultimately have "x = e" if "e \<in> set es" "x \<in> set (outbox d)" "ObJobID x = ObJobID e" for x e
      using that by (auto simp: distinct_map dest: inj_onD)
    with inv show "?I d s \<and> claimed es d" by (auto simp: claimed_def)
  qed simp
  show ?thesis
    unfolding ReconcileOutbox_def
    by (rule valid_bindH [OF valid_time_Now], assumption, rule valid_bindH [OF claim],
        rule valid_bindH [OF valid_time_Now], assumption, rule valid_reconcile_entries)
qed

section \<open>Promotion and the leader lock\<close>

lemma valid_scheduler_PromoteDue:
  "valid (holds (platform_inv E)) (scheduler_PromoteDue E now)
     (post (\<lambda>_. holds (platform_inv E)) (holds (platform_inv E)))"
proof -
  let ?I = "platform_inv E"
  have step: "?I d (snd (promoteDueScript (srv E) (lua_fields E) t s))" if "?I d s" for d s t
  proof (rule platform_inv_moved [OF that])
    show "moved E s (snd (promoteDueScript (srv E) (lua_fields E) t s))" if "reliable E"
      unfolding promoteDueScript_def
      by (rule promote_loop_moved [OF reliableD(1) [OF that] surjective_pairing platform_invD(3) [OF \<open>?I d s\<close> that]])
  qed
  have "valid (holds ?I) (rcall E (\<lambda>S. promoteDueScript S (lua_fields E) (Unix now))) (post (\<lambda>_. holds ?I) (holds ?I))"
    by (rule valid_rcallQ) (use step in auto)
  then have "valid (holds ?I) (lift_reply (rcall E (\<lambda>S. promoteDueScript S (lua_fields E) (Unix now))))
      (post (\<lambda>_. holds ?I) (holds ?I))"
    by (intro valid_lift_reply) (erule valid_conseq, auto simp: post_def split: sum.splits)
  then show ?thesis
    unfolding scheduler_PromoteDue_def PromoteDueWithIDs_def
    by (rule valid_bindH [OF valid_wrap [OF valid_wrap]]) (rule valid_ret_H)
qed

text \<open>Calls that leave the queues alone.\<close>

lemma valid_rcall_view:
  assumes "\<And>S s. redis_ok S \<Longrightarrow> queue_view (snd (f S s)) = queue_view s"
  shows "valid (holds (platform_inv E)) (rcall E f) (post (\<lambda>_. holds (platform_inv E)) (holds (platform_inv E)))"
proof (rule valid_rcallQ)
  show "platform_inv E d (snd (f (srv E) s))" if "platform_inv E d s" for d s
    by (rule platform_inv_keep [OF that qstep_view]) (rule assms [OF reliable_redis_ok])
qed auto

lemma leader_view:
  assumes "redis_ok S"
  shows "queue_view (snd (SETNX S k v t s)) = queue_view s"
    "queue_view (snd (renewScript S k v t s)) = queue_view s"
    "queue_view (snd (releaseScript S k v s)) = queue_view s"
  using assms by (auto simp: redis_ok_def string_law_def renewScript_def releaseScript_def queue_view_def split: option.splits)

lemma valid_Acquire:
  "valid (holds (platform_inv E)) (Acquire E l) (post (\<lambda>_. holds (platform_inv E)) (holds (platform_inv E)))"
  unfolding Acquire_def by (rule valid_wrap, rule valid_rcall_view) (rule leader_view)

lemma valid_Renew:
  "valid (holds (platform_inv E)) (Renew E l) (post (\<lambda>_. holds (platform_inv E)) (holds (platform_inv E)))"
  unfolding Renew_def
  by (rule valid_bindH [OF valid_wrap [OF valid_rcall_view]]) (auto intro: leader_view valid_ret_H)

lemma valid_Release:
  "valid (holds (platform_inv E)) (Release E l) (post (\<lambda>_. holds (platform_inv E)) (holds (platform_inv E)))"
  unfolding Release_def
  by (rule valid_bindH [OF valid_wrap [OF valid_rcall_view]]) (auto intro: leader_view valid_ret_H)

lemma valid_heartbeat_step:
  "valid (holds (platform_inv E)) (heartbeat_step E l) (post (\<lambda>_. holds (platform_inv E)) (holds (platform_inv E)))"
proof -
  have "valid (holds (platform_inv E)) (bind (Renew E l) (\<lambda>renewed.
        if renewed then ret () else fail (Err msg))) (post (\<lambda>_. holds (platform_inv E)) (holds (platform_inv E)))" for msg
    by (rule valid_bindH [OF valid_Renew]) (simp add: valid_def)
  then show ?thesis unfolding heartbeat_step_def by (simp add: valid_fail_H)
qed

lemma valid_IsLeader:
  "valid (holds (platform_inv E)) (IsLeader E l) (post (\<lambda>_. holds (platform_inv E)) (holds (platform_inv E)))"
proof -
  have "valid (holds (platform_inv E)) (rread E RedisRead (\<lambda>S. GET S (LkKey l)))
      (post (\<lambda>_. holds (platform_inv E)) (holds (platform_inv E)))"
    by (rule valid_rread) auto
  then show ?thesis
    unfolding IsLeader_def by (rule valid_bindH [OF valid_wrap]) (simp add: valid_def split: option.splits)
qed

section \<open>The cron tick\<close>

text \<open>The cron table is not part of the invariant.\<close>

lemma inv_cron:
  "platform_inv E (d\<lparr>cron_jobs := c\<rparr>) s = platform_inv E d s"
  "platform_inv E (d\<lparr>cron_jobs := c, cron_seq := n\<rparr>) s = platform_inv E d s"
  by (simp_all add: platform_inv_def db_inv_def schema_ok_def done_ok_def completed_def tracked_def outbox_keys_def)

lemma at_gen_cron [simp]: "at_gen E i g (d\<lparr>cron_jobs := c\<rparr>) = at_gen E i g d"
  by (simp add: at_gen_def)

text \<open>What \<open>CreateDueInstance\<close> hands to the tick: the job is committed, with the generation
  of the instance.\<close>

definition instance_made :: "env \<Rightarrow> cron_instance option \<Rightarrow> tables \<Rightarrow> redis \<Rightarrow> bool" where
  "instance_made E r d s \<longleftrightarrow> platform_inv E d s
     \<and> (\<forall>inst. r = Some inst \<longrightarrow> IiGeneration inst = 1 \<and> at_gen E (IiID inst) 1 d)"

lemma valid_skip_occurrence:
  "valid (aborted (platform_inv E)) (skip_occurrence E nextRun c)
     (post (\<lambda>r. holds (instance_made E r)) (holds (platform_inv E)))"
  unfolding skip_occurrence_def
proof (rule valid_bind [where R = "\<lambda>_. holds (platform_inv E)"])
  show "valid (aborted (platform_inv E)) (case nextRun (CrExpression c) (CrNextRunAt c) of
       Inl _ \<Rightarrow> ret ()
     | Inr nextRunAt \<Rightarrow>
         bind (result_of (advance E (CrID c) nextRunAt)) (\<lambda>_.
         bind (result_of (tx_commit E)) (\<lambda>_. ret ())))
      (post (\<lambda>_. holds (platform_inv E)) (holds (platform_inv E)))"
    by (cases "nextRun (CrExpression c) (CrNextRunAt c)"; rule validI)
       (auto simp: aborted_def advance_def tx_sql_def tx_commit_def result_of_def bind_def holds_def)
qed (rule valid_ret_H, simp add: instance_made_def)

lemma valid_commit_occurrence:
  assumes "QueueGeneration j = 1"
  shows "valid (in_tx (\<lambda>v d s. platform_inv E d s \<and> pending_row E i 1 v s)) (commit_occurrence E now nextRun c j i)
   (post (\<lambda>r. holds (instance_made E r)) (holds (platform_inv E)))"
  unfolding commit_occurrence_def assms
proof (rule valid_bind [OF valid_insertOutboxTx])
  let ?I = "platform_inv E"
  let ?D = "\<lambda>v d s. ?I d s \<and> ?I v s \<and> at_gen E i 1 v"
  let ?C = "\<lambda>d s. ?I d s \<and> at_gen E i 1 d"
  have upd: "valid (in_tx ?D) (advance E ci t) (post (\<lambda>_. in_tx ?D) (holds ?I))" for ci t
    unfolding advance_def by (rule valid_tx_sql) (auto simp: update_crons_def inv_cron)
  have commit: "valid (in_tx ?D) (tx_commit E) (post (\<lambda>_. holds ?C) (holds ?I))"
    by (rule valid_tx_commit) auto
  show "valid (in_tx ?D) (case nextRun (CrExpression c) (CrNextRunAt c) of
        Inl e \<Rightarrow> fail (Wrap ''failed to calculate next cron run'' e)
      | Inr nextRunAt \<Rightarrow>
          bind (wrap ''failed to advance cron job''
            (advance E (CrID c) (catch_up nextRun (CrExpression c) now nextRunAt))) (\<lambda>_.
          bind (wrap ''failed to commit cron tick transaction'' (tx_commit E)) (\<lambda>_.
          ret (Some \<lparr>IiID = i, IiPayload = Payload j, IiGeneration = 1\<rparr>))))
      (post (\<lambda>r. holds (instance_made E r)) (holds ?I))"
  proof (cases "nextRun (CrExpression c) (CrNextRunAt c)")
    case (Inl e)
    show ?thesis unfolding Inl sum.case by (rule valid_in_tx_fail) simp
  next
    case (Inr t)
    show ?thesis unfolding Inr sum.case
      by (rule valid_bind [OF valid_wrap [OF upd]], rule valid_bind [OF valid_wrap [OF commit]])
         (rule valid_ret_H, simp add: instance_made_def)
  qed
qed

lemma valid_insert_occurrence:
  "valid (in_tx (\<lambda>v d s. v = d \<and> platform_inv E d s)) (insert_occurrence E now nextRun c t)
     (post (\<lambda>r. holds (instance_made E r)) (holds (platform_inv E)))"
  unfolding insert_occurrence_def Let_def
proof (rule valid_bind [OF valid_in_tx_now(2)])
  let ?B = "\<lambda>v d s. v = d \<and> platform_inv E d s"
  let ?P = "\<lambda>i v d s. platform_inv E d s \<and> pending_row E i 1 v s"
  fix k
  let ?j = "new_job E k Scheduled (cron_input E c t) now"
  have ins: "valid (in_tx ?B) (tx_sql E (\<lambda>_. insert_job ?j)) (post (\<lambda>i. in_tx (?P i)) (aborted (platform_inv E)))"
    by (rule valid_tx_sql_abort) (auto intro: insert_pending)
  have gen: "QueueGeneration ?j = 1" by (simp add: new_job_def)
  show "valid (in_tx ?B) (bind (result_of (tx_sql E (\<lambda>_. insert_job ?j))) (\<lambda>ir.
     case ir of
       Inl e \<Rightarrow> if is_unique_violation e then skip_occurrence E nextRun c
                else fail (Wrap ''failed to create cron job instance'' e)
     | Inr i \<Rightarrow> commit_occurrence E now nextRun c ?j i))
     (post (\<lambda>r. holds (instance_made E r)) (holds (platform_inv E)))"
  proof (rule valid_bind [OF valid_result_of [OF ins]])
    fix r
    show "valid (post (\<lambda>i. in_tx (?P i)) (aborted (platform_inv E)) r) (case r of
       Inl e \<Rightarrow> if is_unique_violation e then skip_occurrence E nextRun c
                else fail (Wrap ''failed to create cron job instance'' e)
     | Inr i \<Rightarrow> commit_occurrence E now nextRun c ?j i)
     (post (\<lambda>r. holds (instance_made E r)) (holds (platform_inv E)))"
      using valid_skip_occurrence [of E nextRun c] valid_commit_occurrence [OF gen, of E _ now nextRun c]
        valid_pre [OF valid_fail_H aborted_holds]
      by (cases r) (auto simp: post_def [abs_def] simp del: fail_apply)
  qed
qed

lemma valid_CreateDueInstance:
  "valid (holds (platform_inv E)) (CreateDueInstance E ci now nextRun)
     (post (\<lambda>r. holds (instance_made E r)) (holds (platform_inv E)))"
proof -
  let ?I = "platform_inv E"
  let ?B = "\<lambda>v d s. v = d \<and> ?I d s"
  have begin_tx: "valid (holds ?I) (tx_begin E) (post (\<lambda>_. in_tx ?B) (holds ?I))"
    by (rule valid_tx_begin) auto
  have sel: "valid (in_tx ?B) (scan_row (tx_sql E (\<lambda>_ d. Inr (find (\<lambda>c. CrID c = ci \<and> due now c) (cron_jobs d), d))))
      (post (\<lambda>_. in_tx ?B) (holds ?I))"
  proof (rule valid_scan_row)
    have "valid (in_tx ?B) (tx_sql E (\<lambda>_ d. Inr (find (\<lambda>c. CrID c = ci \<and> due now c) (cron_jobs d), d)))
      (post (\<lambda>_. in_tx ?B) (holds ?I))" by (rule valid_tx_sql) auto
    then show "valid (in_tx ?B) (tx_sql E (\<lambda>_ d. Inr (find (\<lambda>c. CrID c = ci \<and> due now c) (cron_jobs d), d)))
      (post (\<lambda>r w. case r of None \<Rightarrow> holds ?I w | Some c \<Rightarrow> in_tx ?B w) (holds ?I))"
      by (rule valid_conseq) (auto simp: post_def in_tx_def holds_def split: sum.splits option.splits)
  qed
  have locked: "valid (in_tx ?B) (case check_template E (CrTemplate c) of Inl e \<Rightarrow> fail e
      | Inr t \<Rightarrow> insert_occurrence E now nextRun c t) (post (\<lambda>r. holds (instance_made E r)) (holds ?I))" for c
  proof (cases "check_template E (CrTemplate c)")
    case (Inl e)
    show ?thesis unfolding Inl sum.case by (rule valid_in_tx_fail) simp
  next
    case (Inr t)
    show ?thesis unfolding Inr sum.case by (rule valid_insert_occurrence)
  qed
  show ?thesis
    unfolding CreateDueInstance_def
  proof (rule valid_with_rollback, rule valid_bind [OF valid_wrap [OF begin_tx]], rule valid_bind [OF valid_result_of [OF sel]])
    fix r :: "goerr + cron_job"
    show "valid (post (\<lambda>_. in_tx ?B) (holds ?I) r) (case r of
          Inl e \<Rightarrow> if errors_Is e ErrNoRows then ret None else fail (Wrap ''failed to lock due cron job'' e)
        | Inr c \<Rightarrow> (case check_template E (CrTemplate c) of Inl e \<Rightarrow> fail e
             | Inr t \<Rightarrow> insert_occurrence E now nextRun c t))
      (post (\<lambda>r. holds (instance_made E r)) (holds ?I))"
    proof (cases r)
      case (Inl e)
      then show ?thesis by (simp add: valid_def instance_made_def holds_def)
    next
      case (Inr c)
      then show ?thesis using locked [of c] by (simp add: post_def [abs_def])
    qed
  qed
qed

lemma valid_tick_cron:
  "valid (holds (platform_inv E)) (tick_cron E now c)
     (post (\<lambda>_. holds (platform_inv E)) (holds (platform_inv E)))"
proof -
  let ?I = "platform_inv E"
  have made: "valid (holds (\<lambda>d s. ?I d s \<and> at_gen E i 1 d))
      (bind (result_of (EnqueueDue E (uuid_String E i) p 1)) (\<lambda>q. case q of
           Inl _ \<Rightarrow> ret False
         | Inr _ \<Rightarrow> bind (ignore (DeleteOutboxEntries E [i])) (\<lambda>_. ret True)))
      (post (\<lambda>_. holds ?I) (holds ?I))" for i p
  proof (rule valid_bindH [OF valid_result_ofH [OF valid_EnqueueDue [where g = 1 and C = "\<lambda>_. True", simplified]]])
    have "valid (holds (\<lambda>d s. ?I d s \<and> queued E i d s)) (bind (ignore (DeleteOutboxEntries E [i])) (\<lambda>_. ret True))
        (post (\<lambda>_. holds ?I) (holds ?I))"
      by (rule valid_bindH [OF valid_drop_outbox [where C = "\<lambda>_. True", simplified]]) (rule valid_ret_H)
    then show "valid (holds (case q of Inl e \<Rightarrow> ?I | Inr a \<Rightarrow> \<lambda>d s. ?I d s \<and> queued E i d s)) (case q of
           Inl _ \<Rightarrow> ret False
         | Inr _ \<Rightarrow> bind (ignore (DeleteOutboxEntries E [i])) (\<lambda>_. ret True))
      (post (\<lambda>_. holds ?I) (holds ?I))" for q :: "goerr + string"
      by (cases q) (simp_all add: valid_ret_H del: ret_apply)
  qed
  show ?thesis
    unfolding tick_cron_def
  proof (rule valid_bindH [OF valid_result_ofH [OF valid_CreateDueInstance]])
    fix r :: "goerr + cron_instance option"
    let ?m = "case r of
       Inl _ \<Rightarrow> ret False
     | Inr None \<Rightarrow> ret False
     | Inr (Some inst) \<Rightarrow>
         bind (result_of (EnqueueDue E (uuid_String E (IiID inst)) (IiPayload inst) (IiGeneration inst))) (\<lambda>q.
         case q of
           Inl _ \<Rightarrow> ret False
         | Inr _ \<Rightarrow> bind (ignore (DeleteOutboxEntries E [IiID inst])) (\<lambda>_. ret True))"
    show "valid (holds (case r of Inl e \<Rightarrow> ?I | Inr x \<Rightarrow> instance_made E x)) ?m (post (\<lambda>_. holds ?I) (holds ?I))"
    proof (cases "\<exists>inst. r = Inr (Some inst)")
      case False
      then show ?thesis by (auto simp: valid_def instance_made_def holds_def split: sum.splits option.splits)
    next
      case True
      then obtain inst where r: "r = Inr (Some inst)" by blast
      show ?thesis
      proof (cases "IiGeneration inst = 1")
        case True
        then show ?thesis
          using valid_preH [OF made, of "instance_made E (Some inst)" "IiID inst"]
          by (simp add: r instance_made_def)
      qed (simp add: r valid_False instance_made_def)
    qed
  qed
qed

lemma valid_tick_crons:
  "valid (holds (platform_inv E)) (tick_crons E now cs n)
     (post (\<lambda>_. holds (platform_inv E)) (holds (platform_inv E)))"
proof (induction cs arbitrary: n)
  case Nil
  then show ?case unfolding tick_crons.simps by (rule valid_ret_H)
next
  case (Cons c cs)
  show ?case unfolding tick_crons.simps by (rule valid_bindH [OF valid_tick_cron Cons.IH])
qed

lemma valid_TickCronJobs:
  "valid (holds (platform_inv E)) (TickCronJobs E now)
     (post (\<lambda>_. holds (platform_inv E)) (holds (platform_inv E)))"
proof -
  have "valid (holds (platform_inv E)) (ListDue E now) (post (\<lambda>_. holds (platform_inv E)) (holds (platform_inv E)))"
    unfolding ListDue_def by (rule valid_wrap, rule valid_sql) auto
  then show ?thesis
    unfolding TickCronJobs_def by (rule valid_bindH [OF valid_wrap valid_tick_crons])
qed

section \<open>The scheduler loop\<close>

text \<open>The shape of a handler: run a call, then go on according to its outcome.\<close>

abbreviation keeps :: "env \<Rightarrow> 'a handler \<Rightarrow> bool" where
  "keeps E m \<equiv> valid (holds (platform_inv E)) m (post (\<lambda>_. holds (platform_inv E)) (holds (platform_inv E)))"

lemma keeps_result:
  assumes "keeps E m" and "\<And>r. keeps E (f r)"
  shows "keeps E (bind (result_of m) f)"
  by (rule valid_bind [OF valid_result_of [OF assms(1)]])
     (rule valid_pre [OF assms(2)], auto simp: post_def split: sum.splits)

lemma keeps_ret: "keeps E (ret a)"
  by (rule valid_ret_H)

lemma keeps_now: "(\<And>t. keeps E (f t)) \<Longrightarrow> keeps E (bind (time_Now E) f)"
  by (rule valid_bindH [OF valid_time_Now])

lemma keeps_rread: "keeps E (rread E ch f)"
  by (rule valid_rread)

lemma keeps_lift_reply: "keeps E m \<Longrightarrow> keeps E (lift_reply m)"
  by (rule valid_lift_reply) (erule valid_conseq, auto simp: post_def split: sum.splits)

lemma keeps_QueueBacklog: "keeps E (QueueBacklog E)"
proof -
  have "keeps E (fallbackLen E k c)" for k c
    unfolding fallbackLen_def
    by (rule keeps_result [OF keeps_rread]) (auto simp: valid_def split: sum.splits option.splits)
  then show ?thesis
    unfolding QueueBacklog_def StreamBacklog_def
    by (auto simp: keeps_ret simp del: ret_apply split: sum.split option.split
        intro!: keeps_result keeps_rread keeps_lift_reply)
qed

lemma keeps_bind: "keeps E m \<Longrightarrow> (\<And>a. keeps E (f a)) \<Longrightarrow> keeps E (bind m f)"
  by (rule valid_bindH)

lemma keeps_on_error: "keeps E (on_error canc e)"
  by (auto simp: valid_def on_error_def bind_def ctx_Err_def)

lemma keeps_reconcile_if_due: "keeps E (reconcile_if_due E canc st)"
  unfolding reconcile_if_due_def
  by (auto intro!: keeps_now keeps_ret keeps_result [OF valid_ReconcileOutbox]
      keeps_bind keeps_on_error simp del: ret_apply split: sum.split tick_end.split)

lemma keeps_depth_if_due: "keeps E (depth_if_due E st)"
proof -
  have "keeps E (bind (result_of (QueueBacklog E)) (\<lambda>r. case r of
         Inl _ \<Rightarrow> ret st
       | Inr n \<Rightarrow> bind (time_Now E) (\<lambda>t'. ret (st\<lparr>LastDepthLog := t'\<rparr>))))"
    by (rule keeps_result [OF keeps_QueueBacklog])
       (auto simp: keeps_ret simp del: ret_apply split: sum.split intro!: keeps_now)
  then show ?thesis
    unfolding depth_if_due_def by (intro keeps_now) (simp add: keeps_ret del: ret_apply)
qed

lemma keeps_scheduler_tick: "keeps E (scheduler_tick E l canc hb st)"
proof -
  have stop: "keeps E (bind (on_error canc e) (\<lambda>x. ret (x, s)))" for e and s :: sched_state
    by (intro keeps_bind keeps_on_error keeps_ret)
  have tail: "keeps E (bind (reconcile_if_due E canc s) (\<lambda>(x, st'). case x of
      Return c \<Rightarrow> ret (Return c, st') | Continue \<Rightarrow> bind (depth_if_due E st') (\<lambda>st''. ret (Continue, st''))))" for s
    by (auto intro!: keeps_bind keeps_reconcile_if_due keeps_depth_if_due keeps_ret simp del: ret_apply split: tick_end.split)
  show ?thesis
    unfolding scheduler_tick_def Let_def
    by (auto intro!: keeps_result [OF valid_IsLeader] keeps_result [OF valid_Acquire] keeps_result [OF keeps_ret] keeps_result [OF valid_scheduler_PromoteDue]
        keeps_result [OF valid_TickCronJobs] keeps_now stop tail keeps_ret simp del: ret_apply split: sum.split)
qed

end
