(* ===== verification/ServerInv.thy ===== *)
theory ServerInv
  imports HandlerInv
begin

text \<open>
  The HTTP server preserves the invariant of the platform: every handler of \<open>cmd/api\<close> and
  the middleware in front of them.
\<close>

section \<open>Reading\<close>

lemma keeps_read:
  "keeps E (GetByID E i)" "keeps E (GetByIdempotencyKey E key)" "keeps E (list_jobs E st lim off)"
  "keeps E (GetAPIKeyByHash E h)"
proof -
  show "keeps E (GetByID E i)" by (rule valid_GetByID)
  show "keeps E (GetByIdempotencyKey E key)" by (rule valid_GetByIdempotencyKey)
  have "keeps E (sql E PgStmt (select_jobs st lim off))"
    by (rule valid_sql) (auto simp: select_jobs_def)
  then show "keeps E (list_jobs E st lim off)"
    unfolding list_jobs_def by (simp add: valid_wrap valid_fail_H)
  show "keeps E (GetAPIKeyByHash E h)"
    unfolding GetAPIKeyByHash_def
  proof (rule valid_not_found, rule valid_scan_row)
    have "keeps E (sql E PgStmt (\<lambda>_ d. Inr (find (\<lambda>k. AkHashedKey k = h) (api_keys d), d)))"
      by (rule valid_sql) auto
    then show "valid (holds (platform_inv E)) (sql E PgStmt (\<lambda>_ d. Inr (find (\<lambda>k. AkHashedKey k = h) (api_keys d), d)))
      (post (\<lambda>r w. case r of None \<Rightarrow> holds (platform_inv E) w | Some x \<Rightarrow> holds (platform_inv E) w) (holds (platform_inv E)))"
      by (rule valid_conseq) (auto simp: post_def split: sum.splits option.splits)
  qed
qed

section \<open>Jobs\<close>

lemma keeps_validateCallbackURL: "keeps E (validateCallbackURL E ap raw)"
proof -
  have "keeps E (bind (result_of (ValidateCallbackURL E cfg raw)) (\<lambda>r. case r of
              Inr _ \<Rightarrow> ret ()
            | Inl e \<Rightarrow>
                if errors_Is e ErrPrivateAddress \<or> errors_Is e ErrBlockedHost
                then fail (Err ''callback_url must not target internal hosts'')
                else if errors_Is e ErrInvalidURL
                then fail (Err ''callback_url must be a valid absolute URL'')
                else ret ()))" for cfg
    by (rule keeps_result [OF valid_ValidateCallbackURL]) (auto simp: valid_def split: sum.splits)
  then show ?thesis
    unfolding validateCallbackURL_def by (simp add: valid_fail_H split: option.split)
qed

lemma keeps_validateCreateJobRequest: "keeps E (validateCreateJobRequest E ap req)"
  unfolding validateCreateJobRequest_def
  by (simp add: valid_fail_H keeps_validateCallbackURL split: option.split)

lemma valid_dispatch_created:
  "valid (holds (\<lambda>d s. platform_inv E d s \<and> at_gen E i 1 d)) (dispatch_created E req i)
     (post (\<lambda>_. holds (platform_inv E)) (holds (platform_inv E)))"
proof -
  let ?I = "platform_inv E"
  let ?P = "\<lambda>d s. ?I d s \<and> at_gen E i 1 d"
  let ?Q = "\<lambda>d s. ?I d s \<and> queued E i d s"
  have incr: "valid (holds ?P) (ignore (Increment E k)) (post (\<lambda>_. holds ?P) (holds ?I))" for k
  proof (rule valid_Increment)
    show "?P d s'" if "?P d s" "redis_ok (srv E) \<Longrightarrow> queue_view s' = queue_view s" for d s s'
      using that(1) platform_inv_keep [OF _ qstep_view [OF that(2) [OF reliable_redis_ok]]] by blast
  qed
  have drop: "valid (holds ?Q) (bind (ignore (DeleteOutboxEntries E [i])) (\<lambda>_. ret resp)) (post (\<lambda>_. holds ?I) (holds ?I))"
    for resp :: response
    by (rule valid_bindH [OF valid_drop_outbox [where C = "\<lambda>_. True", simplified]]) (rule valid_ret_H)
  have answer: "valid (holds (case q of Inl e \<Rightarrow> ?I | Inr a \<Rightarrow> ?Q)) (case q of
       Inl _ \<Rightarrow> ret (server_error ''failed to schedule job'')
     | Inr _ \<Rightarrow> bind (ignore (DeleteOutboxEntries E [i])) (\<lambda>_. ret (respond 201 (BJobID i))))
     (post (\<lambda>_. holds ?I) (holds ?I))" for q :: "goerr + unit"
    using drop by (cases q) (simp_all add: keeps_ret del: ret_apply)
  show ?thesis
    unfolding dispatch_created_def
    by (rule valid_bindH [OF incr], rule valid_bindH [OF valid_time_Now], assumption,
        rule valid_bindH [OF valid_result_ofH [OF valid_dispatch [where g = 1 and C = "\<lambda>_. True", simplified]] answer])
qed

lemma keeps_replay_created: "keeps E (replay_created E req)"
  unfolding replay_created_def
  by (rule keeps_result [OF keeps_read(2)]) (simp add: keeps_ret del: ret_apply split: sum.split)

lemma keeps_CreateJob: "keeps E (CreateJob E ap bdy)"
proof (cases "decodeJSONBody bdy ''invalid request body''")
  case (Inl resp)
  then show ?thesis by (simp add: CreateJob_def keeps_ret del: ret_apply)
next
  case (Inr req)
  let ?I = "platform_inv E"
  have "valid (holds (case c of Inl e \<Rightarrow> ?I | Inr i \<Rightarrow> \<lambda>d s. ?I d s \<and> at_gen E i 1 d)) (case c of
          Inr jobID \<Rightarrow> dispatch_created E req jobID
        | Inl e \<Rightarrow> if errors_Is e ErrConflict then replay_created E req
                   else ret (server_error ''failed to create job'')) (post (\<lambda>_. holds ?I) (holds ?I))" for c
    using valid_dispatch_created [of E] keeps_replay_created [of E req]
    by (cases c) (simp_all add: keeps_ret del: ret_apply)
  then have create: "keeps E (bind (result_of (Create E req)) (\<lambda>c. case c of
          Inr jobID \<Rightarrow> dispatch_created E req jobID
        | Inl e \<Rightarrow> if errors_Is e ErrConflict then replay_created E req
                   else ret (server_error ''failed to create job'')))"
    by (rule valid_bindH [OF valid_result_ofH [OF valid_Create]])
  show ?thesis
    unfolding CreateJob_def Inr sum.case
    by (rule keeps_result [OF keeps_validateCreateJobRequest])
       (simp add: keeps_ret create del: ret_apply split: sum.split)
qed

lemma keeps_reads:
  "keeps E (GetJob E p)" "keeps E (ListJobs E st lim off)" "keeps E (ListDeadLetters E lim off)"
proof -
  show "keeps E (GetJob E p)"
    unfolding GetJob_def
    by (cases "uuid_Parse E p") (auto simp: keeps_ret simp del: ret_apply split: sum.split intro!: keeps_result keeps_read)
  have list: "keeps E (List E l f)" "keeps E (ListByStatus E st l f)" for st l f
    using keeps_read(3) by (auto simp: List_def ListByStatus_def valid_fail_H split: option.split)
  show "keeps E (ListJobs E st lim off)"
    unfolding ListJobs_def
    by (auto simp: keeps_ret simp del: ret_apply split: sum.split prod.split intro!: keeps_result list)
  show "keeps E (ListDeadLetters E lim off)"
    unfolding ListDeadLetters_def
    by (auto simp: keeps_ret simp del: ret_apply split: sum.split prod.split intro!: keeps_result list)
qed

lemma keeps_DeleteJob: "keeps E (DeleteJob E p)"
proof (cases "uuid_Parse E p")
  case None
  then show ?thesis by (simp add: DeleteJob_def keeps_ret del: ret_apply)
next
  case (Some i)
  let ?I = "platform_inv E"
  let ?C = "\<lambda>d s. ?I d s \<and> job_closed i d"
  have step: "?I d (HDEL (srv E) ScheduledPayloads (uuid_String E i) (ZREM (srv E) ScheduledSet (uuid_String E i) s))"
    if c: "?C d s" for d s
  proof (rule platform_inv_qstep [OF conjunct1 [OF c] remove_effect])
    let ?s = "HDEL (srv E) ScheduledPayloads (uuid_String E i) (ZREM (srv E) ScheduledSet (uuid_String E i) s)"
    show "job_key x \<in> ready_keys E ?s" if "reliable E" "job_key x \<in> ready_keys E s" for x
      using qstep_ready [OF remove_effect [OF that(1)] platform_invD(3) [OF conjunct1 [OF c] that(1)] that(2)] by simp
    show "job_key x \<in> outbox_keys d \<union> ready_keys E ?s \<union> delayed_keys E ?s"
      if "x \<in> set (jobs d)" "Status x \<in> {Pending, Scheduled}" "job_key x \<in> {i} \<times> UNIV" for x
      using that c job_of_unique [OF platform_invD(2) [OF conjunct1 [OF c]] that(1)]
      by (auto simp: job_closed_def job_key_def)
  qed
  have "valid (holds ?C) (RemoveScheduled E (uuid_String E i)) (post (\<lambda>_. holds ?I) (holds ?I))"
    unfolding RemoveScheduled_def by (rule valid_wrap, rule valid_rcallQ) (auto intro: step)
  then have "valid (holds ?C) (bind (ignore (RemoveScheduled E (uuid_String E i))) (\<lambda>_. ret no_content))
      (post (\<lambda>_. holds ?I) (holds ?I))"
    by (rule valid_bindH [OF valid_ignore]) (rule keeps_ret)
  then have "valid (holds (case r of Inl e \<Rightarrow> ?I | Inr _ \<Rightarrow> ?C)) (case r of
            Inl e \<Rightarrow>
              if errors_Is e ErrNotFound then ret (WriteError 404 ''NOT_FOUND'' ''job not found'')
              else if errors_Is e ErrNotCancellable
              then ret (WriteError 409 ''CONFLICT'' ''job cannot be cancelled in its current state'')
              else ret (server_error ''failed to cancel job'')
          | Inr _ \<Rightarrow> bind (ignore (RemoveScheduled E (uuid_String E i))) (\<lambda>_. ret no_content))
      (post (\<lambda>_. holds ?I) (holds ?I))" for r :: "goerr + unit"
    by (cases r) (simp_all add: keeps_ret del: ret_apply)
  then show ?thesis
    unfolding DeleteJob_def Some option.case by (rule valid_bindH [OF valid_result_ofH [OF valid_Cancel]])
qed

lemma valid_EnqueueDue_read:
  "valid (holds (\<lambda>d s. platform_inv E d s \<and> job_of i d = Some j)) (EnqueueDue E (uuid_String E (ID j)) p (QueueGeneration j))
     (post (\<lambda>_. holds (\<lambda>d s. platform_inv E d s \<and> queued E (ID j) d s)) (holds (platform_inv E)))"
proof (cases "1 \<le> QueueGeneration j")
  case False
  then show ?thesis using platform_inv_job(3) [of E _ _ i j] by (intro valid_False) (auto simp: job_ok_def)
next
  case True
  have "at_gen E (ID j) (QueueGeneration j) d" if "platform_inv E d s" "job_of i d = Some j" for d s
    unfolding at_gen_def
  proof (intro impI ballI)
    fix x
    assume "x \<in> set (jobs d)" and "ID x = ID j"
    then show "QueueGeneration x = QueueGeneration j"
      using job_of_unique [OF platform_invD(2) [OF that(1)], of x] that job_ofD [of i d j] by simp
  qed
  then show ?thesis
    by (intro valid_preH [OF valid_EnqueueDue [OF True, where C = "\<lambda>_. True", simplified]]) blast
qed

lemma keeps_dispatch_retried: "keeps E (dispatch_retried E i)"
proof -
  let ?I = "platform_inv E"
  have get: "valid (holds ?I) (GetByID E i) (post (\<lambda>j. holds (\<lambda>d s. ?I d s \<and> job_of i d = Some j)) (holds ?I))"
    by (rule valid_GetByID) auto
  have drop: "valid (holds (\<lambda>d s. ?I d s \<and> queued E (ID j) d s))
      (bind (ignore (DeleteOutboxEntries E [ID j])) (\<lambda>_. ret (respond 200 (BJob j)))) (post (\<lambda>_. holds ?I) (holds ?I))" for j
    by (rule valid_bindH [OF valid_drop_outbox [where C = "\<lambda>_. True", simplified]]) (rule keeps_ret)
  show ?thesis
    unfolding dispatch_retried_def
    by (rule valid_bindH [OF valid_result_ofH [OF get]], rule valid_case_sum, simp only: sum.case, rule keeps_ret,
        simp only: sum.case, rule valid_bindH [OF valid_result_ofH [OF valid_EnqueueDue_read]], rule valid_case_sum,
        simp only: sum.case, rule keeps_ret, simp only: sum.case, rule drop)
qed

lemma keeps_RetryJob: "keeps E (RetryJob E p)"
proof (cases "uuid_Parse E p")
  case None
  then show ?thesis by (simp add: RetryJob_def keeps_ret del: ret_apply)
next
  case (Some i)
  have retry: "keeps E (bind (result_of (Retry E i)) (\<lambda>t. case t of
                  Inl e \<Rightarrow>
                    if errors_Is e ErrNotFound then ret (WriteError 404 ''NOT_FOUND'' ''job not found'')
                    else if errors_Is e ErrNotCancellable
                    then ret (WriteError 409 ''CONFLICT'' ''only dead jobs can be retried'')
                    else ret (server_error ''failed to retry job'')
                | Inr _ \<Rightarrow> dispatch_retried E i))"
    by (rule keeps_result [OF valid_Retry]) (simp add: keeps_ret keeps_dispatch_retried del: ret_apply split: sum.split)
  show ?thesis
    unfolding RetryJob_def Some option.case
    by (rule keeps_result [OF keeps_read(1)]) (simp add: keeps_ret retry del: ret_apply split: sum.split)
qed

section \<open>Cron jobs\<close>

lemma keeps_CreateCron: "keeps E (CreateCron E inp)"
proof -
  have "keeps E (sql E PgStmt (insert_cron E inp t))" for t
    by (rule valid_sql) (auto simp: insert_cron_def Let_def inv_cron)
  then show ?thesis
    unfolding CreateCron_def by (intro valid_bindH [OF valid_time_Now] valid_wrap) auto
qed

lemma keeps_UpdateEnabled: "keeps E (UpdateEnabled E i b)"
proof -
  have "keeps E (sql E PgStmt (update_crons P f))" for P f
    by (rule valid_sql) (auto simp: update_crons_def inv_cron)
  then show ?thesis
    unfolding UpdateEnabled_def by (rule valid_bindH [OF valid_wrap]) (simp add: valid_def)
qed

lemma keeps_CreateCronJob: "keeps E (CreateCronJob E ap bdy)"
proof -
  have store: "keeps E (bind (result_of (CreateCron E inp)) (\<lambda>c. case c of
        Inl _ \<Rightarrow> ret (server_error ''failed to create cron job'')
      | Inr cj \<Rightarrow> ret (respond 201 (BCronID (CrID cj)))))" for inp
    by (rule keeps_result [OF keeps_CreateCron]) (simp add: keeps_ret del: ret_apply split: sum.split)
  have next_run: "keeps E (bind (time_Now E) (\<lambda>now.
      case cron_NextRunAt E x now of
        Inl e \<Rightarrow> ret (invalid_request (Error e))
      | Inr nextRunAt \<Rightarrow> bind (result_of (CreateCron E (inp nextRunAt))) (\<lambda>c. case c of
          Inl _ \<Rightarrow> ret (server_error ''failed to create cron job'')
        | Inr cj \<Rightarrow> ret (respond 201 (BCronID (CrID cj))))))" for x inp
    by (rule valid_bindH [OF valid_time_Now], assumption)
       (simp add: keeps_ret store del: ret_apply split: sum.split)
  have url: "keeps E (bind (result_of (validateCallbackURL E ap u)) (\<lambda>v. case v of
        Inl e \<Rightarrow> ret (invalid_request (Error e))
      | Inr _ \<Rightarrow> bind (time_Now E) (\<lambda>now.
      case cron_NextRunAt E x now of
        Inl e \<Rightarrow> ret (invalid_request (Error e))
      | Inr nextRunAt \<Rightarrow> bind (result_of (CreateCron E (inp nextRunAt))) (\<lambda>c. case c of
          Inl _ \<Rightarrow> ret (server_error ''failed to create cron job'')
        | Inr cj \<Rightarrow> ret (respond 201 (BCronID (CrID cj)))))))" for u x inp
    by (rule keeps_result [OF keeps_validateCallbackURL])
       (simp add: keeps_ret next_run del: ret_apply split: sum.split)
  show ?thesis
    unfolding CreateCronJob_def
    by (simp add: keeps_ret url del: ret_apply split: sum.split option.split)
qed

lemma keeps_UpdateCronJob: "keeps E (UpdateCronJob E p bdy)"
proof -
  have "keeps E (bind (result_of (UpdateEnabled E i b)) (\<lambda>r. case r of
                  Inl e \<Rightarrow> if errors_Is e ErrNotFound then ret (WriteError 404 ''NOT_FOUND'' ''cron job not found'')
                           else ret (server_error ''failed to update cron job'')
                | Inr _ \<Rightarrow> ret no_content))" for i b
    by (rule keeps_result [OF keeps_UpdateEnabled]) (simp add: keeps_ret del: ret_apply split: sum.split)
  then show ?thesis
    unfolding UpdateCronJob_def by (simp add: keeps_ret del: ret_apply split: sum.split option.split)
qed

section \<open>Middleware and router\<close>

lemma rate_limit_view:
  assumes "redis_ok S"
  shows "queue_view (snd (rateLimitScript S (rate_key c) now win lim m s)) = queue_view s"
proof -
  have "rate_key c \<noteq> ScheduledSet" by (simp add: rate_key_def ScheduledSet_def)
  with assms show ?thesis
    by (simp add: redis_ok_def zset_law_def zttl_law_def rateLimitScript_def Let_def queue_view_def set_zset_def)
qed

lemma keeps_Allow: "keeps E (Allow E l c)"
proof -
  have step: "keeps E (bind (rcall E (\<lambda>S. rateLimitScript S (rate_key c) now win lim m)) (\<lambda>(a, t).
      let ttl = t * 1000000 in ret (a = 1, if ttl \<le> 0 then LmWindow l else ttl)))" for now win lim m
    by (rule valid_bindH [OF valid_rcall_view [OF rate_limit_view]]) (auto simp: Let_def keeps_ret simp del: ret_apply)
  show ?thesis
    unfolding Allow_def Let_def
    by (rule valid_bindH [OF valid_time_Now], assumption, rule valid_bindH [OF valid_rand_Draw], assumption)
       (rule step [unfolded Let_def])
qed

lemma keeps_limited: "keeps E nxt \<Longrightarrow> keeps E (limited E l b nxt)"
  unfolding limited_def
  by (rule keeps_result [OF keeps_Allow]) (auto simp: keeps_ret simp del: ret_apply split: sum.split)

lemma keeps_APIKeyAuth:
  assumes "\<And>k. keeps E (nxt k)"
  shows "keeps E (APIKeyAuth E r nxt)"
proof -
  have "keeps E (bind (result_of (GetAPIKeyByHash E h)) (\<lambda>k. case k of
             Inl e \<Rightarrow> if errors_Is e ErrNotFound then ret (WriteError 401 ''UNAUTHORIZED'' ''invalid API key'')
                      else ret (server_error ''failed to authenticate request'')
           | Inr key \<Rightarrow>
               if AkRevokedAt key \<noteq> None then ret (WriteError 401 ''UNAUTHORIZED'' ''API key has been revoked'')
               else nxt (uuid_String E (AkID key))))" for h
    by (rule keeps_result [OF keeps_read(4)]) (simp add: keeps_ret assms del: ret_apply split: sum.split)
  then show ?thesis unfolding APIKeyAuth_def Let_def by (simp add: keeps_ret del: ret_apply not_None_eq)
qed

lemma keeps_handle_route: "keeps E (handle_route E ap rt)"
  unfolding handle_route_def
  by (cases rt) (simp_all add: keeps_CreateJob keeps_reads keeps_DeleteJob keeps_RetryJob keeps_CreateCronJob keeps_UpdateCronJob)

lemma keeps_Server: "keeps E (Server E ap lm ipl r rt)"
proof -
  have "keeps E (APIKeyAuth E r (\<lambda>k. RateLimit E lm (Some k) (handle_route E ap rt)))"
    by (rule keeps_APIKeyAuth) (simp add: RateLimit_def keeps_limited keeps_handle_route)
  then show ?thesis unfolding Server_def IPRateLimit_def by (simp add: keeps_limited split: option.split)
qed

end
