(* ===== verification/System.thy ===== *)
theory System
  imports ServerInv
begin

text \<open>
  The running platform: any number of API servers, workers and schedulers, each of which
  performs whole handlers one after the other on the shared tables and the shared keyspace.
  The relation \<open>step\<close> has one rule per entry point of the three programs and one for the
  passing of time on the Redis server; a crash in the middle of a handler is a run in which
  every later call of that handler is lost.
\<close>

section \<open>Steps\<close>

inductive step :: "env \<Rightarrow> world \<Rightarrow> world \<Rightarrow> bool" for E where
  request: "Server E ap lm ipl r rt w = (resp, w') \<Longrightarrow> step E w w'"
| worker_start: "EnsureConsumerGroup E w = (r, w') \<Longrightarrow> step E w w'"
| worker_turn: "Run_once E cfg con t w = (r, w') \<Longrightarrow> step E w w'"
| scheduler_turn: "scheduler_tick E l canc hb st w = (r, w') \<Longrightarrow> step E w w'"
| heartbeat: "heartbeat_step E l w = (r, w') \<Longrightarrow> step E w w'"
| scheduler_stop: "Release E l w = (r, w') \<Longrightarrow> step E w w'"
| time_passes: "Clock (rd w) \<le> t \<Longrightarrow> w' = w\<lparr>rd := (rd w)\<lparr>Clock := t\<rparr>\<rparr> \<Longrightarrow> step E w w'"

inductive_cases stepE: "step E w w'"

text \<open>An empty platform: no job has been submitted yet. Cron rows and API keys may exist.\<close>

definition empty_platform :: "world \<Rightarrow> bool" where
  "empty_platform w \<longleftrightarrow> jobs (db w) = [] \<and> outbox (db w) = [] \<and> executions (db w) = []
     \<and> Streams (rd w) ReadyStream = [] \<and> Groups (rd w) ReadyStream = []"

inductive reachable :: "env \<Rightarrow> world \<Rightarrow> bool" for E where
  start: "empty_platform w \<Longrightarrow> reachable E w"
| move: "reachable E w \<Longrightarrow> step E w w' \<Longrightarrow> reachable E w'"

section \<open>The invariant holds in every reachable state\<close>

lemma empty_inv: "empty_platform w \<Longrightarrow> holds (platform_inv E) w"
  by (simp add: empty_platform_def holds_def platform_inv_def db_inv_def schema_ok_def jobs_ok_def
      outbox_ok_def executions_ok_def stream_wf_def group_of_def tracked_def)

lemma keepsD:
  assumes "keeps E m" and "m w = (r, w')" and "holds (platform_inv E) w"
  shows "holds (platform_inv E) w'"
  using validD [OF assms(1,3,2)] by (cases r) simp_all

lemma step_inv:
  assumes "step E w w'" and "holds (platform_inv E) w"
  shows "holds (platform_inv E) w'"
  using assms(1)
proof cases
  case (time_passes t)
  have "queue_view ((rd w)\<lparr>Clock := t\<rparr>) = queue_view (rd w)" by (simp add: queue_view_def)
  then show ?thesis
    using platform_inv_keep [OF _ qstep_view, of E "db w" "rd w" "(rd w)\<lparr>Clock := t\<rparr>"] assms(2) time_passes
    by (simp add: holds_def)
qed (use assms(2) in \<open>blast intro: keepsD [OF keeps_Server] keepsD [OF valid_EnsureConsumerGroup]
    keepsD [OF valid_Run_once] keepsD [OF keeps_scheduler_tick] keepsD [OF valid_heartbeat_step]
    keepsD [OF valid_Release]\<close>)+

lemma reachable_inv: "reachable E w \<Longrightarrow> platform_inv E (db w) (rd w)"
  by (induction rule: reachable.induct) (use empty_inv step_inv in \<open>auto simp: holds_def\<close>)

end
