(* ===== verification/Demo.thy ===== *)
theory Demo
  imports API Tracking
begin

text \<open>
  A concrete environment: an in-memory Redis server, calls that all arrive, identifiers in
  decimal, JSON documents that are left as they are. It shows that the hypotheses on the
  environment can hold, and it is the one in which the witnesses evaluate the handlers.
\<close>

definition demo_env :: env where
  "demo_env = \<lparr>
     srv = mem_redis,
     outcome = (\<lambda>c n. Up),
     clock_at = (\<lambda>n. int n * second),
     uuid_at = (\<lambda>n. of_nat n),
     rand_at = (\<lambda>n. int n),
     uuid_Parse = (\<lambda>s. map_option of_nat (parse_unsigned s)),
     uuid_String = (\<lambda>i. decimal (unat i)),
     url_Parse = (\<lambda>s. Some \<lparr>Scheme = ''https'', Host = s, Hostname = s, Port = ''443''\<rparr>),
     jsonb = (\<lambda>s. s),
     Unmarshal = (\<lambda>s. Some (JStr s)),
     json_Valid = (\<lambda>s. True),
     template_of = (\<lambda>s. Some \<lparr>TplType = ''report'', TplPayload = s, TplMaxAttempts = 3,
        TplCallbackURL = Some ''example.com''\<rparr>),
     sched_Marshal = (\<lambda>p g. FormatInt g @ '':'' @ p),
     lua_fields = (\<lambda>s. Some (Some (drop 1 (dropWhile (\<lambda>c. c \<noteq> CHR '':'') s)), takeWhile (\<lambda>c. c \<noteq> CHR '':'') s)),
     cron_Next = (\<lambda>e t. Inr (t + 60 * second)),
     RFC3339Nano = FormatInt,
     Sum256 = (\<lambda>s. s),
     crypto_Read = (\<lambda>n k. Inr (replicate k (char_of n))),
     LookupIP = (\<lambda>n h. Inr [V4 0x08080808]),
     exchange = (\<lambda>n a r. HopResponse \<lparr>RsStatus = 200, RsBodyLen = 0\<rparr>)\<rparr>"

definition demo_redis :: redis where
  "demo_redis = \<lparr>Streams = (\<lambda>_. []), Groups = (\<lambda>_. []), ZSets = (\<lambda>_. []), Hashes = (\<lambda>_. []),
     ZTtls = (\<lambda>_. 0), Counters = (\<lambda>_. 0), Strings = (\<lambda>_. None), Clock = 0\<rparr>"

definition demo_tables :: tables where
  "demo_tables = \<lparr>jobs = [], executions = [], execution_seq = 1, outbox = [], cron_jobs = [],
     cron_seq = 1, api_keys = [\<lparr>AkID = 7, AkClientName = ''demo'', AkHashedKey = ''736563726574'',
       AkCreatedAt = 0, AkRevokedAt = None\<rparr>]\<rparr>"

definition demo_world :: world where
  "demo_world = \<lparr>db = demo_tables, txn = None, rd = demo_redis, posts = [], calls = 0\<rparr>"

definition demo_input :: create_input where
  "demo_input = \<lparr>InType = ''report'', InPayload = ''1'', InRunAt = 0, InMaxAttempts = 3,
     InIdempotencyKey = ''k'', InCallbackURL = Some ''example.com''\<rparr>"

lemma digits_val_no_colon: "digits_val acc s = Some v \<Longrightarrow> CHR '':'' \<notin> set s"
  by (induction s arbitrary: acc) (auto simp: digit_val_def split: option.splits if_splits)

lemma decimal_no_colon: "CHR '':'' \<notin> set (decimal n)"
  by (rule digits_val_no_colon [OF digits_val_decimal])

lemma cut_at: "x \<notin> set xs \<Longrightarrow> takeWhile (\<lambda>c. c \<noteq> x) (xs @ x # ys) = xs \<and> dropWhile (\<lambda>c. c \<noteq> x) (xs @ x # ys) = x # ys"
  by (induction xs) auto

lemma demo_reliable: "reliable demo_env"
proof -
  have "uuid_Parse demo_env (uuid_String demo_env i) = Some i" for i
    by (simp add: demo_env_def parse_unsigned_def digits_val_decimal)
  moreover have "lua_fields demo_env (sched_Marshal demo_env p g) = Some (Some p, FormatInt g)
      \<and> ParseInt (FormatInt g) = Some g" if "1 \<le> g" "g < gen_bound" for p g
    using that ParseInt_FormatInt [of g] cut_at [OF decimal_no_colon, of "nat g"]
    by (auto simp: demo_env_def FormatInt_def gen_bound_def split: if_splits)
  ultimately show ?thesis
    unfolding reliable_def using mem_redis_server_ok by (auto simp: demo_env_def)
qed

end
