(* ===== verification/DemoRun.thy ===== *)
theory DemoRun
  imports System Demo
begin

text \<open>
  A run of the platform in the concrete environment: a client submits a job through the
  server, a worker creates the consumer group, reads the job from the ready stream and calls
  its URL, which answers 200.
\<close>

definition demo_request :: "route \<Rightarrow> response handler" where
  "demo_request rt = Server demo_env True (New_limiter 5 0) None
     \<lparr>RqAuthorization = ''Bearer secret'', RqForwardedFor = '''', RqRemoteAddr = ''''\<rparr> rt"

definition demo_post :: world where
  "demo_post = snd (demo_request (PostJobs (DecOk demo_input True)) demo_world)"

definition demo_turn :: turn where
  "demo_turn = \<lparr>TnCancelled = False, TnReclaim = False, TnDoneInRead = False, TnErrAfterRead = False, TnDoneInPause = False\<rparr>"

definition demo_done :: world where
  "demo_done = snd (Run_once demo_env \<lparr>AllowPrivateIPs = True\<rparr> ''c'' demo_turn (snd (EnsureConsumerGroup demo_env demo_post)))"

definition summary :: "job \<Rightarrow> status \<times> int \<times> int \<times> int" where
  "summary j = (Status j, Attempts j, MaxAttempts j, QueueGeneration j)"

lemma demo_reachable: "reachable demo_env demo_post" "reachable demo_env demo_done"
proof -
  have "empty_platform demo_world"
    by (simp add: empty_platform_def demo_world_def demo_tables_def demo_redis_def)
  then show post: "reachable demo_env demo_post"
    unfolding demo_post_def demo_request_def
    by (intro reachable.move [OF reachable.start step.request]) (auto intro: surjective_pairing)
  show "reachable demo_env demo_done"
    unfolding demo_done_def
    by (intro reachable.move [OF reachable.move [OF post step.worker_start] step.worker_turn])
       (auto intro: surjective_pairing)
qed

lemma demo_post_jobs: "map summary (jobs (db demo_post)) = [(Pending, 0, 3, 1)]"
  by code_simp

lemma demo_done_jobs: "map summary (jobs (db demo_done)) = [(Done, 1, 3, 1)]"
  by code_simp

end
