(* ===== verification/JobSpec.thy ===== *)
theory JobSpec
  imports PlatformInv Demo
begin

text \<open>
  What the methods of the job store promise: a job that was started cannot be started again
  while it runs, a job and its outbox row appear in one step or not at all, and the outcome of every method
  that changes a job is determined by the row it addresses.
\<close>

section \<open>Starting an execution\<close>

lemma StartExecution_run:
  assumes "schema_ok (db w)"
  shows "StartExecution E i g w = (case outcome E PgStmt (calls w) of
     Up \<Rightarrow> (case job_of i (db w) of
         None \<Rightarrow> (Inr 0, tick w)
       | Some j \<Rightarrow> if start_guard i g j
           then (Inr (Attempts j + 1), (tick w)\<lparr>db := set_job i (start_job (clock_at E (calls w))) (db w)\<rparr>)
           else (Inr 0, tick w))
   | Lost \<Rightarrow> (Inl (Wrap ''start job execution'' Unavailable), tick w)
   | Late \<Rightarrow> (Inl (Wrap ''start job execution'' Unavailable),
       (tick w)\<lparr>db := stmt_db (update_returning (start_guard i g) start_job Attempts) (clock_at E (calls w)) (db w)\<rparr>))"
proof -
  have same: "(tick w)\<lparr>db := db w\<rparr> = tick w" by (simp add: tick_def)
  show ?thesis
    using start.update_returning_run [OF assms, where i = i and g = g and col = Attempts and t = "clock_at E (calls w)"]
    by (simp add: StartExecution_def scan_row_def bind_def result_of_def sql_def Let_def start_job_def same
        split: fault.splits option.splits)
qed

lemma StartExecution_refused:
  assumes "schema_ok d" and "job_of i d = Some j" and "\<not> start_guard i g j" and "db w = d"
    and "StartExecution E i g w = (r, w')"
  shows "db w' = d \<and> (\<forall>b. r = Inr b \<longrightarrow> b = 0)"
proof -
  have "stmt_db (update_returning (start_guard i g) start_job Attempts) t d = d" for t
    using assms(2,3) start.update_returning_run [OF assms(1), where i = i and g = g and col = Attempts and t = t]
    by (simp add: stmt_db_def)
  then show ?thesis
    using assms StartExecution_run [of w E i g] by (auto split: fault.splits)
qed

lemma StartExecution_effect:
  assumes "schema_ok (db w)" and "StartExecution E i g w = (Inr a, w')" and "a \<noteq> 0"
  shows "(\<exists>j. job_of i (db w) = Some j \<and> QueueGeneration j = g \<and> (Status j = Pending \<or> Status j = Scheduled)
      \<and> a = Attempts j + 1 \<and> (\<exists>t. db w' = set_job i (start_job t) (db w)))
    \<and> (\<forall>E' g' w2 r w3. db w2 = db w' \<longrightarrow> StartExecution E' i g' w2 = (r, w3) \<longrightarrow> db w3 = db w' \<and> (\<forall>b. r = Inr b \<longrightarrow> b = 0))"
proof -
  from assms obtain j where j: "job_of i (db w) = Some j" "start_guard i g j" "a = Attempts j + 1"
    and w': "db w' = set_job i (start_job (clock_at E (calls w))) (db w)"
    using StartExecution_run [OF assms(1), of E i g] by (auto split: fault.splits option.splits if_splits)
  let ?t = "clock_at E (calls w)"
  have ok: "schema_ok (db w')" using start.schema_ok_set_job [OF assms(1)] by (simp add: w')
  have row: "job_of i (db w') = Some (start_job ?t j)" using j by (simp add: w' start.job_of_set_job)
  show ?thesis
  proof (intro conjI allI impI)
    show "\<exists>j. job_of i (db w) = Some j \<and> QueueGeneration j = g \<and> (Status j = Pending \<or> Status j = Scheduled)
        \<and> a = Attempts j + 1 \<and> (\<exists>t. db w' = set_job i (start_job t) (db w))"
      using j w' by (auto simp: start_guard_def)
    fix E' g' w2 r w3
    assume "db w2 = db w'" and "StartExecution E' i g' w2 = (r, w3)"
    from StartExecution_refused [OF ok row _ this] have "db w3 = db w' \<and> (\<forall>b. r = Inr b \<longrightarrow> b = 0)"
      by (simp add: start_guard_def start_job_def)
    then show "db w3 = db w'" "r = Inr b \<Longrightarrow> b = 0" for b by simp_all
  qed
qed

definition demo_row :: "status \<Rightarrow> job" where
  "demo_row st = \<lparr>ID = 5, Type = ''report'', Payload = ''1'', Status = st, RunAt = 0, Attempts = 1,
     MaxAttempts = 3, IdempotencyKey = ''k'', CallbackURL = Some ''example.com'', LastError = None,
     CreatedAt = 0, UpdatedAt = 0, QueueGeneration = 2\<rparr>"

definition demo_with :: "job list \<Rightarrow> world" where
  "demo_with js = demo_world\<lparr>db := demo_tables\<lparr>jobs := js\<rparr>\<rparr>"

lemma demo_with_ok: "schema_ok (db (demo_with [demo_row st]))"
  by (simp add: demo_with_def demo_row_def demo_tables_def schema_ok_def jobs_ok_def outbox_ok_def
      executions_ok_def job_ok_def attempts_check_def max_attempts_check_def)

section \<open>Jobs and their outbox rows\<close>

text \<open>What a committed \<open>Create\<close> and a committed \<open>Retry\<close> leave behind.\<close>

definition created :: "env \<Rightarrow> create_input \<Rightarrow> uuid \<Rightarrow> tables \<Rightarrow> tables \<Rightarrow> bool" where
  "created E inp i d d' \<longleftrightarrow> (\<exists>now t. i \<notin> ID ` set (jobs d)
     \<and> d' = d\<lparr>jobs := jobs d @ [new_job E i Pending inp now],
         outbox := outbox d @ [\<lparr>ObJobID = i, ObGeneration = 1, ObRunAt = InRunAt inp,
           ObKind = (if now < InRunAt inp then OutboxScheduled else OutboxImmediate), ObCreatedAt = t\<rparr>]\<rparr>)"

definition revived :: "uuid \<Rightarrow> tables \<Rightarrow> tables \<Rightarrow> bool" where
  "revived i d d' \<longleftrightarrow> (\<exists>j now t. job_of i d = Some j \<and> Status j = Dead
     \<and> jobs d' = jobs (set_job i (retry_job now) d) \<and> executions d' = executions d
     \<and> outbox_of i d' = Some \<lparr>ObJobID = i, ObGeneration = QueueGeneration j + 1, ObRunAt = now,
         ObKind = OutboxImmediate, ObCreatedAt = t\<rparr>)"

lemma kinds [simp]: "OutboxImmediate \<noteq> OutboxScheduled" "OutboxScheduled \<noteq> OutboxImmediate"
  by (simp_all add: OutboxImmediate_def OutboxScheduled_def)

lemma insertOutboxTx_valid:
  "kind = OutboxImmediate \<or> kind = OutboxScheduled \<Longrightarrow> insertOutboxTx E i g t kind =
     wrap ''insert outbox entry for job'' (tx_sql E (\<lambda>now. upsert_outbox
       \<lparr>ObJobID = i, ObGeneration = g, ObRunAt = t, ObKind = kind, ObCreatedAt = now\<rparr>))"
  by (auto simp: insertOutboxTx_def)

lemma outbox_of_upsert:
  "upsert_outbox e d = Inr (u, d') \<Longrightarrow> outbox_of (ObJobID e) d' = Some e"
proof (cases "ObJobID e \<in> ObJobID ` set (outbox d)")
  case True
  have "find_by ObJobID (ObJobID e) (update_where (\<lambda>o'. ObJobID o' = ObJobID e) (\<lambda>_. e) xs) = Some e"
    if "ObJobID e \<in> ObJobID ` set xs" for xs
    using that by (induction xs) auto
  with True show "upsert_outbox e d = Inr (u, d') \<Longrightarrow> ?thesis"
    by (auto simp: upsert_outbox_def split: if_splits)
next
  case False
  then have "outbox_of (ObJobID e) d = None" by (simp add: find_by_None_iff)
  with False show "upsert_outbox e d = Inr (u, d') \<Longrightarrow> ?thesis"
    by (auto simp: upsert_outbox_def split: if_splits)
qed

lemma created_stmts:
  assumes "schema_ok d" and "insert_job (new_job E i Pending inp now) d = Inr (k, v)"
    and "upsert_outbox \<lparr>ObJobID = k, ObGeneration = 1, ObRunAt = InRunAt inp,
           ObKind = (if now < InRunAt inp then OutboxScheduled else OutboxImmediate), ObCreatedAt = t\<rparr> v = Inr (u, v')"
  shows "created E inp k d v'"
proof -
  have k: "k = i" "v = d\<lparr>jobs := jobs d @ [new_job E i Pending inp now]\<rparr>" "i \<notin> ID ` set (jobs d)"
    using insert_job_run [OF assms(2)] by (simp_all add: new_job_def)
  have "i \<notin> ObJobID ` set (outbox d)" using assms(1) k(3) by (auto simp: schema_ok_def outbox_ok_def)
  then have "v' = v\<lparr>outbox := outbox d @ [\<lparr>ObJobID = i, ObGeneration = 1, ObRunAt = InRunAt inp,
           ObKind = (if now < InRunAt inp then OutboxScheduled else OutboxImmediate), ObCreatedAt = t\<rparr>]\<rparr>"
    using assms(3) k by (simp add: upsert_outbox_def split: if_splits)
  then show ?thesis using k unfolding created_def by (intro exI [of _ now] exI [of _ t]) simp
qed

lemma valid_Create_atomic:
  assumes ok: "schema_ok d0"
  shows "valid (holds (\<lambda>d s. d = d0)) (Create E inp)
    (post (\<lambda>i. holds (\<lambda>d s. created E inp i d0 d)) (holds (\<lambda>d s. d = d0 \<or> (\<exists>i. created E inp i d0 d))))"
proof (cases "validateCreateJobInput E inp")
  case (Some e)
  then show ?thesis by (simp add: Create_def valid_def holds_def)
next
  case None
  let ?R = "\<lambda>d s. d = d0 \<or> (\<exists>i. created E inp i d0 d)"
  let ?B = "\<lambda>v d s. v = d0 \<and> d = d0"
  let ?P = "\<lambda>i now k v d s. d = d0 \<and> insert_job (new_job E i Pending inp now) d0 = Inr (k, v)"
  let ?D = "\<lambda>k v d s. d = d0 \<and> created E inp k d0 v"
  have ins: "valid (in_tx ?B) (tx_sql E (\<lambda>_. insert_job (new_job E i Pending inp now)))
      (post (\<lambda>k. in_tx (?P i now k)) (holds ?R))" for i now
    by (rule valid_tx_sql) auto
  have ob: "valid (in_tx (?P i now k)) (insertOutboxTx E k 1 (InRunAt inp)
      (if now < InRunAt inp then OutboxScheduled else OutboxImmediate)) (post (\<lambda>_. in_tx (?D k)) (holds ?R))" for i now k
    by (subst insertOutboxTx_valid, simp, rule valid_wrap, rule valid_tx_sql) (use created_stmts [OF ok] in auto)
  have commit: "valid (in_tx (?D k)) (bind (wrap msg (tx_commit E)) (\<lambda>_. ret k))
      (post (\<lambda>i. holds (\<lambda>d s. created E inp i d0 d)) (holds ?R))" for msg k
    by (rule valid_bind [OF valid_wrap [OF valid_tx_commit [where Q = "\<lambda>d s. created E inp k d0 d"]]])
       (auto intro: valid_ret)
  have begin_tx: "valid (holds (\<lambda>d s. d = d0)) (tx_begin E) (post (\<lambda>_. in_tx ?B) (holds ?R))"
    by (rule valid_tx_begin) auto
  show ?thesis
    unfolding Create_def None option.case
  proof (rule valid_bindH [OF valid_uuid_New], assumption, rule valid_bindH [OF valid_time_Now], assumption,
      rule valid_with_rollback, rule valid_bind [OF valid_wrap [OF begin_tx]], rule valid_bind [OF valid_result_of [OF ins]])
    fix i now r
    show "valid (post (\<lambda>k. in_tx (?P i now k)) (holds ?R) r) (case r of
        Inl e \<Rightarrow> if e = PgUnique ''jobs_idempotency_key_key'' then fail ErrConflict
                 else fail (Wrap ''failed to create job'' e)
      | Inr jobID \<Rightarrow> bind (insertOutboxTx E jobID 1 (InRunAt inp)
            (if now < InRunAt inp then OutboxScheduled else OutboxImmediate)) (\<lambda>_.
          bind (wrap ''commit create job transaction'' (tx_commit E)) (\<lambda>_. ret jobID)))
      (post (\<lambda>i. holds (\<lambda>d s. created E inp i d0 d)) (holds ?R))"
      by (rule valid_sum_cases, simp add: valid_def, rule valid_bind [OF ob commit])
  qed
qed

text \<open>C19. \<open>Create\<close> is atomic, whatever call fails: the tables either do not change, or gain
  exactly one pending job of generation 1 and its outbox row; a reported success means the
  second.\<close>

theorem Create_atomic:
  assumes "schema_ok (db w)" and "Create E inp w = (r, w')"
  shows "(db w' = db w \<or> (\<exists>i. created E inp i (db w) (db w'))) \<and> (\<forall>i. r = Inr i \<longrightarrow> created E inp i (db w) (db w'))"
  using validD [OF valid_Create_atomic [OF assms(1)] _ assms(2)] by (cases r) (auto simp: holds_def)

theorem Create_atomic_witness:
  "\<exists>w' i. Create demo_env demo_input demo_world = (Inr i, w') \<and> created demo_env demo_input i (db demo_world) (db w')"
proof -
  have ok: "schema_ok (db demo_world)"
    by (simp add: demo_world_def demo_tables_def schema_ok_def jobs_ok_def outbox_ok_def executions_ok_def)
  have "fst (Create demo_env demo_input demo_world) = Inr 0" by code_simp
  then have run: "Create demo_env demo_input demo_world = (Inr 0, snd (Create demo_env demo_input demo_world))"
    by (metis prod.collapse)
  show ?thesis using Create_atomic [OF ok run] run by blast
qed

lemma retry_stmt:
  assumes "schema_ok d" and "update_returning (row_in Dead i) (\<lambda>_. retry_job now) QueueGeneration t d = Inr (r, v)"
  shows "case r of None \<Rightarrow> v = d
    | Some g \<Rightarrow> \<exists>j. job_of i d = Some j \<and> Status j = Dead \<and> g = QueueGeneration j + 1 \<and> v = set_job i (retry_job now) d"
proof -
  have "update_returning (row_in Dead i) (\<lambda>_. retry_job now) QueueGeneration t d
      = update_returning (row_in Dead i) retry_job QueueGeneration now d" by (simp add: update_returning_def)
  with assms(2) show ?thesis
    using retry.update_returning_run [OF assms(1), where i = i and col = QueueGeneration and t = now]
    by (auto simp: row_in_def retry_job_def split: option.splits if_splits)
qed

lemma valid_Retry_atomic:
  assumes ok: "schema_ok d0"
  shows "valid (holds (\<lambda>d s. d = d0)) (Retry E i)
    (post (\<lambda>_. holds (\<lambda>d s. revived i d0 d)) (holds (\<lambda>d s. d = d0 \<or> revived i d0 d)))"
proof -
  let ?R = "\<lambda>d s. d = d0 \<or> revived i d0 d"
  let ?B = "\<lambda>v d s. v = d0 \<and> d = d0"
  let ?P = "\<lambda>now g v d s. d = d0 \<and> (\<exists>j. job_of i d0 = Some j \<and> Status j = Dead \<and> g = QueueGeneration j + 1
      \<and> v = set_job i (retry_job now) d0)"
  let ?D = "\<lambda>v d s. d = d0 \<and> revived i d0 v"
  have upd: "valid (in_tx ?B) (scan_row (tx_sql E (update_returning (row_in Dead i) (\<lambda>_. retry_job now) QueueGeneration)))
      (post (\<lambda>g. in_tx (?P now g)) (holds ?R))" for now
  proof (rule valid_scan_row)
    have "valid (in_tx ?B) (tx_sql E (update_returning (row_in Dead i) (\<lambda>_. retry_job now) QueueGeneration))
        (post (\<lambda>r. in_tx (\<lambda>v d s. d = d0 \<and> (case r of None \<Rightarrow> v = d0 | Some g \<Rightarrow> ?P now g v d s))) (holds ?R))"
      by (rule valid_tx_sql) (use retry_stmt [OF ok] in \<open>force split: option.splits\<close>)+
    then show "valid (in_tx ?B) (tx_sql E (update_returning (row_in Dead i) (\<lambda>_. retry_job now) QueueGeneration))
        (post (\<lambda>r w. case r of None \<Rightarrow> holds ?R w | Some g \<Rightarrow> in_tx (?P now g) w) (holds ?R))"
      by (rule valid_conseq) (auto simp: post_def in_tx_def holds_def split: sum.splits option.splits)
  qed
  have ob: "valid (in_tx (?P now g)) (insertOutboxTx E i g now OutboxImmediate) (post (\<lambda>_. in_tx ?D) (holds ?R))" for now g
  proof (subst insertOutboxTx_valid, simp, rule valid_wrap, rule valid_tx_sql)
    fix v d s t a v'
    assume P: "?P now g v d s" and up: "upsert_outbox \<lparr>ObJobID = i, ObGeneration = g, ObRunAt = now,
      ObKind = OutboxImmediate, ObCreatedAt = t\<rparr> v = Inr (a, v')"
    then show "?D v' d s"
      using upsert_effect(1,2) [OF up] outbox_of_upsert [OF up] by (auto simp: revived_def)
  qed auto
  have commit: "valid (in_tx ?D) (wrap msg (tx_commit E)) (post (\<lambda>_. holds (\<lambda>d s. revived i d0 d)) (holds ?R))" for msg
    by (rule valid_wrap [OF valid_tx_commit]) auto
  have begin_tx: "valid (holds (\<lambda>d s. d = d0)) (tx_begin E) (post (\<lambda>_. in_tx ?B) (holds ?R))"
    by (rule valid_tx_begin) auto
  have fails: "valid (holds ?R) (fail e :: unit handler) (post (\<lambda>_. holds (\<lambda>d s. revived i d0 d)) (holds ?R))" for e
    by (rule valid_fail_H)
  show ?thesis
    unfolding Retry_def
    by (rule valid_with_rollback, rule valid_bind [OF valid_wrap [OF begin_tx]],
        rule valid_bind [OF valid_in_tx_now(1)], rule valid_bind [OF valid_result_of [OF upd]],
        rule valid_case_sum, simp only: post_simps, rule valid_if,
        rule valid_bindH [OF valid_look], rule valid_case_sum [where P = "\<lambda>_. holds ?R"], rule valid_if, rule fails, rule fails,
        rule fails, rule fails, simp only: post_simps, rule valid_bind [OF ob commit])
qed

text \<open>C21. \<open>Retry\<close> is atomic, whatever call fails: the tables either do not change, or the job,
  which was dead, waits again with all its attempts in the next generation and its outbox row
  carries that generation; a reported success means the second.\<close>

theorem Retry_atomic:
  assumes "schema_ok (db w)" and "JobRepo.Retry E i w = (r, w')"
  shows "(db w' = db w \<or> revived i (db w) (db w')) \<and> (r = Inr () \<longrightarrow> revived i (db w) (db w'))"
  using validD [OF valid_Retry_atomic [OF assms(1)] _ assms(2)] by (cases r) (auto simp: holds_def)

theorem Retry_atomic_witness:
  "\<exists>w'. JobRepo.Retry demo_env 5 (demo_with [demo_row Dead]) = (Inr (), w') \<and> revived 5 (db (demo_with [demo_row Dead])) (db w')"
proof -
  have "fst (JobRepo.Retry demo_env 5 (demo_with [demo_row Dead])) = Inr ()" by code_simp
  then have run: "JobRepo.Retry demo_env 5 (demo_with [demo_row Dead]) = (Inr (), snd (JobRepo.Retry demo_env 5 (demo_with [demo_row Dead])))"
    by (metis prod.collapse)
  show ?thesis using Retry_atomic [OF demo_with_ok run] run by blast
qed

section \<open>Outcomes when every call is answered\<close>

lemma up_calls:
  assumes "all_up E"
  shows "tx_begin E w = (Inr (), (tick w)\<lparr>txn := Some (db w, False)\<rparr>)"
    "txn w = Some (v, False) \<Longrightarrow> tx_sql E f w = (case f (clock_at E (calls w)) v of
        Inl e \<Rightarrow> (Inl e, (tick w)\<lparr>txn := Some (v, True)\<rparr>)
      | Inr (a, v') \<Rightarrow> (Inr a, (tick w)\<lparr>txn := Some (v', False)\<rparr>))"
    "txn w = Some (v, False) \<Longrightarrow> tx_commit E w = (Inr (), (tick w)\<lparr>db := v, txn := None\<rparr>)"
  using assms by (simp_all add: tx_begin_def tx_sql_def tx_commit_def all_up_def)

lemma Cancel_up:
  assumes "all_up E"
  shows "\<exists>w' now. Cancel E i w = (case job_of i (db w) of
        None \<Rightarrow> (Inl ErrNotFound, w')
      | Some j \<Rightarrow> (if Status j = Pending \<or> Status j = Scheduled then Inr () else Inl ErrNotCancellable, w'))
    \<and> db w' = (case job_of i (db w) of
        None \<Rightarrow> db w
      | Some j \<Rightarrow> if Status j = Pending \<or> Status j = Scheduled then set_job i (cancel_job now) (db w) else db w)"
  by (auto simp: Cancel_def with_rollback_def bind_def wrap_def not_found_def scan_row_def result_of_def
      time_Now_def up_calls [OF assms] select_job_def find_job update_jobs_def set_job_def any_row_def [abs_def]
      split: option.split)

lemma job_of_set: "job_of i d = Some j \<Longrightarrow> i \<in> ID ` set (jobs d)"
  by (auto dest: job_ofD)

lemma upsert_succeeds:
  "ObKind e = OutboxImmediate \<Longrightarrow> ObJobID e \<in> ID ` set (jobs d) \<Longrightarrow> \<exists>d'. upsert_outbox e d = Inr ((), d')"
  by (auto simp: upsert_outbox_def OutboxImmediate_def)

lemma retry_returning:
  assumes "schema_ok d"
  shows "update_returning (row_in Dead i) (\<lambda>_. retry_job now) QueueGeneration t d = (case job_of i d of
      None \<Rightarrow> Inr (None, d)
    | Some j \<Rightarrow> if Status j = Dead then Inr (Some (QueueGeneration j + 1), set_job i (retry_job now) d) else Inr (None, d))"
proof -
  have "update_returning (row_in Dead i) (\<lambda>_. retry_job now) QueueGeneration t d
      = update_returning (row_in Dead i) retry_job QueueGeneration now d" by (simp add: update_returning_def)
  then show ?thesis
    using retry.update_returning_run [OF assms, where i = i and col = QueueGeneration and t = now]
    by (auto simp: row_in_def retry_job_def dest: job_ofD split: option.splits)
qed

text \<open>What \<open>Retry\<close> answers, when its calls are answered: a missing job is \<open>ErrNotFound\<close>; a
  job that is not dead is refused with \<open>ErrNotCancellable\<close>; in both cases the tables are
  unchanged; a dead job is revived.\<close>

lemma Retry_outcome:
  assumes "all_up E" and "schema_ok (db w)"
  shows "\<exists>r w'. JobRepo.Retry E i w = (r, w') \<and> (case job_of i (db w) of
      None \<Rightarrow> r = Inl ErrNotFound \<and> db w' = db w
    | Some j \<Rightarrow> if Status j = Dead then r = Inr () \<and> revived i (db w) (db w')
                else (\<exists>e. r = Inl e \<and> errors_Is e ErrNotCancellable) \<and> db w' = db w)"
proof -
  note eval = Retry_def with_rollback_def bind_def wrap_def scan_row_def result_of_def time_Now_def
    up_calls [OF assms(1)] retry_returning [OF assms(2)] select_job_def find_job
  show ?thesis
  proof (cases "\<exists>j. job_of i (db w) = Some j \<and> Status j = Dead")
    case False
    then show ?thesis by (cases "job_of i (db w)") (simp_all add: eval)
  next
    case True
    then obtain j where j: "job_of i (db w) = Some j" "Status j = Dead" by blast
    have "i \<in> ID ` set (jobs (set_job i (retry_job now) (db w)))" for now
      using job_of_set [of i "set_job i (retry_job now) (db w)"] j by (simp add: retry.job_of_set_job)
    then have up: "\<exists>d'. upsert_outbox \<lparr>ObJobID = i, ObGeneration = g, ObRunAt = now, ObKind = OutboxImmediate,
        ObCreatedAt = t\<rparr> (set_job i (retry_job now) (db w)) = Inr ((), d')" for g now t
      by (intro upsert_succeeds) simp_all
    from up obtain F where F: "\<And>g now t. upsert_outbox \<lparr>ObJobID = i, ObGeneration = g, ObRunAt = now, ObKind = OutboxImmediate,
        ObCreatedAt = t\<rparr> (set_job i (retry_job now) (db w)) = Inr ((), F g now t)" by metis
    have "fst (JobRepo.Retry E i w) = Inr ()"
      by (simp add: eval insertOutboxTx_valid F j)
    then have run: "JobRepo.Retry E i w = (Inr (), snd (JobRepo.Retry E i w))" by (metis prod.collapse)
    have "revived i (db w) (db (snd (JobRepo.Retry E i w)))"
      using validD [OF valid_Retry_atomic [OF assms(2)] _ run] by (simp add: holds_def)
    with j run show ?thesis by auto
  qed
qed

end
