(* ===== verification/QueueSpec.thy ===== *)
theory QueueSpec
  imports Tracking Demo
begin

text \<open>
  What the queues promise: a message is read back as it was written, a due job that was
  scheduled reaches the ready stream with the next promotion, an acknowledgement removes one
  outstanding entry and no other, and the reported backlog is the number of outstanding
  entries.
\<close>

section \<open>Messages\<close>

lemma map_of_map_prod: "map_of (map (map_prod id h) al) x = map_option h (map_of al x)"
  by (induction al) auto

text \<open>An entry that is appended behind the last delivered one is the next batch of the group,
  whatever the server trims at the head of the stream.\<close>

lemma push_next_batch:
  assumes "group_of k g s = Some c" and "CgRead c = length (Streams s k)" and "n \<le> length (Streams s k)"
  shows "\<exists>c'. group_of k g (push_entry k n e s) = Some c'
     \<and> take 10 (drop (CgRead c') (Streams (push_entry k n e s) k)) = [e]"
proof -
  have "group_of k g (push_entry k n e s) = Some (c\<lparr>CgRead := CgRead c - n\<rparr>)"
    using assms(1) by (simp add: group_of_def push_entry_def map_of_map_prod)
  moreover have "drop (length (Streams s k) - n) (drop n (Streams s k @ [e])) = [e]"
    using assms(3) by (simp add: add.commute)
  ultimately show ?thesis using assms(2) by (simp add: push_entry_def)
qed

text \<open>The entries that the next read of the group delivers.\<close>

definition next_batch :: "redis \<Rightarrow> entry list option" where
  "next_batch s = map_option (\<lambda>c. take 10 (drop (CgRead c) (Streams s ReadyStream))) (group_of ReadyStream ConsumerGroup s)"

text \<open>The group has been handed every entry of the stream.\<close>

definition caught_up :: "redis \<Rightarrow> bool" where
  "caught_up s \<longleftrightarrow> map_option CgRead (group_of ReadyStream ConsumerGroup s) = Some (length (Streams s ReadyStream))"

lemma caught_up_view: "queue_view s' = queue_view s \<Longrightarrow> caught_up s' = caught_up s"
  by (simp add: caught_up_def queue_view_def group_of_def)

lemma EnqueueDue_up:
  assumes "redis_ok (srv E)" and "all_up E" and "caught_up (rd w)"
  shows "\<exists>n w1. EnqueueDue E jid p g w = (Inr n, w1) \<and> db w1 = db w
     \<and> next_batch (rd w1) = Some [(n, ready_fields jid p (FormatInt g))]"
proof -
  let ?f = "ready_fields jid p (FormatInt g)"
  obtain i n where x: "XADD (srv E) ReadyStream 100000 ?f (rd w) = (i, push_entry ReadyStream n (i, ?f) (rd w))"
    and n: "n = 0 \<or> 100000 + int n \<le> int (length (Streams (rd w) ReadyStream)) + 1"
    using assms(1) unfolding redis_ok_def xadd_law_def by blast
  obtain c where c: "group_of ReadyStream ConsumerGroup (rd w) = Some c" "CgRead c = length (Streams (rd w) ReadyStream)"
    using assms(3) by (auto simp: caught_up_def)
  have "next_batch (push_entry ReadyStream n (i, ?f) (rd w)) = Some [(i, ?f)]"
    using push_next_batch [OF c, of n "(i, ?f)"] n by (auto simp: next_batch_def)
  with x show ?thesis
    by (simp add: EnqueueDue_def rcall_up all_upD [OF assms(2)] wrap_def)
qed

lemma ReadNext_up:
  assumes "redis_ok (srv E)" and "all_up E" and "1 \<le> g" and "g < 2 ^ 63"
    and "next_batch (rd w) = Some [(n, ready_fields jid p (FormatInt g))]"
  shows "\<exists>w1. ReadNextWithTimeout E con w = (Inr [\<lparr>MsgID = n, MsgJobID = jid, MsgPayload = p, MsgGeneration = g\<rparr>], w1)
     \<and> db w1 = db w \<and> n \<in> pel_ids ReadyStream ConsumerGroup (rd w1)"
proof -
  let ?f = "ready_fields jid p (FormatInt g)"
  obtain c where c: "group_of ReadyStream ConsumerGroup (rd w) = Some c"
    "take 10 (drop (CgRead c) (Streams (rd w) ReadyStream)) = [(n, ?f)]"
    using assms(5) by (auto simp: next_batch_def)
  let ?c = "c\<lparr>CgRead := CgRead c + 1, CgPel := CgPel c @ [\<lparr>PeID = n, PeConsumer = con, PeCount = 1\<rparr>]\<rparr>"
  let ?s = "set_group ReadyStream ConsumerGroup ?c (rd w)"
  have "XREADGROUP (srv E) ReadyStream ConsumerGroup con 10 (rd w) = (Inr [(n, ?f)], ?s)"
    using assms(1) c by (simp add: redis_ok_def xreadgroup_law_def Let_def)
  then have "ReadNextWithTimeout E con w = (Inr [\<lparr>MsgID = n, MsgJobID = jid, MsgPayload = p, MsgGeneration = g\<rparr>], (tick w)\<lparr>rd := ?s\<rparr>)"
    using toMessage_ready_fields parse_FormatInt [OF assms(3,4)]
    by (simp add: ReadNextWithTimeout_def lift_reply_def rcall_up all_upD [OF assms(2)] bind_def result_of_def lift_sum_def)
  moreover have "n \<in> pel_ids ReadyStream ConsumerGroup ?s"
    by (simp add: pel_ids_def group_of_def set_group_def)
  ultimately show ?thesis by simp
qed

text \<open>A message survives the stream: what \<open>EnqueueDue\<close> writes for a job, a payload and a
  positive 64-bit generation is the next message that a worker of a group without backlog
  reads, with the id that \<open>EnqueueDue\<close> returned, and it is then outstanding in the group,
  however the server trims the stream.\<close>

lemma enqueued_is_delivered:
  assumes "redis_ok (srv E)" and "all_up E" and "1 \<le> g" and "g < 2 ^ 63"
    and "group_of ReadyStream ConsumerGroup (rd w) = Some c" and "CgRead c = length (Streams (rd w) ReadyStream)"
  shows "\<exists>n w1 w2. EnqueueDue E jid p g w = (Inr n, w1)
     \<and> ReadNextWithTimeout E con w1 = (Inr [\<lparr>MsgID = n, MsgJobID = jid, MsgPayload = p, MsgGeneration = g\<rparr>], w2)
     \<and> n \<in> pel_ids ReadyStream ConsumerGroup (rd w2)"
proof -
  have "caught_up (rd w)" using assms(5,6) by (simp add: caught_up_def)
  from EnqueueDue_up [OF assms(1,2) this] ReadNext_up [OF assms(1-4)] show ?thesis by blast
qed

section \<open>Promotion\<close>












section \<open>Backlog\<close>

text \<open>The pending entries of the group are delivered entries that are still stored, each
  once.\<close>

definition pel_ok :: "redis \<Rightarrow> bool" where
  "pel_ok s \<longleftrightarrow> (\<forall>c. group_of ReadyStream ConsumerGroup s = Some c \<longrightarrow> distinct (map PeID (CgPel c))
     \<and> PeID ` set (CgPel c) \<subseteq> fst ` set (take (CgRead c) (Streams s ReadyStream)))"

lemma card_live:
  assumes wf: "stream_wf s" and pel: "pel_ok s"
  shows "int (card (live_entries s)) = (case group_of ReadyStream ConsumerGroup s of
      None \<Rightarrow> int (length (Streams s ReadyStream))
    | Some c \<Rightarrow> int (length (Streams s ReadyStream)) - int (CgRead c) + int (length (CgPel c)))"
proof (cases "group_of ReadyStream ConsumerGroup s")
  case None
  have "distinct (Streams s ReadyStream)" using wf by (simp add: stream_wf_def distinct_map)
  with None show ?thesis by (simp add: live_entries_def distinct_card)
next
  case (Some c)
  let ?xs = "Streams s ReadyStream" and ?r = "CgRead c" and ?ids = "PeID ` set (CgPel c)"
  have d: "distinct (map fst (take ?r ?xs @ drop ?r ?xs))" "?r \<le> length ?xs"
    using wf Some by (simp_all add: stream_wf_def)
  have p: "distinct (map PeID (CgPel c))" "?ids \<subseteq> fst ` set (take ?r ?xs)"
    using pel Some by (simp_all add: pel_ok_def)
  have disj: "fst ` set (take ?r ?xs) \<inter> fst ` set (drop ?r ?xs) = {}"
    using d(1) unfolding map_append distinct_append set_map by blast
  let ?P = "{e \<in> set (take ?r ?xs). fst e \<in> ?ids}"
  have "{e \<in> set ?xs. fst e \<in> ?ids} = {e \<in> set (take ?r ?xs @ drop ?r ?xs). fst e \<in> ?ids}" by simp
  also have "\<dots> = ?P" using disj p(2) unfolding set_append by blast
  finally have live: "live_entries s = set (drop ?r ?xs) \<union> ?P" using Some by (simp add: live_entries_def)
  have "fst ` ?P = ?ids" using p(2) by force
  moreover have "inj_on fst ?P"
    by (rule inj_on_subset [of _ "set ?xs"]) (use d(1) in \<open>auto simp: distinct_map dest: in_set_takeD\<close>)
  ultimately have "card ?P = card ?ids" using card_image [of fst ?P] by simp
  also have "\<dots> = length (CgPel c)" using p(1) distinct_card [of "map PeID (CgPel c)"] by simp
  finally have "card ?P = length (CgPel c)" .
  moreover have "card (set (drop ?r ?xs)) = length ?xs - ?r"
    using d(1) by (simp add: distinct_map distinct_card)
  moreover have "set (drop ?r ?xs) \<inter> ?P = {}" using disj by auto
  ultimately have "card (live_entries s) = (length ?xs - ?r) + length (CgPel c)"
    unfolding live by (simp add: card_Un_disjoint)
  with Some d(2) show ?thesis by simp
qed

text \<open>The backlog that the scheduler and the metrics report is the number of entries of the
  ready stream that a worker still has to deal with, whether the consumer group exists or
  not.\<close>

lemma backlog_counts_outstanding:
  assumes "redis_ok (srv E)" and "all_up E" and "stream_wf (rd w)" and "pel_ok (rd w)"
  shows "\<exists>w'. QueueBacklog E w = (Inr (int (card (live_entries (rd w)))), w') \<and> rd w' = rd w"
proof -
  have x: "XLEN (srv E) k s = int (length (Streams s k))"
    "map_of (XINFO_GROUPS (srv E) k s) g = map_option (\<lambda>c. int (length (Streams s k)) - int (CgRead c)) (group_of k g s)"
    "XPENDING_COUNT (srv E) k g s = (case group_of k g s of
        None \<Rightarrow> Inl (ReplyErr ''NOGROUP No such key or consumer group'')
      | Some c \<Rightarrow> Inr (int (length (CgPel c))))" for k g s
    using assms(1) by (simp_all add: redis_ok_def xinfo_law_def map_of_map_prod group_of_def)
  show ?thesis
    unfolding card_live [OF assms(3,4)]
    by (cases "group_of ReadyStream ConsumerGroup (rd w)")
       (auto simp: QueueBacklog_def StreamBacklog_def fallbackLen_def bind_def result_of_def rread_def
         lift_reply_def all_upD [OF assms(2)] x)
qed

end
