(* ===== verification/LeaderSpec.thy ===== *)
theory LeaderSpec
  imports Scheduler Demo
begin

text \<open>
  At most one scheduler leads. A locale states what a lease with an expiry promises (who
  holds it, until when, and what taking, renewing, checking and giving it back do); the two Lua
  scripts and \<open>SETNX\<close> are its instance. The state machine of several instances that share one
  key keeps, for each of them, the time until which it may take itself for the leader.
\<close>

section \<open>The contract of a lease\<close>

locale lease =
  fixes ok :: "'c \<Rightarrow> bool" and held :: "'s \<Rightarrow> (string \<times> int) option" and now :: "'s \<Rightarrow> int"
    and take_lease :: "'c \<Rightarrow> string \<Rightarrow> int \<Rightarrow> 's \<Rightarrow> bool \<times> 's"
    and renew_lease :: "'c \<Rightarrow> string \<Rightarrow> int \<Rightarrow> 's \<Rightarrow> bool \<times> 's"
    and drop_lease :: "'c \<Rightarrow> string \<Rightarrow> 's \<Rightarrow> bool \<times> 's"
  assumes take_law: "ok c \<Longrightarrow> take_lease c i ttl s = (b, s') \<Longrightarrow> now s' = now s
      \<and> (if b then (\<forall>v t. held s = Some (v, t) \<longrightarrow> t \<le> now s) \<and> held s' = Some (i, now s + ttl) else held s' = held s)"
    and renew_law: "ok c \<Longrightarrow> renew_lease c i ttl s = (b, s') \<Longrightarrow> now s' = now s
      \<and> (if b then (\<exists>t. held s = Some (i, t) \<and> now s < t) \<and> held s' = Some (i, now s + ttl) else held s' = held s)"
    and drop_law: "ok c \<Longrightarrow> drop_lease c i s = (b, s') \<Longrightarrow> now s' = now s
      \<and> (if b then (\<exists>t. held s = Some (i, t)) \<and> held s' = None else held s' = held s)"
begin

text \<open>\<open>until i\<close> is the time up to which instance \<open>i\<close> may take itself for the holder.\<close>

definition safe :: "int \<Rightarrow> (string \<Rightarrow> int) \<Rightarrow> 's \<Rightarrow> bool" where
  "safe ttl until s \<longleftrightarrow> (\<forall>i. now s < until i \<longrightarrow> (\<exists>t. held s = Some (i, t) \<and> until i \<le> t))
     \<and> (\<forall>i t. held s = Some (i, t) \<longrightarrow> t \<le> now s + ttl) \<and> (\<forall>i. until i \<le> now s + ttl)"

lemma safe_holder: "safe ttl until s \<Longrightarrow> now s < until i \<Longrightarrow> \<exists>t. held s = Some (i, t) \<and> until i \<le> t"
  by (simp add: safe_def)

lemma safe_exclusive: "safe ttl until s \<Longrightarrow> now s < until i \<Longrightarrow> now s < until j \<Longrightarrow> i = j"
  using safe_holder [of ttl until s i] safe_holder [of ttl until s j] by auto

lemma safe_later:
  assumes "safe ttl until s" and "held s' = held s" and "now s \<le> now s'"
  shows "safe ttl until s'"
proof -
  have le: "x \<le> now s + ttl \<Longrightarrow> x \<le> now s' + ttl" for x using assms(3) by linarith
  have lt: "now s' < x \<Longrightarrow> now s < x" for x using assms(3) by linarith
  show ?thesis using assms(1,2) le lt by (simp add: safe_def)
qed

lemma safe_take:
  assumes "ok c" and "safe ttl until s" and "0 < ttl" and "take_lease c i ttl s = (b, s')"
  shows "safe ttl until s'" and "b \<Longrightarrow> safe ttl (until(i := now s + ttl)) s'"
proof -
  note law = take_law [OF assms(1,4)]
  have free: "until k \<le> now s" if b for k
    using law that assms(2) unfolding safe_def by (metis linorder_not_le order.trans)
  show "safe ttl until s'"
  proof (cases b)
    case True
    then show ?thesis using free law assms(2,3) by (auto simp: safe_def)
  next
    case False
    then show ?thesis using law assms(2) by (simp add: safe_def)
  qed
  show "safe ttl (until(i := now s + ttl)) s'" if b
    using free [OF that] law assms(2,3) that by (auto simp: safe_def)
qed

lemma safe_renew:
  assumes "ok c" and "safe ttl until s" and "0 < ttl" and "renew_lease c i ttl s = (b, s')"
  shows "safe ttl until s'" and "b \<Longrightarrow> safe ttl (until(i := now s + ttl)) s'"
proof -
  note law = renew_law [OF assms(1,4)]
  have mine: "k = i" if b and "now s < until k" for k
    using law that assms(2) by (fastforce simp: safe_def)
  show "safe ttl until s'"
  proof (cases b)
    case True
    then show ?thesis using mine law assms(2,3) by (auto simp: safe_def)
  next
    case False
    then show ?thesis using law assms(2) by (simp add: safe_def)
  qed
  show "safe ttl (until(i := now s + ttl)) s'" if b
    using mine [OF that] law assms(2,3) that by (auto simp: safe_def)
qed

text \<open>An instance that gives its lease back stops leading first, whether the reply arrives or
  not.\<close>

lemma safe_drop:
  assumes "ok c" and "safe ttl until s" and "0 \<le> ttl" and "drop_lease c i s = (b, s')"
  shows "safe ttl (until(i := now s)) s'"
proof -
  have "k = i" if b and "now s < until k" for k
    using drop_law [OF assms(1,4)] that assms(2) by (fastforce simp: safe_def)
  then show ?thesis
    using drop_law [OF assms(1,4)] assms(2,3) by (cases b) (auto simp: safe_def)
qed

lemma safe_check:
  assumes "safe ttl until s" and "held s = Some (i, t)"
  shows "safe ttl (until(i := t)) s"
  using assms by (auto simp: safe_def)

end

section \<open>The scripts implement it\<close>

interpretation lock: lease redis_ok "\<lambda>s. Strings s k" Clock
  "\<lambda>S i ttl s. SETNX S k i ttl s"
  "\<lambda>S i ttl s. map_prod (\<lambda>n. n = 1) id (renewScript S k i ttl s)"
  "\<lambda>S i s. map_prod (\<lambda>n. n = 1) id (releaseScript S k i s)" for k
proof
  fix c i ttl s b s'
  assume "redis_ok c"
  then have law: "SETNX c k v ttl s = (case live k s of Some _ \<Rightarrow> (False, s)
         | None \<Rightarrow> (True, s\<lparr>Strings := (Strings s)(k := Some (v, Clock s + ttl))\<rparr>))"
    "GET c k s = live k s"
    "PEXPIRE c k ttl s = (case live k s of None \<Rightarrow> (0, s)
         | Some v \<Rightarrow> (1, s\<lparr>Strings := (Strings s)(k := Some (v, Clock s + ttl))\<rparr>))"
    "DEL c k s = (case live k s of None \<Rightarrow> (0, s) | Some _ \<Rightarrow> (1, s\<lparr>Strings := (Strings s)(k := None)\<rparr>))" for v ttl
    by (simp_all add: redis_ok_def string_law_def)
  show "SETNX c k i ttl s = (b, s') \<Longrightarrow> Clock s' = Clock s
      \<and> (if b then (\<forall>v t. Strings s k = Some (v, t) \<longrightarrow> t \<le> Clock s) \<and> Strings s' k = Some (i, Clock s + ttl)
         else Strings s' k = Strings s k)"
    by (auto simp: law live_def split: option.splits if_splits)
  show "map_prod (\<lambda>n. n = 1) id (renewScript c k i ttl s) = (b, s') \<Longrightarrow> Clock s' = Clock s
      \<and> (if b then (\<exists>t. Strings s k = Some (i, t) \<and> Clock s < t) \<and> Strings s' k = Some (i, Clock s + ttl)
         else Strings s' k = Strings s k)"
    by (auto simp: renewScript_def law live_def split: option.splits if_splits)
  show "map_prod (\<lambda>n. n = 1) id (releaseScript c k i s) = (b, s') \<Longrightarrow> Clock s' = Clock s
      \<and> (if b then (\<exists>t. Strings s k = Some (i, t)) \<and> Strings s' k = None else Strings s' k = Strings s k)"
    by (auto simp: releaseScript_def law live_def split: option.splits if_splits)
qed

section \<open>Several schedulers\<close>

definition lock_of :: "string \<Rightarrow> int \<Rightarrow> string \<Rightarrow> leader_lock" where
  "lock_of k ttl i = \<lparr>LkKey = k, LkInstance = i, LkTtl = ttl\<rparr>"

text \<open>A state is the world and, for each instance, the time until which it may take itself for
  the leader. A successful \<open>Acquire\<close> or \<open>Renew\<close> extends it by the TTL, a positive
  \<open>IsLeader\<close> to the end of the lease, \<open>Release\<close> ends it. Everything else leaves the key
  alone, and time passes.\<close>

inductive lock_step :: "env \<Rightarrow> string \<Rightarrow> int \<Rightarrow> world \<times> (string \<Rightarrow> int) \<Rightarrow> world \<times> (string \<Rightarrow> int) \<Rightarrow> bool"
  for E k ttl where
  acquire: "Acquire E (lock_of k ttl i) w = (r, w') \<Longrightarrow>
     lock_step E k ttl (w, u) (w', if r = Inr True then u(i := Clock (rd w) + Milliseconds ttl) else u)"
| renew: "Renew E (lock_of k ttl i) w = (r, w') \<Longrightarrow>
     lock_step E k ttl (w, u) (w', if r = Inr True then u(i := Clock (rd w) + Milliseconds ttl) else u)"
| check: "IsLeader E (lock_of k ttl i) w = (r, w') \<Longrightarrow>
     lock_step E k ttl (w, u) (w', case (r, Strings (rd w) k) of (Inr True, Some (v, t)) \<Rightarrow> u(i := t) | _ \<Rightarrow> u)"
| release: "Release E (lock_of k ttl i) w = (r, w') \<Longrightarrow>
     lock_step E k ttl (w, u) (w', u(i := Clock (rd w)))"
| other: "Strings (rd w') k = Strings (rd w) k \<Longrightarrow> Clock (rd w) \<le> Clock (rd w') \<Longrightarrow>
     lock_step E k ttl (w, u) (w', u)"

inductive lock_reachable :: "env \<Rightarrow> string \<Rightarrow> int \<Rightarrow> world \<times> (string \<Rightarrow> int) \<Rightarrow> bool" for E k ttl where
  free: "Strings (rd w) k = None \<Longrightarrow> (\<And>i. u i \<le> Clock (rd w)) \<Longrightarrow> lock_reachable E k ttl (w, u)"
| move: "lock_reachable E k ttl x \<Longrightarrow> lock_step E k ttl x y \<Longrightarrow> lock_reachable E k ttl y"

text \<open>A call on the lock either did not happen, or happened and was answered, or happened
  unanswered.\<close>

lemma rcall_cases:
  assumes "rcall E f w = (r, w')"
  shows "rd w' = rd w \<and> (\<forall>a. r \<noteq> Inr a) \<or> rd w' = snd (f (srv E) (rd w)) \<and> (\<forall>a. r = Inr a \<longrightarrow> a = fst (f (srv E) (rd w)))"
  using assms by (auto simp: rcall_def split: fault.splits)

lemma wrap_rcall_cases:
  assumes "wrap msg (rcall E f) w = (r, w')"
  shows "rd w' = rd w \<and> (\<forall>a. r \<noteq> Inr a) \<or> rd w' = snd (f (srv E) (rd w)) \<and> (\<forall>a. r = Inr a \<longrightarrow> a = fst (f (srv E) (rd w)))"
  using assms rcall_cases [of E f w] by (auto simp: wrap_def split: prod.splits sum.splits)

lemma lock_calls:
  assumes "1000000 \<le> ttl"
  shows "Acquire E (lock_of k ttl i) w = (r, w') \<Longrightarrow>
      rd w' = rd w \<and> r \<noteq> Inr True \<or> (\<exists>b. SETNX (srv E) k i (Milliseconds ttl) (rd w) = (b, rd w') \<and> (r = Inr True \<longrightarrow> b))"
    and "Renew E (lock_of k ttl i) w = (r, w') \<Longrightarrow>
      rd w' = rd w \<and> r \<noteq> Inr True \<or> (\<exists>b. map_prod (\<lambda>n. n = 1) id (renewScript (srv E) k i (Milliseconds ttl) (rd w)) = (b, rd w') \<and> (r = Inr True \<longrightarrow> b))"
    and "Release E (lock_of k ttl i) w = (r, w') \<Longrightarrow>
      rd w' = rd w \<or> (\<exists>b. map_prod (\<lambda>n. n = 1) id (releaseScript (srv E) k i (rd w)) = (b, rd w'))"
    and "IsLeader E (lock_of k ttl i) w = (r, w') \<Longrightarrow>
      rd w' = rd w \<and> (r = Inr True \<longrightarrow> GET (srv E) k (rd w) = Some i)"
proof -
  have ms: "expiry_ms ttl = Milliseconds ttl" using assms by (simp add: expiry_ms_def)
  show "rd w' = rd w \<and> r \<noteq> Inr True \<or> (\<exists>b. SETNX (srv E) k i (Milliseconds ttl) (rd w) = (b, rd w') \<and> (r = Inr True \<longrightarrow> b))"
    if "Acquire E (lock_of k ttl i) w = (r, w')"
    using wrap_rcall_cases [OF that [unfolded Acquire_def lock_of_def leader_lock.simps ms]] by (metis prod.collapse)
  show "rd w' = rd w \<and> r \<noteq> Inr True \<or> (\<exists>b. map_prod (\<lambda>n. n = 1) id (renewScript (srv E) k i (Milliseconds ttl) (rd w)) = (b, rd w') \<and> (r = Inr True \<longrightarrow> b))"
    if run: "Renew E (lock_of k ttl i) w = (r, w')"
  proof -
    obtain q w1 where q: "wrap ''renew leader lock'' (rcall E (\<lambda>S. renewScript S k i (Milliseconds ttl))) w = (q, w1)" by fastforce
    with run have "w' = w1 \<and> (r = Inr True \<longrightarrow> q = Inr 1)"
      by (auto simp: Renew_def lock_of_def bind_def split: sum.splits)
    with wrap_rcall_cases [OF q] show ?thesis
      by (cases "renewScript (srv E) k i (Milliseconds ttl) (rd w)") auto
  qed
  show "rd w' = rd w \<or> (\<exists>b. map_prod (\<lambda>n. n = 1) id (releaseScript (srv E) k i (rd w)) = (b, rd w'))"
    if run: "Release E (lock_of k ttl i) w = (r, w')"
  proof -
    obtain q w1 where q: "wrap ''release leader lock'' (rcall E (\<lambda>S. releaseScript S k i)) w = (q, w1)" by fastforce
    with run have "w' = w1" by (auto simp: Release_def lock_of_def bind_def split: sum.splits)
    with wrap_rcall_cases [OF q] show ?thesis by (cases "releaseScript (srv E) k i (rd w)") auto
  qed
  show "rd w' = rd w \<and> (r = Inr True \<longrightarrow> GET (srv E) k (rd w) = Some i)"
    if "IsLeader E (lock_of k ttl i) w = (r, w')"
    using that by (auto simp: IsLeader_def lock_of_def bind_def wrap_def rread_def split: fault.splits option.splits)
qed

lemma lock_step_safe:
  assumes ok: "redis_ok (srv E)" and ttl: "1000000 \<le> ttl"
    and step: "lock_step E k ttl (w, u) (w', u')" and safe: "lock.safe k (Milliseconds ttl) u (rd w)"
  shows "lock.safe k (Milliseconds ttl) u' (rd w')"
  using step
proof cases
  have ms: "0 < Milliseconds ttl" using ttl by (simp add: Milliseconds_def)
  {
    case (acquire i r)
    from lock_calls(1) [OF ttl acquire(2)] show ?thesis
      using lock.safe_take [OF ok safe ms] safe acquire(1) by auto
  next
    case (renew i r)
    from lock_calls(2) [OF ttl renew(2)] show ?thesis
      using lock.safe_renew [OF ok safe ms] safe renew(1) by auto
  next
    case (check i r)
    from lock_calls(4) [OF ttl check(2)] have "rd w' = rd w" "r = Inr True \<longrightarrow> live k (rd w) = Some i"
      using ok by (simp_all add: redis_ok_def string_law_def)
    with check(1) show ?thesis
      using safe lock.safe_check [OF safe] by (auto simp: live_def split: sum.split bool.split option.splits if_splits)
  next
    case (release i r)
    have same: "lock.safe k (Milliseconds ttl) (u(i := Clock (rd w))) (rd w)"
      using safe ms by (auto simp: lock.safe_def)
    from lock_calls(3) [OF ttl release(2)] show ?thesis
      using lock.safe_drop [OF ok safe] ms same release(1) by fastforce
  next
    case other
    then show ?thesis using lock.safe_later [OF safe] by simp
  }
qed

lemma lock_reachable_safe:
  assumes "lock_reachable E k ttl x" and "redis_ok (srv E)" and "1000000 \<le> ttl"
  shows "lock.safe k (Milliseconds ttl) (snd x) (rd (fst x))"
  using assms(1)
proof (induction rule: lock_reachable.induct)
  case (free w u)
  then have "u i \<le> Clock (rd w) + Milliseconds ttl" for i
    using assms(3) by (auto simp: Milliseconds_def intro: order.trans [of _ "Clock (rd w)"])
  then show ?case using free by (simp add: lock.safe_def leD)
next
  case (move x y)
  then show ?case using lock_step_safe [OF assms(2,3), of k "fst x" "snd x" "fst y" "snd y"] by simp
qed

text \<open>C5. At most one scheduler instance leads at any time: however the calls of the instances
  interleave, and whichever of them are lost or stay unanswered, two instances whose leases
  have not ended by the server's clock are the same. The TTL is at least one millisecond.\<close>

theorem one_leader:
  assumes "lock_reachable E k ttl (w, u)" and "redis_ok (srv E)" and "1000000 \<le> ttl"
    and "Clock (rd w) < u i" and "Clock (rd w) < u j"
  shows "i = j"
  using lock.safe_exclusive [OF lock_reachable_safe [OF assms(1-3)]] assms(4,5) by simp

theorem one_leader_witness:
  "\<exists>w u. lock_reachable demo_env ''L'' second (w, u) \<and> Clock (rd w) < u ''a''
     \<and> (\<forall>j. Clock (rd w) < u j \<longrightarrow> ''a'' = j)"
proof -
  let ?u = "\<lambda>_::string. 0::int"
  define q where "q = Acquire demo_env (lock_of ''L'' second ''a'') demo_world"
  have q: "fst q = Inr True" "Clock (rd (snd q)) = 0" unfolding q_def by code_simp+
  have ok: "redis_ok (srv demo_env)" by (simp add: demo_env_def mem_redis_ok)
  let ?u' = "?u(''a'' := Clock (rd demo_world) + Milliseconds second)"
  have "lock_reachable demo_env ''L'' second (demo_world, ?u)"
    by (rule lock_reachable.free) (simp_all add: demo_world_def demo_redis_def)
  moreover have "lock_step demo_env ''L'' second (demo_world, ?u) (snd q, ?u')"
    using lock_step.acquire [of demo_env "''L''" second "''a''" demo_world "fst q" "snd q" ?u] q(1) by (simp add: q_def)
  ultimately have r: "lock_reachable demo_env ''L'' second (snd q, ?u')" by (rule lock_reachable.move)
  have a: "Clock (rd (snd q)) < ?u' ''a''"
    using q(2) by (simp add: demo_world_def demo_redis_def Milliseconds_def second_def)
  have "1000000 \<le> second" by (simp add: second_def)
  from one_leader [OF r ok this a] r a show ?thesis by blast
qed

lemma Acquire_held:
  assumes "redis_ok (srv E)" and "live (LkKey l) (rd w) = Some v" and "Acquire E l w = (r, w')"
  shows "db w' = db w \<and> rd w' = rd w \<and> r \<noteq> Inr True"
  using assms by (auto simp: Acquire_def wrap_def rcall_def redis_ok_def string_law_def split: fault.splits)

text \<open>C35. A scheduler that is not the leader does nothing: while another instance holds an
  unexpired lease, a tick changes neither the tables nor the keyspace and starts no heartbeat,
  whatever fails.\<close>

theorem standby_does_nothing:
  assumes "redis_ok (srv E)" and "live (LkKey l) (rd w) = Some v" and "v \<noteq> LkInstance l"
    and "scheduler_tick E l canc hb st w = (r, w')"
  shows "db w' = db w \<and> rd w' = rd w
     \<and> (\<exists>x st'. r = Inr (x, st') \<and> st' = (if hb then st\<lparr>HeartbeatOn := False\<rparr> else st))"
proof -
  obtain q w1 where q: "IsLeader E l w = (q, w1)" by fastforce
  have w1: "db w1 = db w" "rd w1 = rd w" "q \<noteq> Inr True"
    using q assms(1-3) by (auto simp: IsLeader_def bind_def wrap_def rread_def redis_ok_def string_law_def split: fault.splits)
  obtain a w2 where a: "Acquire E l w1 = (a, w2)" by fastforce
  have held: "live (LkKey l) (rd w1) = Some v" using w1 assms(2) by simp
  note w2 = Acquire_held [OF assms(1) held a]
  show ?thesis
    using assms(4) q a w1 w2
    by (auto simp: scheduler_tick_def Let_def bind_def result_of_def on_error_def ctx_Err_def split: sum.splits prod.splits if_splits)
qed

theorem standby_does_nothing_witness:
  "\<exists>w r w'. live ''L'' (rd w) = Some ''a''
     \<and> scheduler_tick demo_env (lock_of ''L'' second ''b'') (\<lambda>_. False) True
       \<lparr>LastReconcile = 0, LastDepthLog = 0, HeartbeatOn = True\<rparr> w = (r, w') \<and> db w' = db w"
proof -
  let ?w = "demo_world\<lparr>rd := demo_redis\<lparr>Strings := (\<lambda>_. None)(''L'' := Some (''a'', 5))\<rparr>\<rparr>"
  have live: "live (LkKey (lock_of ''L'' second ''b'')) (rd ?w) = Some ''a''"
    by (simp add: live_def demo_redis_def lock_of_def)
  have ok: "redis_ok (srv demo_env)" by (simp add: demo_env_def mem_redis_ok)
  have ne: "''a'' \<noteq> LkInstance (lock_of ''L'' second ''b'')" by (simp add: lock_of_def)
  obtain r w' where run: "scheduler_tick demo_env (lock_of ''L'' second ''b'') (\<lambda>_. False) True
       \<lparr>LastReconcile = 0, LastDepthLog = 0, HeartbeatOn = True\<rparr> ?w = (r, w')"
    by fastforce
  have "live ''L'' (rd ?w) = Some ''a''" using live by (simp add: lock_of_def)
  with standby_does_nothing [OF ok live ne run] run show ?thesis by blast
qed

end
