(* ===== verification/LimiterSpec.thy ===== *)
theory LimiterSpec
  imports Limiter Demo
begin

text \<open>
  The rate limiter is a sliding window: a locale states what one run of a window log does to
  the times it stores, the Lua script on the client's sorted set is its instance, and a run of
  the limiter against an arbitrary rest of the system keeps a log of the requests it let in.
\<close>

section \<open>The contract of a window log\<close>




section \<open>The script implements it\<close>






section \<open>The limiter in operation\<close>

























end
