(* ===== verification/CallbackSpec.thy ===== *)
theory CallbackSpec
  imports Callbacks Demo
begin

unbundle bit_operations_syntax

text \<open>
  Where callbacks may go: which addresses count as private, that a request never leaves for
  one of them unless the configuration allows it, how many requests one execution sends, and
  when a callback counts as a success.
\<close>

section \<open>Private ranges as intervals\<close>

lemma mask_eq_drop_bit:
  fixes x y :: "'a::len word"
  shows "x AND NOT (mask k) = y AND NOT (mask k) \<longleftrightarrow> drop_bit k x = drop_bit k y"
proof
  assume eq: "x AND NOT (mask k) = y AND NOT (mask k)"
  show "drop_bit k x = drop_bit k y"
  proof (rule bit_word_eqI)
    fix n
    have "bit (x AND NOT (mask k)) (k + n) = bit (y AND NOT (mask k)) (k + n)" using eq by simp
    then show "bit (drop_bit k x) n = bit (drop_bit k y) n"
      by (auto simp: bit_and_iff bit_not_iff bit_mask_iff bit_drop_bit_eq dest: bit_imp_le_length)
  qed
next
  assume eq: "drop_bit k x = drop_bit k y"
  have "bit x n = bit y n" if "k \<le> n" for n
    using arg_cong [OF eq, of "\<lambda>z. bit z (n - k)"] that by (simp add: bit_drop_bit_eq)
  then show "x AND NOT (mask k) = y AND NOT (mask k)"
    by (intro bit_word_eqI) (auto simp: bit_and_iff bit_not_iff bit_mask_iff)
qed

lemma drop_bit_unat:
  fixes x y :: "'a::len word"
  shows "drop_bit k x = drop_bit k y \<longleftrightarrow> unat x div 2 ^ k = unat y div 2 ^ k"
  by (simp only: word_unat_eq_iff unat_drop_bit_eq drop_bit_eq_div [where 'a = nat])

lemma cidr4_iff: "cidr_contains (Cidr4 net n) (V4 x) \<longleftrightarrow> unat x div 2 ^ (32 - n) = unat net div 2 ^ (32 - n)"
  by (simp add: mask4_def mask_eq_drop_bit) (auto simp: drop_bit_unat simp del: drop_bit_eq_div)

lemma cidr6_iff: "cidr_contains (Cidr6 net n) (V6 x) \<longleftrightarrow> unat x div 2 ^ (128 - n) = unat net div 2 ^ (128 - n)"
  by (simp add: mask6_def mask_eq_drop_bit) (auto simp: drop_bit_unat)

text \<open>The leading octets of an address.\<close>

definition octets1 :: "32 word \<Rightarrow> nat" where "octets1 x = unat x div 2 ^ 24"
definition octets2 :: "32 word \<Rightarrow> nat" where "octets2 x = unat x div 2 ^ 16"

definition private4 :: "32 word \<Rightarrow> bool" where
  "private4 x \<longleftrightarrow> octets1 x \<in> {0, 10, 127} \<or> octets2 x \<in> {169 * 256 + 254, 192 * 256 + 168}
     \<or> (172 * 256 + 16 \<le> octets2 x \<and> octets2 x \<le> 172 * 256 + 31)"

lemma isPrivateIP_V4: "isPrivateIP (V4 x) \<longleftrightarrow> private4 x"
proof -
  have net: "unat (ipv4 10 0 0 0) = 167772160" "unat (ipv4 172 16 0 0) = 2886729728" "unat (ipv4 192 168 0 0) = 3232235520"
    "unat (ipv4 127 0 0 0) = 2130706432" "unat (ipv4 169 254 0 0) = 2851995648" "unat (ipv4 0 0 0 0) = 0"
    by (simp_all add: ipv4_def)
  have half: "unat x div 1048576 = 2753 \<longleftrightarrow> 44048 \<le> unat x div 65536 \<and> unat x div 65536 \<le> 44063"
    by linarith
  show ?thesis
    by (auto simp: isPrivateIP_def privateCIDRs_def To4_def cidr4_iff net private4_def octets1_def octets2_def half
        simp del: cidr_contains.simps(1))
qed


definition private6 :: "128 word \<Rightarrow> bool" where
  "private6 x \<longleftrightarrow> unat x \<in> {0, 1} \<or> unat x div 2 ^ 118 = 1018 \<or> unat x div 2 ^ 121 = 126"

lemma isPrivateIP_V6: "isPrivateIP (V6 x) \<longleftrightarrow>
    (if unat x div 2 ^ 32 = 0xFFFF then private4 (ucast x) else private6 x)"
proof -
  have mapped: "drop_bit 32 x = 0xFFFF \<longleftrightarrow> unat x div 2 ^ 32 = 0xFFFF"
    by (simp only: word_unat_eq_iff unat_drop_bit_eq drop_bit_eq_div [where 'a = nat]) simp
  have net: "unat (push_bit 112 0xFE80 :: 128 word) = 0xFE80 * 2 ^ 112" "unat (push_bit 112 0xFC00 :: 128 word) = 0xFC00 * 2 ^ 112"
    by simp_all
  have "isPrivateIP (V6 x) \<longleftrightarrow> private6 x" if "drop_bit 32 x \<noteq> 0xFFFF"
    using that
    by (auto simp: isPrivateIP_def privateCIDRs_def To4_def cidr6_iff net private6_def simp del: cidr_contains.simps(2))
  moreover have "isPrivateIP (V6 x) \<longleftrightarrow> private4 (ucast x)" if "drop_bit 32 x = 0xFFFF"
    using that isPrivateIP_V4 [of "ucast x"] by (simp add: isPrivateIP_def To4_def)
  ultimately show ?thesis using mapped by simp
qed


text \<open>C32. The mask test of \<open>isPrivateIP\<close> is membership in the documented ranges: for IPv4 the
  ranges 0/8, 10/8, 127/8, 169.254/16, 172.16/12 and 192.168/16; an IPv4-mapped IPv6 address is
  judged as the IPv4 address it carries; any other IPv6 address is private if it is the
  unspecified or the loopback address, link-local (fe80::/10) or unique-local (fc00::/7).\<close>

theorem isPrivateIP_ranges:
  "isPrivateIP a \<longleftrightarrow> (case a of
      V4 x \<Rightarrow> private4 x
    | V6 x \<Rightarrow> if unat x div 2 ^ 32 = 0xFFFF then private4 (ucast x) else private6 x)"
  by (cases a) (simp_all add: isPrivateIP_V4 isPrivateIP_V6)

section \<open>Where requests go\<close>

text \<open>What one execution may add to the wire: at most \<open>n\<close> requests, all of the first request's
  method, each to a pinned, non-empty list of addresses that the configuration admits, at one
  port.\<close>

definition admitted :: "config \<Rightarrow> string \<Rightarrow> endpoints \<Rightarrow> bool" where
  "admitted cfg q targets \<longleftrightarrow> targets \<noteq> []
     \<and> (\<forall>t\<in>set targets. snd t = q \<and> (AllowPrivateIPs cfg \<or> \<not> isPrivateIP (fst t)))"

definition sent :: "config \<Rightarrow> string \<Rightarrow> string \<Rightarrow> world \<Rightarrow> nat \<Rightarrow> world \<Rightarrow> bool" where
  "sent cfg q meth w0 n w \<longleftrightarrow> (\<exists>new. posts w = posts w0 @ new \<and> length new \<le> n
     \<and> (\<forall>p\<in>set new. admitted cfg q (fst p) \<and> RqMethod (snd p) = meth))"

lemma sent_mono: "sent cfg q meth w0 m w \<Longrightarrow> m \<le> n \<Longrightarrow> sent cfg q meth w0 n w"
  by (force simp: sent_def)

lemma Validate_posts:
  assumes "ValidateCallbackURL E cfg u w = (r, w')"
  shows "posts w' = posts w" and "r = Inr v \<Longrightarrow> admitted cfg (port v) (Dialer v) \<and> url_Parse E (TrimSpace u) = Some (VrURL v)"
  using assms
  by (auto simp: Dialer_def ValidateCallbackURL_def resolveHost_def result_of_def bind_def admitted_def list_ex_iff
      split: if_splits option.splits sum.splits)

lemma client_Do_sent:
  "client_Do E cfg v (Suc n) first req w = (r, w') \<Longrightarrow> sent cfg q (RqMethod first) w0 m w
   \<Longrightarrow> RqMethod req = RqMethod first \<Longrightarrow> admitted cfg q (Dialer v) \<Longrightarrow> sent cfg q (RqMethod first) w0 (m + Suc n) w'"
proof (induction n arbitrary: req w m)
  case (0 req w m)
  let ?w1 = "(tick w)\<lparr>posts := posts w @ [(Dialer v, req)]\<rparr>"
  have one: "sent cfg q (RqMethod first) w0 (Suc m) ?w1"
    using 0(2-4) by (fastforce simp: sent_def)
  have "w' = ?w1"
    using 0(1) by (auto simp: client_Do.simps [of E cfg v "Suc 0"] send_def bind_def split: hop.splits)
  with one show ?case by simp
next
  case (Suc n req w m)
  let ?w1 = "(tick w)\<lparr>posts := posts w @ [(Dialer v, req)]\<rparr>"
  have one: "sent cfg q (RqMethod first) w0 (Suc m) ?w1"
    using Suc.prems(2-4) by (fastforce simp: sent_def)
  have same: "sent cfg q (RqMethod first) w0 (Suc m) w2" if "posts w2 = posts ?w1" for w2
    using one that by (simp add: sent_def)
  have run: "bind (send E (Dialer v) req) (\<lambda>h. case h of
       HopError e \<Rightarrow> fail e
     | HopResponse resp \<Rightarrow> ret resp
     | HopRedirect u next_req resp \<Rightarrow>
         if RqMethod next_req \<noteq> RqMethod first then fail (Err ''refusing redirect that changes method'')
         else if \<not> equalHost (Hostname u) (ValidatedHost v) then fail (Err ''refusing cross-host redirect'')
         else bind (ValidateCallbackURL E cfg (RqURL next_req)) (\<lambda>_. client_Do E cfg v (Suc n) first next_req)) w = (r, w')"
    using Suc.prems(1) unfolding client_Do.simps [of E cfg v "Suc (Suc n)"] nat.case .
  show ?case
  proof (cases "exchange E (calls w) (Dialer v) req")
    case (HopRedirect u nx resp)
    show ?thesis
    proof (cases "RqMethod nx = RqMethod first \<and> equalHost (Hostname u) (ValidatedHost v)")
      case True
      obtain a w2 where val: "ValidateCallbackURL E cfg (RqURL nx) ?w1 = (a, w2)" by fastforce
      note w2 = same [OF Validate_posts(1) [OF val]]
      show ?thesis
      proof (cases a)
        case (Inl e)
        then have "w' = w2" using run HopRedirect True val by (simp add: send_def bind_def)
        then show ?thesis using sent_mono [OF w2] by simp
      next
        case (Inr x)
        then have "client_Do E cfg v (Suc n) first nx w2 = (r, w')"
          using run HopRedirect True val by (simp add: send_def bind_def)
        from Suc.IH [OF this w2] show ?thesis using True Suc.prems(4) by simp
      qed
    next
      case False
      then have "w' = ?w1" using run HopRedirect by (auto simp: send_def bind_def split: if_splits)
      then show ?thesis using sent_mono [OF one] by simp
    qed
  qed (use run sent_mono [OF one] in \<open>auto simp: send_def bind_def\<close>)
qed

text \<open>C10. A callback stays outside: whatever the resolver and the callee answer, redirects
  included, one execution sends at most three requests, all of them POST, and connects only to
  addresses that were resolved and validated beforehand, none of which is private unless the
  configuration allows it, at the port of the callback URL.\<close>

theorem callbacks_stay_outside:
  assumes "ExecuteJob E cfg u p jid attempt w = (r, w')"
  shows "\<exists>new. posts w' = posts w @ new \<and> length new \<le> 3
    \<and> (\<forall>(targets, req)\<in>set new. RqMethod req = ''POST'' \<and> targets \<noteq> []
        \<and> (\<forall>(a, q)\<in>set targets. (AllowPrivateIPs cfg \<or> \<not> isPrivateIP a)
            \<and> (\<exists>parsed. url_Parse E (TrimSpace u) = Some parsed \<and> q = url_port parsed)))"
proof -
  let ?req = "callback_request u p jid attempt"
  obtain a w1 where val: "ValidateCallbackURL E cfg u w = (a, w1)" by fastforce
  have w1: "sent cfg q ''POST'' w 0 w1" for q using Validate_posts(1) [OF val] by (simp add: sent_def)
  show ?thesis
  proof (cases "\<exists>v pu. a = Inr v \<and> url_Parse E u = Some pu")
    case False
    then have "w' = w1"
      using assms val by (auto simp: ExecuteJob_def bind_def result_of_def split: sum.splits option.splits)
    then show ?thesis using Validate_posts(1) [OF val] by simp
  next
    case True
    then obtain v pu where a: "a = Inr v" and pu: "url_Parse E u = Some pu" by blast
    obtain d w2 where do: "client_Do E cfg v maxRedirects ?req ?req w1 = (d, w2)" by fastforce
    have "w' = w2"
      using assms val a pu do by (auto simp: ExecuteJob_def bind_def result_of_def Let_def split: sum.splits if_splits)
    moreover have "maxRedirects = Suc 2" by (simp add: maxRedirects_def)
    ultimately have "sent cfg (port v) ''POST'' w 3 w'"
      using client_Do_sent [of E cfg v 2 ?req ?req w1 d w2 "port v" w 0] do w1 Validate_posts(2) [OF val a]
      by (simp add: callback_request_def)
    then obtain new where "posts w' = posts w @ new" "length new \<le> 3"
      "\<forall>p\<in>set new. admitted cfg (port v) (fst p) \<and> RqMethod (snd p) = ''POST''" by (auto simp: sent_def)
    then show ?thesis
      using Validate_posts(2) [OF val a] by (intro exI [of _ new]) (fastforce simp: admitted_def port_def)
  qed
qed

theorem callbacks_stay_outside_witness:
  "\<exists>r w' new. ExecuteJob demo_env \<lparr>AllowPrivateIPs = False\<rparr> ''example.com'' ''1'' ''5'' 1 demo_world = (r, w')
     \<and> posts w' = new \<and> length new \<le> 3 \<and> (\<forall>(targets, req)\<in>set new. \<forall>(a, q)\<in>set targets. \<not> isPrivateIP a)"
proof -
  obtain r w' where run: "ExecuteJob demo_env \<lparr>AllowPrivateIPs = False\<rparr> ''example.com'' ''1'' ''5'' 1 demo_world = (r, w')" by fastforce
  have none: "posts demo_world = []" by (simp add: demo_world_def)
  show ?thesis using callbacks_stay_outside [OF run] run none by fastforce
qed




end
