(* ===== verification/CronSpec.thy ===== *)
theory CronSpec
  imports JobSpec Scheduler
begin

text \<open>
  What the cron scheduler promises: a due row becomes a job, its outbox row and a later
  \<open>next_run_at\<close> in one step or not at all; one call catches up with everything that was
  missed; an occurrence whose key is taken leaves the row as it is.
\<close>

section \<open>One occurrence\<close>

definition due_row :: "int \<Rightarrow> time \<Rightarrow> tables \<Rightarrow> cron_job option" where
  "due_row ci now d = find (\<lambda>c. CrID c = ci \<and> due now c) (cron_jobs d)"

type_synonym next_run = "string \<Rightarrow> time \<Rightarrow> goerr + time"

definition advanced :: "next_run \<Rightarrow> time \<Rightarrow> cron_job \<Rightarrow> time \<Rightarrow> cron_job list \<Rightarrow> cron_job list" where
  "advanced nextRun now c nr cs = update_where (\<lambda>x. CrID x = CrID c)
     (\<lambda>x. x\<lparr>CrNextRunAt := catch_up nextRun (CrExpression c) now nr\<rparr>) cs"

text \<open>The occurrence of row \<open>c\<close> became the job \<open>i\<close>.\<close>

definition occurred ::
    "env \<Rightarrow> next_run \<Rightarrow> time \<Rightarrow> cron_job \<Rightarrow> uuid \<Rightarrow> job \<Rightarrow> tables \<Rightarrow> tables \<Rightarrow> bool" where
  "occurred E nextRun now c i j d d' \<longleftrightarrow> (\<exists>t nr tm. check_template E (CrTemplate c) = Inr t
     \<and> nextRun (CrExpression c) (CrNextRunAt c) = Inr nr
     \<and> occurrence_key E c \<notin> IdempotencyKey ` set (jobs d)
     \<and> j = new_job E i Scheduled (cron_input E c t) now
     \<and> d' = d\<lparr>jobs := jobs d @ [j],
           outbox := outbox d @ [\<lparr>ObJobID = i, ObGeneration = 1, ObRunAt = CrNextRunAt c,
             ObKind = OutboxImmediate, ObCreatedAt = tm\<rparr>],
           cron_jobs := advanced nextRun now c nr (cron_jobs d)\<rparr>)"

definition fired :: "env \<Rightarrow> next_run \<Rightarrow> int \<Rightarrow> time \<Rightarrow> cron_instance \<Rightarrow> tables \<Rightarrow> tables \<Rightarrow> bool" where
  "fired E nextRun ci now inst d d' \<longleftrightarrow> (\<exists>c j. due_row ci now d = Some c \<and> occurred E nextRun now c (IiID inst) j d d'
     \<and> IiPayload inst = Payload j \<and> IiGeneration inst = 1)"

lemma occurred_stmts:
  assumes "schema_ok d" and "check_template E (CrTemplate c) = Inr t" and "nextRun (CrExpression c) (CrNextRunAt c) = Inr nr"
    and "insert_job (new_job E k Scheduled (cron_input E c t) now) d = Inr (i, v)"
    and "upsert_outbox \<lparr>ObJobID = i, ObGeneration = 1, ObRunAt = CrNextRunAt c, ObKind = OutboxImmediate, ObCreatedAt = tm\<rparr> v = Inr (u, v')"
  shows "occurred E nextRun now c i (new_job E i Scheduled (cron_input E c t) now) d
    (v'\<lparr>cron_jobs := advanced nextRun now c nr (cron_jobs v')\<rparr>)"
proof -
  let ?j = "new_job E i Scheduled (cron_input E c t) now"
  have v: "i = k" "v = d\<lparr>jobs := jobs d @ [?j]\<rparr>" "i \<notin> ID ` set (jobs d)" "occurrence_key E c \<notin> IdempotencyKey ` set (jobs d)"
    using assms(4) by (auto simp: insert_job_def new_job_def cron_input_def split: if_splits)
  have "i \<notin> ObJobID ` set (outbox d)" using assms(1) v(3) by (auto simp: schema_ok_def outbox_ok_def)
  then have "v' = v\<lparr>outbox := outbox d @ [\<lparr>ObJobID = i, ObGeneration = 1, ObRunAt = CrNextRunAt c,
      ObKind = OutboxImmediate, ObCreatedAt = tm\<rparr>]\<rparr>"
    using assms(5) v(2) by (simp add: upsert_outbox_def split: if_splits)
  then show ?thesis unfolding occurred_def using assms(2,3) v(2,4)
    by (intro exI [of _ t] exI [of _ nr] exI [of _ tm] conjI) simp_all
qed

lemma valid_commit_fired:
  fixes nextRun k
  assumes ok: "schema_ok d0" and tmpl: "check_template E (CrTemplate c) = Inr t" and row: "due_row ci now d0 = Some c"
  defines "R \<equiv> \<lambda>d (s::redis). d = d0 \<or> (\<exists>inst. fired E nextRun ci now inst d0 d)"
  defines "j \<equiv> new_job E k Scheduled (cron_input E c t) now"
  shows "valid (in_tx (\<lambda>v d s. d = d0 \<and> insert_job j d0 = Inr (i, v))) (commit_occurrence E now nextRun c j i)
    (post (\<lambda>r. holds (\<lambda>d s. \<exists>inst. r = Some inst \<and> fired E nextRun ci now inst d0 d)) (holds R))"
proof -
  let ?Q = "\<lambda>(r::cron_instance option) d (s::redis). \<exists>inst. r = Some inst \<and> fired E nextRun ci now inst d0 d"
  let ?I = "\<lambda>v d (s::redis). d = d0 \<and> insert_job j d0 = Inr (i, v)"
  let ?U = "\<lambda>v' d (s::redis). d = d0 \<and> (\<exists>v u tm. insert_job j d0 = Inr (i, v) \<and> upsert_outbox \<lparr>ObJobID = i, ObGeneration = 1,
      ObRunAt = CrNextRunAt c, ObKind = OutboxImmediate, ObCreatedAt = tm\<rparr> v = Inr (u, v'))"
  let ?D = "\<lambda>v d (s::redis). d = d0 \<and> i = k \<and> occurred E nextRun now c i j d0 v"
  have ik: "i = k" if "insert_job j d0 = Inr (i, v)" for v
    using that by (auto simp: insert_job_def j_def new_job_def split: if_splits)
  have gen: "QueueGeneration j = 1" by (simp add: j_def new_job_def)
  have ob: "valid (in_tx ?I) (insertOutboxTx E i 1 (CrNextRunAt c) OutboxImmediate) (post (\<lambda>_. in_tx ?U) (holds R))"
    by (subst insertOutboxTx_valid, simp, rule valid_wrap, rule valid_tx_sql) (auto simp: R_def)
  have adv: "valid (in_tx ?U) (advance E (CrID c) (catch_up nextRun (CrExpression c) now nr)) (post (\<lambda>_. in_tx ?D) (holds R))"
    if nr: "nextRun (CrExpression c) (CrNextRunAt c) = Inr nr" for nr
    unfolding advance_def
  proof (rule valid_tx_sql)
    fix v' d s tm' a v2
    assume U: "?U v' d s" and upd: "update_crons (\<lambda>c'. CrID c' = CrID c)
      (\<lambda>c'. c'\<lparr>CrNextRunAt := catch_up nextRun (CrExpression c) now nr\<rparr>) tm' v' = Inr (a, v2)"
    from U obtain v u tm where ins: "insert_job j d0 = Inr (i, v)" and up: "upsert_outbox \<lparr>ObJobID = i, ObGeneration = 1,
      ObRunAt = CrNextRunAt c, ObKind = OutboxImmediate, ObCreatedAt = tm\<rparr> v = Inr (u, v')" by blast
    have "v2 = v'\<lparr>cron_jobs := advanced nextRun now c nr (cron_jobs v')\<rparr>"
      using upd by (auto simp: update_crons_def advanced_def)
    then show "?D v2 d s"
      using occurred_stmts [where nextRun = nextRun and c = c, OF ok tmpl nr ins [unfolded j_def] up] ik [OF ins] U by (simp add: j_def)
  qed (simp add: R_def)
  have made: "fired E nextRun ci now \<lparr>IiID = i, IiPayload = Payload j, IiGeneration = 1\<rparr> d0 v" if "?D v d s" for v d s
    using that row by (auto simp: fired_def)
  have commit: "valid (in_tx ?D) (bind (wrap msg (tx_commit E)) (\<lambda>_. ret (Some \<lparr>IiID = i, IiPayload = Payload j, IiGeneration = 1\<rparr>)))
      (post (\<lambda>r. holds (?Q r)) (holds R))" for msg
    by (rule valid_bind [OF valid_wrap [OF valid_tx_commit
          [where Q = "\<lambda>d s. fired E nextRun ci now \<lparr>IiID = i, IiPayload = Payload j, IiGeneration = 1\<rparr> d0 d"]]])
       (use made in \<open>auto simp: R_def intro!: valid_ret\<close>)
  show ?thesis
    unfolding commit_occurrence_def gen
  proof (rule valid_bind [OF ob], cases "nextRun (CrExpression c) (CrNextRunAt c)", simp_all only: sum.case)
    case (Inl e)
    show "valid (in_tx ?U) (fail (Wrap ''failed to calculate next cron run'' e)) (post (\<lambda>r. holds (?Q r)) (holds R))"
      by (rule valid_in_tx_fail) (simp add: R_def)
  qed (rule valid_bind [OF valid_wrap [OF adv] commit])
qed

lemma valid_skip_same:
  "valid (aborted (\<lambda>d s. d = d0)) (skip_occurrence E nextRun c)
     (post (\<lambda>r. holds (\<lambda>d s. r = None \<and> d = d0)) (holds (\<lambda>d s. d = d0)))"
  by (rule validI, cases "nextRun (CrExpression c) (CrNextRunAt c)")
     (auto simp: skip_occurrence_def aborted_def advance_def tx_sql_def tx_commit_def result_of_def bind_def holds_def)

lemma valid_insert_fired:
  fixes nextRun
  assumes ok: "schema_ok d0" and tmpl: "check_template E (CrTemplate c) = Inr t" and row: "due_row ci now d0 = Some c"
  defines "R \<equiv> \<lambda>d (s::redis). d = d0 \<or> (\<exists>inst. fired E nextRun ci now inst d0 d)"
  defines "Q \<equiv> \<lambda>r d (s::redis). case r of None \<Rightarrow> d = d0 | Some inst \<Rightarrow> fired E nextRun ci now inst d0 d"
  shows "valid (in_tx (\<lambda>v d s. v = d0 \<and> d = d0)) (insert_occurrence E now nextRun c t) (post (\<lambda>r. holds (Q r)) (holds R))"
  unfolding insert_occurrence_def Let_def
proof (rule valid_bind [OF valid_in_tx_now(2)])
  fix k
  let ?j = "new_job E k Scheduled (cron_input E c t) now"
  let ?P = "\<lambda>i v d (s::redis). d = d0 \<and> insert_job ?j d0 = Inr (i, v)"
  have ins: "valid (in_tx (\<lambda>v d s. v = d0 \<and> d = d0)) (tx_sql E (\<lambda>_. insert_job ?j)) (post (\<lambda>i. in_tx (?P i)) (aborted (\<lambda>d s. d = d0)))"
    by (rule valid_tx_sql_abort) auto
  have skip: "valid (aborted (\<lambda>d s. d = d0)) (skip_occurrence E nextRun c) (post (\<lambda>r. holds (Q r)) (holds R))"
    by (rule valid_conseq [OF valid_skip_same]) (auto simp: post_def holds_def Q_def R_def split: sum.splits)
  have stop: "valid (aborted (\<lambda>d s. d = d0)) (fail e) (post (\<lambda>r. holds (Q r)) (holds R))" for e
    by (rule valid_fail) (auto simp: aborted_def holds_def R_def)
  have go: "valid (in_tx (?P i)) (commit_occurrence E now nextRun c ?j i) (post (\<lambda>r. holds (Q r)) (holds R))" for i
    by (rule valid_conseq [OF valid_commit_fired [OF ok tmpl row]])
       (auto simp: post_def holds_def Q_def R_def split: sum.splits)
  show "valid (in_tx (\<lambda>v d s. v = d0 \<and> d = d0)) (bind (result_of (tx_sql E (\<lambda>_. insert_job ?j))) (\<lambda>ir.
     case ir of
       Inl e \<Rightarrow> if is_unique_violation e then skip_occurrence E nextRun c
                else fail (Wrap ''failed to create cron job instance'' e)
     | Inr i \<Rightarrow> commit_occurrence E now nextRun c ?j i)) (post (\<lambda>r. holds (Q r)) (holds R))"
    by (rule valid_bind [OF valid_result_of [OF ins]], rule valid_sum_cases)
       (auto simp: skip stop go simp del: fail_apply)
qed

lemma valid_CreateDueInstance_atomic:
  fixes nextRun E ci now
  assumes ok: "schema_ok d0"
  defines "R \<equiv> \<lambda>d (s::redis). d = d0 \<or> (\<exists>inst. fired E nextRun ci now inst d0 d)"
  defines "Q \<equiv> \<lambda>r d (s::redis). case r of None \<Rightarrow> d = d0 | Some inst \<Rightarrow> fired E nextRun ci now inst d0 d"
  shows "valid (holds (\<lambda>d s. d = d0)) (CreateDueInstance E ci now nextRun) (post (\<lambda>r. holds (Q r)) (holds R))"
proof -
  let ?B = "\<lambda>v d (s::redis). v = d0 \<and> d = d0"
  let ?S = "\<lambda>(_::time) d. Inr (find (\<lambda>c. CrID c = ci \<and> due now c) (cron_jobs d), d)"
  let ?P = "\<lambda>c v d (s::redis). v = d0 \<and> d = d0 \<and> due_row ci now d0 = Some c"
  have begin_tx: "valid (holds (\<lambda>d s. d = d0)) (tx_begin E) (post (\<lambda>_. in_tx ?B) (holds R))"
    by (rule valid_tx_begin) (auto simp: R_def)
  have sel: "valid (in_tx ?B) (scan_row (tx_sql E ?S)) (post (\<lambda>c. in_tx (?P c)) (holds (\<lambda>d s. d = d0)))"
  proof (rule valid_scan_row)
    have "valid (in_tx ?B) (tx_sql E ?S) (post (\<lambda>r. in_tx (\<lambda>v d s. ?B v d s \<and> r = due_row ci now d0)) (holds (\<lambda>d s. d = d0)))"
      by (rule valid_tx_sql) (auto simp: due_row_def)
    then show "valid (in_tx ?B) (tx_sql E ?S)
      (post (\<lambda>r w. case r of None \<Rightarrow> holds (\<lambda>d s. d = d0) w | Some c \<Rightarrow> in_tx (?P c) w) (holds (\<lambda>d s. d = d0)))"
      by (rule valid_conseq) (auto simp: post_def in_tx_def holds_def split: sum.splits option.splits)
  qed
  have same: "valid (holds (\<lambda>d s. d = d0)) (if errors_Is e ErrNoRows then ret None else fail (Wrap m e))
      (post (\<lambda>r. holds (Q r)) (holds R))" for m e
    by (auto simp: valid_def holds_def Q_def R_def)
  have locked: "valid (in_tx (?P c)) (case check_template E (CrTemplate c) of Inl e \<Rightarrow> fail e
      | Inr t \<Rightarrow> insert_occurrence E now nextRun c t) (post (\<lambda>r. holds (Q r)) (holds R))" for c
  proof (cases "due_row ci now d0 = Some c")
    case False
    then show ?thesis by (simp add: valid_def in_tx_def)
  next
    case True
    show ?thesis
    proof (cases "check_template E (CrTemplate c)")
      case (Inl e)
      show ?thesis unfolding Inl sum.case by (rule valid_in_tx_fail) (simp add: R_def)
    next
      case (Inr t)
      show ?thesis unfolding Inr sum.case Q_def R_def
        by (rule valid_pre [OF valid_insert_fired [OF ok Inr True]]) (auto simp: in_tx_def)
    qed
  qed
  show ?thesis
    unfolding CreateDueInstance_def
    by (rule valid_with_rollback, rule valid_bind [OF valid_wrap [OF begin_tx]], rule valid_bind [OF valid_result_of [OF sel]],
        rule valid_sum_cases [OF same locked])
qed

text \<open>A cron row that has been due for several periods.\<close>

definition demo_cron :: cron_job where
  "demo_cron = \<lparr>CrID = 1, CrExpression = ''* * * * *'', CrTemplate = ''1'', CrNextRunAt = 0, CrEnabled = True, CrCreatedAt = 0\<rparr>"

definition demo_crons :: "job list \<Rightarrow> world" where
  "demo_crons js = demo_world\<lparr>db := demo_tables\<lparr>jobs := js, cron_jobs := [demo_cron]\<rparr>\<rparr>"





section \<open>Catching up\<close>








text \<open>C37. A taken key blocks a cron row: while the key of the due occurrence belongs to a job,
  \<open>CreateDueInstance\<close> creates nothing and does not move \<open>next_run_at\<close> either, although the
  code tries to: the failed insert has aborted the transaction. So the row stays due, even if
  every call is answered.\<close>

theorem taken_key_blocks_cron:
  assumes "schema_ok (db w)" and "due_row ci now (db w) = Some c"
    and "occurrence_key E c \<in> IdempotencyKey ` set (jobs (db w))"
    and "CreateDueInstance E ci now nextRun w = (r, w')"
  shows "db w' = db w \<and> (\<forall>inst. r \<noteq> Inr (Some inst))"
proof -
  have "\<not> fired E nextRun ci now inst (db w) d" for inst d
    using assms(2,3) by (auto simp: fired_def occurred_def)
  then show ?thesis
    using validD [OF valid_CreateDueInstance_atomic [OF assms(1)] _ assms(4)]
    by (cases r) (auto simp: holds_def split: option.splits)
qed


theorem taken_key_blocks_cron_witness:
  "\<exists>w r w'. CreateDueInstance demo_env 1 (600 * second) (cron_NextRunAt demo_env) w = (r, w')
     \<and> due_row 1 (600 * second) (db w') = Some demo_cron"
proof -
  let ?j = "(demo_row Pending)\<lparr>IdempotencyKey := occurrence_key demo_env demo_cron\<rparr>"
  let ?w = "demo_crons [?j]"
  have ok: "schema_ok (db ?w)"
    by (simp add: demo_crons_def demo_row_def demo_tables_def schema_ok_def jobs_ok_def outbox_ok_def executions_ok_def
        job_ok_def attempts_check_def max_attempts_check_def)
  have row: "due_row 1 (600 * second) (db ?w) = Some demo_cron"
    by (simp add: due_row_def due_def demo_crons_def demo_cron_def second_def)
  have key: "occurrence_key demo_env demo_cron \<in> IdempotencyKey ` set (jobs (db ?w))" by (simp add: demo_crons_def)
  obtain r w' where run: "CreateDueInstance demo_env 1 (600 * second) (cron_NextRunAt demo_env) ?w = (r, w')" by fastforce
  from taken_key_blocks_cron [OF ok row key run] row run show ?thesis by metis
qed

end
