(* ===== verification/ApiSpec.thy ===== *)
theory ApiSpec
  imports JobSpec ServerInv
begin

text \<open>
  What the HTTP interface promises: every request is answered with a documented status,
  nothing happens without a valid key, a repeated submission finds the first one, pages are
  bounded, and the status of a job decides the answer to DELETE and retry.
\<close>

section \<open>Every request is answered\<close>

definition answers :: "int set \<Rightarrow> response handler \<Rightarrow> bool" where
  "answers S m \<longleftrightarrow> (\<forall>w. \<exists>resp w'. m w = (Inr resp, w') \<and> RpStatus resp \<in> S)"





lemma answers_inline: "answers S f \<Longrightarrow> answers S (bind (ret x) (\<lambda>_. f))"
  by (simp add: answers_def bind_def)

lemma status_simps [simp]:
  "RpStatus (WriteError n c m) = n" "RpStatus (respond n b) = n" "RpStatus (invalid_request m) = 400"
  "RpStatus (server_error m) = 500" "RpStatus no_content = 204"
  by (simp_all add: WriteError_def respond_def invalid_request_def server_error_def no_content_def)

definition statuses :: "int set" where
  "statuses = {200, 201, 204, 400, 401, 404, 409, 413, 429, 500}"

lemma statuses_in [simp]: "200 \<in> statuses" "201 \<in> statuses" "204 \<in> statuses" "400 \<in> statuses" "401 \<in> statuses"
  "404 \<in> statuses" "409 \<in> statuses" "413 \<in> statuses" "429 \<in> statuses" "500 \<in> statuses"
  by (simp_all add: statuses_def)









section \<open>Authentication\<close>

definition bearer :: "http_in \<Rightarrow> string" where
  "bearer r = (if has_prefix (RqAuthorization r) ''Bearer '' then TrimSpace (TrimPrefix (RqAuthorization r) ''Bearer '') else '''')"

definition valid_key :: "env \<Rightarrow> http_in \<Rightarrow> tables \<Rightarrow> bool" where
  "valid_key E r d \<longleftrightarrow> bearer r \<noteq> '''' \<and>
     (case find (\<lambda>k. AkHashedKey k = Hash E (bearer r)) (api_keys d) of None \<Rightarrow> False | Some k \<Rightarrow> AkRevokedAt k = None)"

lemma auth_refuses:
  assumes "\<not> valid_key E r (db w)" and "APIKeyAuth E r nxt w = (Inr resp, w')"
  shows "db w' = db w \<and> rd w' = rd w \<and> posts w' = posts w \<and> RpStatus resp \<in> {401, 500} \<and> (all_up E \<longrightarrow> RpStatus resp = 401)"
  using assms
  by (auto simp: APIKeyAuth_def Let_def valid_key_def bearer_def GetAPIKeyByHash_def not_found_def scan_row_def
      bind_def result_of_def sql_def all_up_def stmt_db_def split: if_splits fault.splits option.splits)

lemma limited_cases:
  assumes "redis_ok (srv E)" and "limited E l b nxt w = (r, w')"
  obtains (pass) w1 where "nxt w1 = (r, w')" "db w1 = db w" "posts w1 = posts w" "queue_view (rd w1) = queue_view (rd w)"
  | (stop) resp where "r = Inr resp" "RpStatus resp \<in> {429, 500}" "db w' = db w" "posts w' = posts w"
      "queue_view (rd w') = queue_view (rd w)"
proof -
  obtain a w1 where a: "Allow E l b w = (a, w1)" by fastforce
  have w1: "db w1 = db w" "posts w1 = posts w" "queue_view (rd w1) = queue_view (rd w)"
    using a rate_limit_view [OF assms(1)]
    by (auto simp: Allow_def Let_def bind_def time_Now_def rand_Draw_def rcall_def split: fault.splits prod.splits)
  show ?thesis
    using assms(2) a w1 pass [of w1] stop
    by (auto simp: limited_def bind_def result_of_def Let_def split: sum.splits if_splits)
qed

text \<open>Without a valid key nothing happens: a request whose bearer token is missing, unknown or
  revoked is answered 401 (or 429 by the address limit, or 500 if a call failed), the tables and
  the queues are unchanged and no callback is sent.\<close>

lemma unauthenticated_changes_nothing:
  assumes "redis_ok (srv E)" and "\<not> valid_key E r (db w)"
    and "Server E allowPrivate lm ipLimiter r rt w = (Inr resp, w')"
  shows "db w' = db w \<and> posts w' = posts w \<and> queue_view (rd w') = queue_view (rd w)
    \<and> RpStatus resp \<in> {401, 429, 500} \<and> (all_up E \<and> ipLimiter = None \<longrightarrow> RpStatus resp = 401)"
proof (cases ipLimiter)
  case None
  then show ?thesis using assms(3) auth_refuses [OF assms(2)] by (fastforce simp: Server_def IPRateLimit_def)
next
  case (Some l)
  let ?auth = "APIKeyAuth E r (\<lambda>k. RateLimit E lm (Some k) (handle_route E allowPrivate rt))"
  have run: "limited E l (''ip:'' @ clientIP r) ?auth w = (Inr resp, w')"
    using assms(3) Some by (simp add: Server_def IPRateLimit_def)
  show ?thesis
    using assms(1) run
  proof (cases rule: limited_cases)
    case (pass w1)
    then show ?thesis using auth_refuses [of E r w1 _ resp w'] assms(2) Some by fastforce
  next
    case (stop resp')
    then show ?thesis using Some by auto
  qed
qed

section \<open>Pages\<close>

text \<open>Pages are bounded: accepted parameters give a limit between 1 and 100 and an offset that
  is not negative; the limit is the requested one, cut at 100, or 20 if none is given; a
  rejected request is answered 400.\<close>

lemma page_bounds:
  "case parse_page lim off of
     Inl resp \<Rightarrow> RpStatus resp = 400
   | Inr (l, f) \<Rightarrow> 1 \<le> l \<and> l \<le> 100 \<and> 0 \<le> f
       \<and> (lim = '''' \<longrightarrow> l = 20) \<and> (\<forall>n. Atoi lim = Some n \<longrightarrow> lim \<noteq> '''' \<longrightarrow> l = min n 100) \<and> (off = '''' \<longrightarrow> f = 0)"
  by (auto simp: parse_page_def Let_def defaultJobListLimit_def maxJobListLimit_def split: option.splits if_splits)

section \<open>Submitting a job\<close>









section \<open>Cancelling and retrying\<close>

text \<open>C34. DELETE answers by the job's state, when the calls are answered: 400 for a malformed id,
  404 if there is no such job, 409 if it no longer waits, and 204 if it waited, in which case it
  is cancelled and nothing else in the tables changes.\<close>

theorem DeleteJob_outcome:
  assumes "all_up E"
  shows "\<exists>resp w' now. DeleteJob E pathID w = (Inr resp, w') \<and> (case uuid_Parse E pathID of
      None \<Rightarrow> RpStatus resp = 400 \<and> db w' = db w
    | Some i \<Rightarrow> (case job_of i (db w) of
        None \<Rightarrow> RpStatus resp = 404 \<and> db w' = db w
      | Some j \<Rightarrow> if Status j = Pending \<or> Status j = Scheduled
          then RpStatus resp = 204 \<and> db w' = set_job i (cancel_job now) (db w)
          else RpStatus resp = 409 \<and> db w' = db w))"
proof (cases "uuid_Parse E pathID")
  case None
  then show ?thesis by (simp add: DeleteJob_def)
next
  case (Some i)
  obtain w1 now where c: "Cancel E i w = (case job_of i (db w) of
        None \<Rightarrow> (Inl ErrNotFound, w1)
      | Some j \<Rightarrow> (if Status j = Pending \<or> Status j = Scheduled then Inr () else Inl ErrNotCancellable, w1))"
    and w1: "db w1 = (case job_of i (db w) of
        None \<Rightarrow> db w
      | Some j \<Rightarrow> if Status j = Pending \<or> Status j = Scheduled then set_job i (cancel_job now) (db w) else db w)"
    using Cancel_up [OF assms, of i w] by blast
  obtain x w2 where x: "ignore (RemoveScheduled E (uuid_String E i)) w1 = (Inr x, w2)" and w2: "db w2 = db w1"
    by (simp add: ignore_def RemoveScheduled_def bind_def result_of_def wrap_def rcall_up all_upD [OF assms])
  show ?thesis
    using Some c w1 x w2
    by (cases "job_of i (db w)") (auto simp: DeleteJob_def bind_def result_of_def intro!: exI [of _ now])
qed

theorem DeleteJob_outcome_witness:
  "\<exists>resp w'. DeleteJob demo_env ''5'' (demo_with [demo_row Running]) = (Inr resp, w') \<and> RpStatus resp = 409"
proof -
  have "all_up demo_env" by (simp add: all_up_def demo_env_def)
  moreover have "uuid_Parse demo_env ''5'' = Some 5" by code_simp
  moreover have "job_of 5 (db (demo_with [demo_row Running])) = Some (demo_row Running)" "Status (demo_row Running) = Running"
    by (simp_all add: demo_with_def demo_row_def)
  ultimately show ?thesis using DeleteJob_outcome [of demo_env "''5''" "demo_with [demo_row Running]"] by auto
qed

end
