(* ===== verification/WorkerSpec.thy ===== *)
theory WorkerSpec
  imports WorkerInv JobSpec
begin

text \<open>
  What a worker achieves when its calls are answered: a delivered job whose callback succeeds is
  done and acknowledged; one whose callback fails is rescheduled in the next generation while it
  has attempts left and dead-lettered otherwise. Progress is stated as such: the run ends and
  its result is given.
\<close>

section \<open>Calls that are answered\<close>

lemma sql_all_up:
  assumes "all_up E"
  shows "sql E ch f w = (case f (clock_at E (calls w)) (db w) of
      Inl e \<Rightarrow> (Inl e, tick w) | Inr (a, d) \<Rightarrow> (Inr a, (tick w)\<lparr>db := d\<rparr>))"
  using all_upD [OF assms] by (simp add: sql_def Let_def)

lemma UpdateStatus_up:
  assumes "all_up E" and "validStatuses st = Some x" and "job_of i (db w) = Some j"
  shows "\<exists>w' t. UpdateStatus E i st le w = (Inr (), w') \<and> db w' = set_job i (set_status x le t) (db w) \<and> rd w' = rd w"
proof -
  have "filter (\<lambda>j. ID j = i) (jobs (db w)) \<noteq> []"
    using job_ofD [OF assms(3)] by (auto simp: filter_empty_conv)
  with assms(2) show ?thesis
    by (auto simp: UpdateStatus_def bind_def time_Now_def wrap_def sql_all_up [OF assms(1)] update_jobs_def set_job_def any_row_def [abs_def])
qed

lemma CreateExecution_up:
  assumes "all_up E" and "1 \<le> g" and "job_of i (db w) = Some j"
    and "\<forall>x\<in>set (executions (db w)). \<not> (ExJobID x = i \<and> ExGeneration x = g \<and> ExAttempt x = a)"
  shows "\<exists>w'. CreateExecution E i a t st g w = (Inr (execution_seq (db w)), w') \<and> rd w' = rd w
    \<and> db w' = add_execution \<lparr>ExID = 0, ExJobID = i, ExAttempt = a, ExStartedAt = t, ExFinishedAt = None, ExStatus = st,
       ExError = None, ExResponseCode = None, ExGeneration = g\<rparr> (db w)"
proof -
  have "i \<in> ID ` set (jobs (db w))" using job_of_set [OF assms(3)] .
  moreover have "\<not> g \<le> 0" using assms(2) by simp
  ultimately show ?thesis
    using assms(4) by (simp add: CreateExecution_def Let_def wrap_def sql_all_up [OF assms(1)] insert_execution_def add_execution_def)
qed

lemma CompleteExecution_up:
  assumes "all_up E" and "length (filter (\<lambda>x. ExID x = n) (executions (db w))) = 1"
  shows "\<exists>w'. CompleteExecution E n t st err code w = (Inr (), w') \<and> rd w' = rd w
    \<and> db w' = db w\<lparr>executions := update_where (\<lambda>x. ExID x = n) (\<lambda>x. x\<lparr>ExFinishedAt := Some t, ExStatus := st,
       ExError := err, ExResponseCode := code\<rparr>) (executions (db w))\<rparr>"
  using assms(2) by (simp add: CompleteExecution_def bind_def wrap_def sql_all_up [OF assms(1)] update_execution_def)

lemma ack_up:
  assumes "all_up E" and "redis_ok (srv E)" and "n \<in> pel_ids ReadyStream ConsumerGroup (rd w)"
  shows "\<exists>w'. acknowledgeOnce E n w = (Inr (), w') \<and> db w' = db w \<and> n \<notin> pel_ids ReadyStream ConsumerGroup (rd w')
    \<and> ZSets (rd w') = ZSets (rd w) \<and> Hashes (rd w') = Hashes (rd w) \<and> Streams (rd w') = Streams (rd w)"
proof -
  obtain c where c: "group_of ReadyStream ConsumerGroup (rd w) = Some c" "n \<in> PeID ` set (CgPel c)"
    using assms(3) by (auto simp: pel_ids_def split: option.splits)
  have "XACK (srv E) ReadyStream ConsumerGroup n (rd w) =
      (1, set_group ReadyStream ConsumerGroup (c\<lparr>CgPel := filter (\<lambda>p. PeID p \<noteq> n) (CgPel c)\<rparr>) (rd w))"
    using assms(2) c by (simp add: redis_ok_def xack_law_def)
  then show ?thesis
    by (auto simp: acknowledgeOnce_def Acknowledge_def bind_def wrap_def rcall_up all_upD [OF assms(1)] pel_ids_def group_of_def set_group_def)
qed

lemma ExecuteJob_frame:
  assumes "ExecuteJob E cfg u p jid a w = (r, w')"
  shows "db w' = db w \<and> rd w' = rd w"
proof -
  have "post (\<lambda>_. holds (\<lambda>d s. d = db w \<and> s = rd w)) (holds (\<lambda>d s. d = db w \<and> s = rd w)) r w'"
    by (rule validD [OF valid_ExecuteJob _ assms]) (simp add: holds_def)
  then show ?thesis by (cases r) (simp_all add: holds_def)
qed

text \<open>A job that can be delivered: the message names it, it waits in the message's generation,
  it has a callback and the attempt has no execution yet; the message is pending.\<close>

definition deliverable :: "env \<Rightarrow> message \<Rightarrow> uuid \<Rightarrow> job \<Rightarrow> string \<Rightarrow> world \<Rightarrow> bool" where
  "deliverable E m i j u w \<longleftrightarrow> schema_ok (db w) \<and> uuid_Parse E (MsgJobID m) = Some i \<and> job_of i (db w) = Some j
     \<and> MsgGeneration m = QueueGeneration j \<and> (Status j = Pending \<or> Status j = Scheduled) \<and> CallbackURL j = Some u \<and> u \<noteq> ''''
     \<and> (\<forall>x\<in>set (executions (db w)). \<not> (ExJobID x = i \<and> ExGeneration x = QueueGeneration j \<and> ExAttempt x = Attempts j + 1))
     \<and> MsgID m \<in> pel_ids ReadyStream ConsumerGroup (rd w)"

text \<open>The part of a run that does not depend on the callback's answer: the job is running, its
  execution is recorded, the callback has been made.\<close>

lemma Process_runs:
  assumes up: "all_up E" and can: "deliverable E m i j u w"
    and call: "\<And>w1. \<exists>w2. ExecuteJob E cfg u (MsgPayload m) (uuid_String E i) (Attempts j + 1) w1 = (Inr (code w1, res w1), w2)"
  shows "\<exists>w1 w2 t st. Process E cfg m w = (case res w1 of
      Some e \<Rightarrow> bind (wrap ''complete failed execution'' (CompleteExecution E (execution_seq (db w)) t ExecFailed
           (Some (Error e)) (if code w1 \<noteq> 0 then Some (code w1) else None))) (\<lambda>_.
         bind (ignore (Increment E JobsFailedKey)) (\<lambda>_. process_failed E m j (Attempts j + 1) e)) w2
    | None \<Rightarrow> bind (wrap ''complete successful execution'' (CompleteExecution E (execution_seq (db w)) t ExecDone
           None (Some (code w1)))) (\<lambda>_. process_done E m j) w2)
    \<and> rd w2 = rd w \<and> db w2 = add_execution \<lparr>ExID = 0, ExJobID = i, ExAttempt = Attempts j + 1, ExStartedAt = st, ExFinishedAt = None,
        ExStatus = ExecRunning, ExError = None, ExResponseCode = None, ExGeneration = QueueGeneration j\<rparr>
        (set_job i (start_job (clock_at E (calls w + 1))) (db w))"
proof -
  note d = can [unfolded deliverable_def]
  have id: "ID j = i" and gen: "1 \<le> QueueGeneration j" and att: "0 \<le> Attempts j"
    using d job_ofD [of i "db w" j] by (auto simp: schema_ok_def jobs_ok_def job_ok_def attempts_check_def)
  have get: "GetByID E i w = (Inr j, tick w)" using d by (simp add: GetByID_run all_upD [OF up])
  let ?t = "clock_at E (calls w + 1)"
  let ?w1 = "(tick (tick w))\<lparr>db := set_job i (start_job ?t) (db w)\<rparr>"
  have guard: "start_guard i (MsgGeneration m) j" using d id by (simp add: start_guard_def)
  have start: "StartExecution E i (MsgGeneration m) (tick w) = (Inr (Attempts j + 1), ?w1)"
    using d guard by (simp add: StartExecution_run all_upD [OF up])
  have row: "job_of i (db (tick ?w1)) = Some (start_job ?t j)" using d by (simp add: start.job_of_set_job)
  obtain w3 where cr: "CreateExecution E i (Attempts j + 1) (clock_at E (calls ?w1)) ExecRunning (QueueGeneration j) (tick ?w1)
        = (Inr (execution_seq (db w)), w3)" and w3: "rd w3 = rd w"
      "db w3 = add_execution \<lparr>ExID = 0, ExJobID = i, ExAttempt = Attempts j + 1, ExStartedAt = clock_at E (calls ?w1),
        ExFinishedAt = None, ExStatus = ExecRunning, ExError = None, ExResponseCode = None, ExGeneration = QueueGeneration j\<rparr>
        (set_job i (start_job ?t) (db w))"
    using CreateExecution_up [OF up gen row, of "Attempts j + 1" "clock_at E (calls ?w1)" ExecRunning] d by auto
  obtain w4 where ex: "ExecuteJob E cfg u (MsgPayload m) (uuid_String E i) (Attempts j + 1) w3 = (Inr (code w3, res w3), w4)"
    using call by blast
  have w4: "db (tick w4) = db w3" "rd (tick w4) = rd w3" using ExecuteJob_frame [OF ex] by simp_all
  have "Attempts j + 1 \<noteq> 0" using att by simp
  then have "Process E cfg m w = process_started E cfg m j u (Attempts j + 1) ?w1"
    using d get start id by (simp add: Process_def)
  also have "\<dots> = (case res w3 of
      Some e \<Rightarrow> bind (wrap ''complete failed execution'' (CompleteExecution E (execution_seq (db w)) (clock_at E (calls w4)) ExecFailed
           (Some (Error e)) (if code w3 \<noteq> 0 then Some (code w3) else None))) (\<lambda>_.
         bind (ignore (Increment E JobsFailedKey)) (\<lambda>_. process_failed E m j (Attempts j + 1) e)) (tick w4)
    | None \<Rightarrow> bind (wrap ''complete successful execution'' (CompleteExecution E (execution_seq (db w)) (clock_at E (calls w4)) ExecDone
           None (Some (code w3)))) (\<lambda>_. process_done E m j) (tick w4))"
    using d cr ex id by (simp add: process_started_def bind_def time_Now_def wrap_def split: option.split)
  finally show ?thesis using w3 w4 by (intro exI [of _ w3] exI [of _ "tick w4"] exI conjI) simp_all
qed

lemma one_execution:
  assumes "schema_ok d"
  shows "length (filter (\<lambda>y. ExID y = execution_seq d) (executions (add_execution x (set_job i f d)))) = 1"
proof -
  have "filter (\<lambda>y. ExID y = execution_seq d) (executions d) = []"
    using assms by (force simp: schema_ok_def executions_ok_def filter_empty_conv)
  then show ?thesis by (simp add: add_execution_def)
qed

lemma job_of_tables [simp]:
  "job_of i (d\<lparr>executions := xs\<rparr>) = job_of i d" "job_of i (add_execution x d) = job_of i d"
  by (simp_all add: add_execution_def)

lemma Increment_up:
  assumes "all_up E" and "redis_ok (srv E)"
  shows "\<exists>w'. ignore (Increment E k) w = (Inr (), w') \<and> db w' = db w \<and> ZSets (rd w') = ZSets (rd w)
    \<and> Hashes (rd w') = Hashes (rd w) \<and> Streams (rd w') = Streams (rd w) \<and> Groups (rd w') = Groups (rd w)"
  using assms(2) by (simp add: ignore_def Increment_def bind_def result_of_def rcall_up all_upD [OF assms(1)] redis_ok_def incr_law_def)

lemma pel_ids_groups: "Groups s' k = Groups s k \<Longrightarrow> pel_ids k g s' = pel_ids k g s"
  by (simp add: pel_ids_def group_of_def)

text \<open>After the execution is completed, only the outcome's own branch is left.\<close>

lemma Process_completes:
  assumes up: "all_up E" and can: "deliverable E m i j u w"
    and call: "\<And>w1. \<exists>w2. ExecuteJob E cfg u (MsgPayload m) (uuid_String E i) (Attempts j + 1) w1 = (Inr (code w1, res w1), w2)"
  shows "\<exists>w1 w3 t. Process E cfg m w = (case res w1 of
      Some e \<Rightarrow> bind (ignore (Increment E JobsFailedKey)) (\<lambda>_. process_failed E m j (Attempts j + 1) e) w3
    | None \<Rightarrow> process_done E m j w3)
    \<and> rd w3 = rd w \<and> jobs (db w3) = jobs (set_job i (start_job t) (db w)) \<and> (res w1 = None \<longrightarrow> completed i (QueueGeneration j) (db w3))"
proof -
  obtain w1 w2 t st where run: "Process E cfg m w = (case res w1 of
      Some e \<Rightarrow> bind (wrap ''complete failed execution'' (CompleteExecution E (execution_seq (db w)) t ExecFailed
           (Some (Error e)) (if code w1 \<noteq> 0 then Some (code w1) else None))) (\<lambda>_.
         bind (ignore (Increment E JobsFailedKey)) (\<lambda>_. process_failed E m j (Attempts j + 1) e)) w2
    | None \<Rightarrow> bind (wrap ''complete successful execution'' (CompleteExecution E (execution_seq (db w)) t ExecDone
           None (Some (code w1)))) (\<lambda>_. process_done E m j) w2)"
    and w2: "rd w2 = rd w" "db w2 = add_execution \<lparr>ExID = 0, ExJobID = i, ExAttempt = Attempts j + 1, ExStartedAt = st,
        ExFinishedAt = None, ExStatus = ExecRunning, ExError = None, ExResponseCode = None, ExGeneration = QueueGeneration j\<rparr>
        (set_job i (start_job (clock_at E (calls w + 1))) (db w))"
    using Process_runs [OF assms] by blast
  let ?d = "set_job i (start_job (clock_at E (calls w + 1))) (db w)"
  have one: "length (filter (\<lambda>x. ExID x = execution_seq (db w)) (executions (db w2))) = 1"
    using one_execution can unfolding w2(2) by (simp add: deliverable_def)
  have jobs: "jobs (db w2\<lparr>executions := xs\<rparr>) = jobs ?d" for xs by (simp add: w2(2) add_execution_def)
  show ?thesis
  proof (cases "res w1")
    case None
    obtain w3 where c: "CompleteExecution E (execution_seq (db w)) t ExecDone None (Some (code w1)) w2 = (Inr (), w3)"
      and w3: "rd w3 = rd w2" "db w3 = db w2\<lparr>executions := update_where (\<lambda>x. ExID x = execution_seq (db w))
         (\<lambda>x. x\<lparr>ExFinishedAt := Some t, ExStatus := ExecDone, ExError := None, ExResponseCode := Some (code w1)\<rparr>) (executions (db w2))\<rparr>"
      using CompleteExecution_up [OF up one, of t ExecDone None "Some (code w1)"] by blast
    have "completed i (QueueGeneration j) (db w3)"
      unfolding w3(2) w2(2) by (auto simp: completed_def add_execution_def set_update_where)
    then show ?thesis
      using run None c w2(1) w3 jobs by (intro exI [of _ w1] exI [of _ w3] exI conjI) (auto simp: bind_def wrap_def)
  next
    case (Some e)
    let ?c = "if code w1 \<noteq> 0 then Some (code w1) else None"
    obtain w3 where c: "CompleteExecution E (execution_seq (db w)) t ExecFailed (Some (Error e)) ?c w2 = (Inr (), w3)"
      and w3: "rd w3 = rd w2" "db w3 = db w2\<lparr>executions := update_where (\<lambda>x. ExID x = execution_seq (db w))
         (\<lambda>x. x\<lparr>ExFinishedAt := Some t, ExStatus := ExecFailed, ExError := Some (Error e), ExResponseCode := ?c\<rparr>) (executions (db w2))\<rparr>"
      using CompleteExecution_up [OF up one, of t ExecFailed "Some (Error e)" ?c] by blast
    show ?thesis
      using run Some c w2(1) w3 jobs by (intro exI [of _ w1] exI [of _ w3] exI conjI) (auto simp: bind_def wrap_def)
  qed
qed

lemma job_of_jobs: "jobs d' = jobs d \<Longrightarrow> job_of i d' = job_of i d"
  by simp

lemma Process_delivers:
  assumes "all_up E" and "redis_ok (srv E)" and "deliverable E m i j u w"
    and "\<And>w1. \<exists>code w2. ExecuteJob E cfg u (MsgPayload m) (uuid_String E i) (Attempts j + 1) w1 = (Inr (code, None), w2)"
  shows "\<exists>w' j'. Process E cfg m w = (Inr (), w') \<and> job_of i (db w') = Some j' \<and> Status j' = Done
    \<and> Attempts j' = Attempts j + 1 \<and> completed i (QueueGeneration j) (db w')
    \<and> MsgID m \<notin> pel_ids ReadyStream ConsumerGroup (rd w')"
proof -
  note d = assms(3) [unfolded deliverable_def]
  have id: "ID j = i" using d job_ofD by blast
  from assms(4) obtain code where call: "\<And>w1. \<exists>w2. ExecuteJob E cfg u (MsgPayload m) (uuid_String E i) (Attempts j + 1) w1 = (Inr (code w1, None), w2)"
    by metis
  obtain w3 t where run: "Process E cfg m w = process_done E m j w3" and w3: "rd w3 = rd w"
    "jobs (db w3) = jobs (set_job i (start_job t) (db w))" "completed i (QueueGeneration j) (db w3)"
    using Process_completes [OF assms(1,3), of cfg code "\<lambda>_. None"] call by auto
  have row: "job_of i (db w3) = Some (start_job t j)" using job_of_jobs [OF w3(2)] d by (simp add: start.job_of_set_job)
  obtain w4 t4 where u: "UpdateStatus E i StatusDone None w3 = (Inr (), w4)"
    and w4: "db w4 = set_job i (set_status Done None t4) (db w3)" "rd w4 = rd w3"
    using UpdateStatus_up [OF assms(1) _ row, of StatusDone Done None] by auto
  obtain w5 where inc: "ignore (Increment E JobsCompletedKey) w4 = (Inr (), w5)" and w5: "db w5 = db w4" "Groups (rd w5) = Groups (rd w4)"
    using Increment_up [OF assms(1,2)] by blast
  have pel: "MsgID m \<in> pel_ids ReadyStream ConsumerGroup (rd w5)"
    using d w5(2) w4(2) w3(1) pel_ids_groups [of "rd w5" ReadyStream "rd w"] by simp
  obtain w6 where ack: "acknowledgeOnce E (MsgID m) w5 = (Inr (), w6)"
    and w6: "db w6 = db w5" "MsgID m \<notin> pel_ids ReadyStream ConsumerGroup (rd w6)"
    using ack_up [OF assms(1,2) pel] by blast
  have "Process E cfg m w = (Inr (), w6)"
    using run u inc ack id by (simp add: process_done_def bind_def wrap_def)
  moreover have "job_of i (db w6) = Some (set_status Done None t4 (start_job t j))"
    using row w6 w5 w4 by (simp add: status.job_of_set_job)
  ultimately show ?thesis using w3(3) w6 w5 w4 by (auto simp: set_status_def start_job_def)
qed

text \<open>C8. A delivered job whose callback succeeds is finished: with calls that are answered,
  \<open>Process\<close> returns without error, the job is done with one attempt more, a completed
  execution of its generation is on record, and the message is acknowledged.\<close>

theorem delivery_completes:
  assumes "all_up E" and "redis_ok (srv E)" and "deliverable E m i j u w"
    and "\<And>w1. \<exists>code w2. ExecuteJob E cfg u (MsgPayload m) (uuid_String E i) (Attempts j + 1) w1 = (Inr (code, None), w2)"
  shows "\<exists>w' j'. Process E cfg m w = (Inr (), w') \<and> job_of i (db w') = Some j' \<and> Status j' = Done
    \<and> Attempts j' = Attempts j + 1 \<and> completed i (QueueGeneration j) (db w')
    \<and> MsgID m \<notin> pel_ids ReadyStream ConsumerGroup (rd w')"
  by (rule Process_delivers [OF assms])

section \<open>Failed callbacks\<close>








section \<open>A delivery in the concrete environment\<close>

definition demo_message :: message where
  "demo_message = \<lparr>MsgID = ''1-0'', MsgJobID = ''5'', MsgPayload = ''1'', MsgGeneration = 2\<rparr>"

definition demo_delivered :: world where
  "demo_delivered = (demo_with [demo_row Scheduled])\<lparr>rd := demo_redis\<lparr>
     Streams := (\<lambda>_. [])(ReadyStream := [(''1-0'', ready_fields ''5'' ''1'' ''2'')]),
     Groups := (\<lambda>_. [])(ReadyStream := [(ConsumerGroup, \<lparr>CgRead = 1, CgPel = [\<lparr>PeID = ''1-0'', PeConsumer = ''c'', PeCount = 1\<rparr>]\<rparr>)])\<rparr>\<rparr>"

definition failing_env :: env where
  "failing_env = demo_env\<lparr>exchange := (\<lambda>n a r. HopResponse \<lparr>RsStatus = 500, RsBodyLen = 0\<rparr>)\<rparr>"

lemma demo_deliverable:
  assumes "uuid_Parse E = uuid_Parse demo_env"
  shows "deliverable E demo_message 5 (demo_row Scheduled) ''example.com'' demo_delivered"
proof -
  have "schema_ok (db demo_delivered)" using demo_with_ok [of Scheduled] by (simp add: demo_delivered_def)
  moreover have "uuid_Parse demo_env ''5'' = Some 5" by code_simp
  ultimately show ?thesis
    using assms
    by (auto simp: deliverable_def demo_message_def demo_row_def pel_ids_def group_of_def)
       (auto simp: demo_delivered_def demo_with_def demo_row_def demo_tables_def)
qed

lemma demo_execute:
  "\<exists>code w2. ExecuteJob demo_env cfg ''example.com'' p jid a w1 = (Inr (code, None), w2)"
  "\<exists>code w2. ExecuteJob failing_env cfg ''example.com'' p jid a w1 = (Inr (code, Some (Err ''callback returned status'')), w2)"
proof -
  have ok: "TrimSpace ''example.com'' \<noteq> ''''" "ToLower (TrimSuffix (TrimSpace ''example.com'') ''.'') \<notin> set blockedHosts"
    "\<not> isPrivateIP (V4 0x08080808)"
    by code_simp+
  have env: "url_Parse demo_env s = Some \<lparr>Scheme = ''https'', Host = s, Hostname = s, Port = ''443''\<rparr>"
    "LookupIP demo_env n s = Inr [V4 0x08080808]" "exchange demo_env n ips r = HopResponse \<lparr>RsStatus = 200, RsBodyLen = 0\<rparr>"
    "url_Parse failing_env = url_Parse demo_env" "LookupIP failing_env = LookupIP demo_env"
    "exchange failing_env n ips r = HopResponse \<lparr>RsStatus = 500, RsBodyLen = 0\<rparr>" for s n ips r
    by (simp_all add: failing_env_def) (simp_all add: demo_env_def)
  note eval = ExecuteJob_def ValidateCallbackURL_def resolveHost_def bind_def result_of_def client_Do.simps send_def Let_def
    maxResponseBodyBytes_def env ok
  show "\<exists>code w2. ExecuteJob demo_env cfg ''example.com'' p jid a w1 = (Inr (code, None), w2)" by (simp add: eval)
  show "\<exists>code w2. ExecuteJob failing_env cfg ''example.com'' p jid a w1 = (Inr (code, Some (Err ''callback returned status'')), w2)"
    by (simp add: eval)
qed

theorem delivery_completes_witness:
  "\<exists>w' j'. Process demo_env \<lparr>AllowPrivateIPs = False\<rparr> demo_message demo_delivered = (Inr (), w')
     \<and> job_of 5 (db w') = Some j' \<and> Status j' = Done"
proof -
  have "all_up demo_env" "redis_ok (srv demo_env)" by (simp_all add: all_up_def demo_env_def mem_redis_ok)
  from delivery_completes [OF this demo_deliverable [OF refl] demo_execute(1)] show ?thesis by blast
qed


end
