(* ===== verification/LossSpec.thy ===== *)
theory LossSpec
  imports WorkerSpec
begin














end
