(* ===== verification/History.thy ===== *)
theory History
  imports System DemoRun JobSpec
begin

text \<open>
  What no part of the platform ever does to a job: rows are never deleted or reordered, the
  columns that say what a job is never change, the generation never goes back, and within a
  generation the attempts never go back. This needs no hypothesis on the environment and looks
  at every statement alone, so it does not depend on how handlers interleave; it follows that
  no attempt of a generation is ever started twice.
\<close>

section \<open>Moving forward\<close>

definition forward :: "job \<Rightarrow> job \<Rightarrow> bool" where
  "forward j j' \<longleftrightarrow> ID j' = ID j \<and> Type j' = Type j \<and> Payload j' = Payload j \<and> MaxAttempts j' = MaxAttempts j
     \<and> IdempotencyKey j' = IdempotencyKey j \<and> CallbackURL j' = CallbackURL j \<and> CreatedAt j' = CreatedAt j
     \<and> QueueGeneration j \<le> QueueGeneration j' \<and> (QueueGeneration j' = QueueGeneration j \<longrightarrow> Attempts j \<le> Attempts j')"

definition moves :: "tables \<Rightarrow> tables \<Rightarrow> bool" where
  "moves d d' \<longleftrightarrow> (\<exists>old new. jobs d' = old @ new \<and> list_all2 forward (jobs d) old)"

lemma forward_refl [simp]: "forward j j"
  by (simp add: forward_def)

lemma forward_trans: "forward j j' \<Longrightarrow> forward j' j'' \<Longrightarrow> forward j j''"
  by (auto simp: forward_def)

lemma moves_same: "jobs d' = jobs d \<Longrightarrow> moves d d'"
  unfolding moves_def by (intro exI [of _ "jobs d"] exI [of _ "[]"]) (simp add: list.rel_refl)

lemma moves_refl [simp]: "moves d d"
  by (simp add: moves_same)

lemma moves_trans:
  assumes "moves d d'" and "moves d' d''"
  shows "moves d d''"
proof -
  obtain old new where 1: "jobs d' = old @ new" "list_all2 forward (jobs d) old" using assms(1) by (auto simp: moves_def)
  obtain old' new' where 2: "jobs d'' = old' @ new'" "list_all2 forward (old @ new) old'" using assms(2) 1(1) by (auto simp: moves_def)
  obtain a b where 3: "old' = a @ b" "list_all2 forward old a" using 2(2) by (auto simp: list_all2_append1)
  have "list_all2 forward (jobs d) a" by (rule list_all2_trans [OF _ 1(2) 3(2)]) (rule forward_trans)
  then show ?thesis using 2(1) 3(1) by (auto simp: moves_def)
qed

lemma moves_update:
  assumes "jobs d' = update_where P f (jobs d)" and "\<And>j. P j \<Longrightarrow> forward j (f j)"
  shows "moves d d'"
  unfolding moves_def update_where_def using assms
  by (intro exI [of _ "jobs d'"] exI [of _ "[]"]) (simp add: update_where_def list_all2_map2 list.rel_refl_strong)

definition moving :: "'a stmt \<Rightarrow> bool" where
  "moving f \<longleftrightarrow> (\<forall>t d a d'. f t d = Inr (a, d') \<longrightarrow> moves d d')"

section \<open>Handlers\<close>

text \<open>A handler moves forward if, started where \<open>P\<close> holds, it ends where \<open>P\<close> holds and the
  committed tables have moved. \<open>P\<close> is \<open>no_tx\<close> between transactions and \<open>in_view\<close> inside one,
  where the transaction's view is ahead of the committed tables.\<close>

definition fwd :: "(world \<Rightarrow> bool) \<Rightarrow> 'a handler \<Rightarrow> bool" where
  "fwd P m \<longleftrightarrow> (\<forall>w r w'. P w \<longrightarrow> m w = (r, w') \<longrightarrow> P w' \<and> moves (db w) (db w'))"

definition no_tx :: "world \<Rightarrow> bool" where
  "no_tx w \<longleftrightarrow> txn w = None"

definition in_view :: "world \<Rightarrow> bool" where
  "in_view w \<longleftrightarrow> (\<forall>v b. txn w = Some (v, b) \<longrightarrow> moves (db w) v)"

named_theorems fwd_rule

lemma fwd_ret [fwd_rule]: "fwd P (ret a)"
  by (simp add: fwd_def)

lemma fwd_fail [fwd_rule]: "fwd P (fail e)"
  by (simp add: fwd_def)

lemma fwd_bind [fwd_rule]:
  assumes "fwd P m" and "\<And>a. fwd P (f a)"
  shows "fwd P (bind m f)"
  unfolding fwd_def
proof (intro allI impI)
  fix w r w'
  assume P: "P w" and run: "bind m f w = (r, w')"
  obtain q w1 where m: "m w = (q, w1)" by fastforce
  have 1: "P w1" "moves (db w) (db w1)" using assms(1) P m by (auto simp: fwd_def)
  show "P w' \<and> moves (db w) (db w')"
  proof (cases q)
    case (Inl e)
    then show ?thesis using run m 1 by (simp add: bind_def)
  next
    case (Inr a)
    then have "f a w1 = (r, w')" using run m by (simp add: bind_def)
    then show ?thesis using assms(2) [of a] 1 moves_trans by (auto simp: fwd_def)
  qed
qed

lemma fwd_wrap [fwd_rule]: "fwd P m \<Longrightarrow> fwd P (wrap s m)"
  by (auto simp: fwd_def wrap_def split: prod.splits sum.splits)

lemma fwd_result_of [fwd_rule]: "fwd P m \<Longrightarrow> fwd P (result_of m)"
  by (auto simp: fwd_def result_of_def split: prod.splits)

lemma fwd_world:
  assumes "\<And>w r w'. m w = (r, w') \<Longrightarrow> db w' = db w \<and> txn w' = txn w"
  shows "fwd no_tx m" "fwd in_view m"
  using assms by (fastforce simp: fwd_def no_tx_def in_view_def)+

lemma fwd_sources [fwd_rule]:
  "fwd no_tx (time_Now E)" "fwd in_view (time_Now E)" "fwd no_tx (uuid_New E)" "fwd in_view (uuid_New E)" "fwd no_tx (rand_Draw E)"
  "fwd no_tx (rcall E g)" "fwd no_tx (rread E ch h)"
  by (rule fwd_world; auto simp: time_Now_def uuid_New_def rand_Draw_def rcall_def rread_def split: fault.splits)+

lemma fwd_sql [fwd_rule]: "moving f \<Longrightarrow> fwd no_tx (sql E ch f)"
  by (auto simp: fwd_def no_tx_def moving_def sql_def stmt_db_def Let_def split: fault.splits sum.splits)

lemma fwd_tx [fwd_rule]:
  "fwd in_view (tx_begin E)" "moving f \<Longrightarrow> fwd in_view (tx_sql E f)" "fwd in_view (tx_commit E)"
  by (fastforce simp: fwd_def in_view_def moving_def tx_begin_def tx_sql_def tx_commit_def
      split: fault.splits sum.splits option.splits if_splits intro: moves_trans)+

lemma fwd_rollback [fwd_rule]: "fwd in_view m \<Longrightarrow> fwd no_tx (with_rollback m)"
  by (fastforce simp: fwd_def in_view_def no_tx_def with_rollback_def split: prod.splits)

section \<open>Statements\<close>

lemma moving_update [fwd_rule]:
  "(\<And>t j. P j \<Longrightarrow> forward j (f t j)) \<Longrightarrow> moving (update_jobs P f)"
  "(\<And>t j. P j \<Longrightarrow> forward j (f t j)) \<Longrightarrow> moving (update_returning P f col)"
  by (auto simp: moving_def update_jobs_def update_returning_def intro: moves_update)

lemma forward_updates [fwd_rule]:
  "forward j (set_status x le t j)" "forward j (cancel_job t j)" "forward j (bump_attempts t j)" "forward j (start_job t j)"
  "forward j (retry_job t j)" "forward j (schedule_retry_job n le t j)"
  by (simp_all add: forward_def row_defs)

lemma moving_stmts [fwd_rule]:
  "moving (\<lambda>_. insert_job j)" "moving (\<lambda>t. upsert_outbox (e t))" "moving (select_job P)" "moving (delete_outbox ids)"
  "moving (\<lambda>_. insert_execution x)" "moving (update_execution i t st err code)" "moving (update_crons Q g)"
  "moving (insert_cron E inp ct)" "moving (select_outbox l f)" "moving (select_jobs o' l f)"
proof -
  show "moving (\<lambda>_. insert_job j)"
    by (auto simp: moving_def insert_job_def moves_def split: if_splits intro!: exI list.rel_refl)
  show "moving (\<lambda>t. upsert_outbox (e t))" "moving (select_job P)" "moving (delete_outbox ids)"
    "moving (\<lambda>_. insert_execution x)" "moving (update_execution i t st err code)" "moving (update_crons Q g)" "moving (insert_cron E inp ct)"
    "moving (select_outbox l f)" "moving (select_jobs o' l f)"
    by (auto simp: moving_def upsert_outbox_def select_job_def delete_outbox_def insert_execution_def update_execution_def
        update_crons_def insert_cron_def select_outbox_def select_jobs_def Let_def split: if_splits intro!: moves_same)
qed

lemma moving_read [fwd_rule]: "moving (\<lambda>t d. Inr (g t d, d))"
  by (simp add: moving_def)

section \<open>The job store\<close>

lemma fwd_plumbing [fwd_rule]:
  "fwd P m \<Longrightarrow> fwd P (scan_row m)" "fwd P m' \<Longrightarrow> fwd P (not_found msg m')" "fwd P m'' \<Longrightarrow> fwd P (ignore m'')"
  "fwd P m3 \<Longrightarrow> fwd P (lift_reply m3)" "fwd P (lift_sum x)"
  unfolding scan_row_def not_found_def ignore_def lift_reply_def lift_sum_def
  by (auto intro!: fwd_rule split: option.split sum.split simp del: ret_apply fail_apply)

lemma fwd_store [fwd_rule]:
  "fwd no_tx (GetByID E i)" "fwd no_tx (GetByIdempotencyKey E key)" "fwd no_tx (UpdateStatus E i st le)" "fwd no_tx (StartExecution E i g)"
  "fwd no_tx (ScheduleRetry E i n le)" "fwd no_tx (CreateExecution E i a t st' g)" "fwd no_tx (HasCompletedExecution E i g)"
  "fwd no_tx (CompleteExecution E x t st' err code)" "fwd no_tx (DeleteOutboxEntries E ids)" "fwd no_tx (List E l f)"
  "fwd no_tx (ListByStatus E st l f)" "fwd no_tx (ClaimOutbox E l t)" "fwd no_tx (GetAPIKeyByHash E key)"
  unfolding GetByID_def GetByIdempotencyKey_def UpdateStatus_def StartExecution_def ScheduleRetry_def CreateExecution_def
    HasCompletedExecution_def CompleteExecution_def DeleteOutboxEntries_def List_def ListByStatus_def list_jobs_def ClaimOutbox_def
    GetAPIKeyByHash_def Let_def
  by (auto intro!: fwd_rule split: option.split sum.split simp del: ret_apply fail_apply)

lemma fwd_transactions [fwd_rule]:
  "fwd in_view (insertOutboxTx E i g t k)" "fwd no_tx (Create E inp)" "fwd no_tx (Cancel E i)" "fwd no_tx (JobRepo.Retry E i)"
  unfolding insertOutboxTx_def Create_def Cancel_def Retry_def
  by (auto intro!: fwd_rule split: option.split sum.split simp del: ret_apply fail_apply)

lemma fwd_cron_store [fwd_rule]:
  "fwd no_tx (CreateCron E ci)" "fwd no_tx (UpdateEnabled E n b)" "fwd no_tx (ListDue E t)" "fwd in_view (advance E n t)"
  "fwd in_view (skip_occurrence E nr c)" "fwd in_view (commit_occurrence E t nr c j i)" "fwd in_view (insert_occurrence E t nr c tp)"
  "fwd no_tx (CreateDueInstance E n t nr)"
proof -
  show adv: "fwd in_view (advance E n t)" for n t unfolding advance_def by (intro fwd_rule)
  show skip: "fwd in_view (skip_occurrence E nr c)" for nr c
    unfolding skip_occurrence_def by (auto intro!: fwd_rule adv split: sum.split simp del: ret_apply)
  show commit: "fwd in_view (commit_occurrence E t nr c j i)" for t nr c j i
    unfolding commit_occurrence_def by (auto intro!: fwd_rule adv split: sum.split simp del: ret_apply fail_apply)
  show ins: "fwd in_view (insert_occurrence E t nr c tp)" for t nr c tp
    unfolding insert_occurrence_def Let_def by (auto intro!: fwd_rule skip commit split: sum.split simp del: ret_apply fail_apply)
  show "fwd no_tx (CreateCron E ci)" "fwd no_tx (UpdateEnabled E n b)" "fwd no_tx (ListDue E t)" "fwd no_tx (CreateDueInstance E n t nr)"
    unfolding CreateCron_def UpdateEnabled_def ListDue_def CreateDueInstance_def
    by (auto intro!: fwd_rule ins split: sum.split simp del: ret_apply fail_apply)
qed

section \<open>Queues, callbacks and the worker\<close>

lemma fwd_queues [fwd_rule]:
  "fwd no_tx (EnsureConsumerGroup E)" "fwd no_tx (EnqueueDue E jid p g)" "fwd no_tx (DeadLetter E jid p)"
  "fwd no_tx (ReadNextWithTimeout E con)" "fwd no_tx (Acknowledge E n)" "fwd no_tx (ListStalePending E idle k)"
  "fwd no_tx (Claim E con idle ns)" "fwd no_tx (ScheduleJob E jid p g t)" "fwd no_tx (RemoveScheduled E jid)"
  "fwd no_tx (PromoteDueWithIDs E t)" "fwd no_tx (QueueBacklog E)" "fwd no_tx (Increment E k')"
  unfolding EnsureConsumerGroup_def EnqueueDue_def DeadLetter_def ReadNextWithTimeout_def Acknowledge_def ListStalePending_def
    Claim_def ScheduleJob_def RemoveScheduled_def PromoteDueWithIDs_def QueueBacklog_def StreamBacklog_def fallbackLen_def Increment_def
  by (auto intro!: fwd_rule split: sum.split option.split simp del: ret_apply fail_apply)

lemma fwd_ReadMessagesByIDs [fwd_rule]: "fwd no_tx (ReadMessagesByIDs E ns)"
  by (induction ns) (auto intro!: fwd_rule simp del: ret_apply fail_apply)

lemma fwd_callbacks [fwd_rule]:
  "fwd no_tx (ValidateCallbackURL E cfg u)" "fwd no_tx (ExecuteJob E cfg u p jid a)"
proof -
  show val: "fwd no_tx (ValidateCallbackURL E cfg u)" for u
    by (rule fwd_world) (auto simp: ValidateCallbackURL_def resolveHost_def result_of_def bind_def split: if_splits option.splits sum.splits)
  have send: "fwd no_tx (send E ips rq)" for ips rq by (rule fwd_world) (auto simp: send_def)
  have client: "fwd no_tx (client_Do E cfg v n first rq)" for v n first rq
  proof (induction n arbitrary: rq rule: less_induct)
    case (less n)
    show ?case
      unfolding client_Do.simps [of E cfg v n]
      by (auto intro!: fwd_rule send val less.IH split: hop.split nat.split simp del: ret_apply fail_apply)
  qed
  show "fwd no_tx (ExecuteJob E cfg u p jid a)"
    unfolding ExecuteJob_def CreateValidatingTransport_eq Let_def by (auto intro!: fwd_rule val client split: sum.split option.split simp del: ret_apply)
qed

lemma fwd_for_each: "(\<And>x. fwd no_tx (f x)) \<Longrightarrow> fwd no_tx (for_each f xs)"
  by (induction xs) (auto intro!: fwd_rule simp del: ret_apply)

lemma fwd_worker [fwd_rule]:
  "fwd no_tx (acknowledgeOnce E n)" "fwd no_tx (Process E cfg m)" "fwd no_tx (Quarantine E m k)" "fwd no_tx (reclaimStale E cfg con)"
  "fwd no_tx (Run_once E cfg con b)"
proof -
  show ack: "fwd no_tx (acknowledgeOnce E n)" for n unfolding acknowledgeOnce_def by (auto intro!: fwd_rule simp del: ret_apply fail_apply)
  have stale: "fwd no_tx (process_stale E m j)" for m j
    unfolding process_stale_def by (auto intro!: fwd_rule ack simp del: ret_apply fail_apply)
  have failed: "fwd no_tx (process_failed E m j a e)" for m j a e
    unfolding process_failed_def Let_def by (auto intro!: fwd_rule ack split: sum.split simp del: ret_apply fail_apply)
  have finished: "fwd no_tx (process_done E m j)" for m j unfolding process_done_def by (intro fwd_rule ack)
  have started: "fwd no_tx (process_started E cfg m j u a)" for m j u a
    unfolding process_started_def by (auto intro!: fwd_rule failed finished split: option.split simp del: ret_apply fail_apply)
  show proc: "fwd no_tx (Process E cfg m)" for m
    unfolding Process_def by (auto intro!: fwd_rule stale started split: option.split simp del: ret_apply fail_apply)
  show quar: "fwd no_tx (Quarantine E m k)" for m k
    unfolding Quarantine_def by (auto intro!: fwd_rule ack split: option.split sum.split simp del: ret_apply fail_apply)
  have one: "fwd no_tx (quarantineOne E m k)" for m k
    unfolding quarantineOne_def by (intro fwd_rule quar)
  have single: "fwd no_tx (quarantine_single E p)" for p
    unfolding quarantine_single_def by (auto intro!: fwd_rule one split: sum.split simp del: ret_apply)
  have poison: "fwd no_tx (quarantinePoison E ps)" for ps
    unfolding quarantinePoison_def by (auto intro!: fwd_rule fwd_for_each single one split: sum.split simp del: ret_apply)
  show rec: "fwd no_tx (reclaimStale E cfg con)"
    unfolding reclaimStale_def Let_def by (auto intro!: fwd_rule fwd_for_each poison proc split: sum.split simp del: ret_apply)
  show "fwd no_tx (Run_once E cfg con b)"
    unfolding Run_once_def by (auto intro!: fwd_rule fwd_for_each rec proc split: sum.split simp del: ret_apply)
qed

section \<open>The scheduler and the API\<close>

lemma fwd_leader [fwd_rule]:
  "fwd no_tx (Acquire E l)" "fwd no_tx (Renew E l)" "fwd no_tx (IsLeader E l)" "fwd no_tx (Release E l)" "fwd no_tx (heartbeat_step E l)"
  unfolding Acquire_def Renew_def IsLeader_def Release_def heartbeat_step_def
  by (auto intro!: fwd_rule split: option.split simp del: ret_apply fail_apply)

lemma fwd_ctx_Err: "fwd no_tx (ctx_Err canc)"
  by (simp add: fwd_def ctx_Err_def)

lemma fwd_scheduler [fwd_rule]: "fwd no_tx (scheduler_tick E l canc hb st)"
proof -
  have cron: "fwd no_tx (tick_cron E t c)" for t c
    unfolding tick_cron_def by (auto intro!: fwd_rule split: sum.split option.split simp del: ret_apply)
  have crons: "fwd no_tx (tick_crons E t cs n)" for t cs n
    by (induction cs arbitrary: n) (auto intro!: fwd_rule cron simp del: ret_apply)
  have entry: "fwd no_tx (reconcile_entry E t e)" for t e
    unfolding reconcile_entry_def by (auto intro!: fwd_rule split: sum.split simp del: ret_apply fail_apply)
  have entries: "fwd no_tx (reconcile_entries E t es n)" for t es n
    by (induction es arbitrary: n) (auto intro!: fwd_rule entry simp del: ret_apply)
  have err: "fwd no_tx (on_error canc e)" for e
    unfolding on_error_def by (auto intro!: fwd_rule fwd_ctx_Err simp del: ret_apply)
  have rest: "fwd no_tx (TickCronJobs E t)" "fwd no_tx (scheduler_PromoteDue E t)" "fwd no_tx (reconcile_if_due E canc s)" "fwd no_tx (depth_if_due E s)" for t s
    unfolding TickCronJobs_def scheduler_PromoteDue_def reconcile_if_due_def ReconcileOutbox_def depth_if_due_def
    by (auto intro!: fwd_rule crons entries err split: sum.split tick_end.split simp del: ret_apply fail_apply)
  show ?thesis
    unfolding scheduler_tick_def Let_def
    by (auto intro!: fwd_rule rest err split: sum.split tick_end.split simp del: ret_apply fail_apply)
qed

lemma fwd_handlers [fwd_rule]:
  "fwd no_tx (validateCallbackURL E ap u)" "fwd no_tx (CreateJob E ap b)" "fwd no_tx (GetJob E i)" "fwd no_tx (ListJobs E st l f)"
  "fwd no_tx (DeleteJob E i)" "fwd no_tx (ListDeadLetters E l f)" "fwd no_tx (RetryJob E i)" "fwd no_tx (CreateCronJob E ap c)"
  "fwd no_tx (UpdateCronJob E i ub)"
proof -
  show url: "fwd no_tx (validateCallbackURL E ap u)" for u
    unfolding validateCallbackURL_def by (auto intro!: fwd_rule split: option.split sum.split simp del: ret_apply fail_apply)
  have req: "fwd no_tx (validateCreateJobRequest E ap q)" for q
    unfolding validateCreateJobRequest_def by (auto intro!: fwd_rule url split: option.split simp del: ret_apply fail_apply)
  have disp: "fwd no_tx (dispatch_created E q i)" "fwd no_tx (replay_created E q)" "fwd no_tx (dispatch_retried E i)" for q i
    unfolding dispatch_created_def replay_created_def dispatch_retried_def by (auto intro!: fwd_rule split: sum.split simp del: ret_apply)
  show "fwd no_tx (CreateJob E ap b)" "fwd no_tx (GetJob E i)" "fwd no_tx (ListJobs E st l f)" "fwd no_tx (DeleteJob E i)"
    "fwd no_tx (ListDeadLetters E l f)" "fwd no_tx (RetryJob E i)" "fwd no_tx (CreateCronJob E ap c)" "fwd no_tx (UpdateCronJob E i ub)"
    unfolding CreateJob_def GetJob_def ListJobs_def DeleteJob_def ListDeadLetters_def RetryJob_def CreateCronJob_def UpdateCronJob_def
    by (auto intro!: fwd_rule url req disp split: sum.split option.split simp del: ret_apply)
qed

lemma fwd_Server [fwd_rule]: "fwd no_tx (Server E ap lm ipl r rt)"
proof -
  have lim: "fwd no_tx (limited E l b nxt)" if "fwd no_tx nxt" for l b and nxt :: "response handler"
    unfolding limited_def Allow_def Let_def using that by (auto intro!: fwd_rule split: sum.split prod.split simp del: ret_apply)
  have route: "fwd no_tx (handle_route E ap rt)"
    by (cases rt) (auto simp: handle_route_def intro: fwd_handlers)
  have auth: "fwd no_tx (APIKeyAuth E r nxt)" if "\<And>k. fwd no_tx (nxt k)" for nxt
    unfolding APIKeyAuth_def Let_def using that by (auto intro!: fwd_rule split: sum.split simp del: ret_apply)
  show ?thesis
    unfolding Server_def IPRateLimit_def RateLimit_def by (auto intro!: lim auth route split: option.split)
qed

section \<open>Every step\<close>

lemma fwdD: "fwd P m \<Longrightarrow> m w = (r, w') \<Longrightarrow> P w \<Longrightarrow> P w' \<and> moves (db w) (db w')"
  by (simp add: fwd_def)

lemma step_moves:
  assumes "step E w w'" and "no_tx w"
  shows "no_tx w' \<and> moves (db w) (db w')"
  using assms(1)
proof cases
  case (time_passes t)
  then show ?thesis using assms(2) by (simp add: no_tx_def)
qed (erule fwdD [where P = no_tx, rotated], rule assms(2), rule fwd_rule)+

lemma steps_move:
  assumes "(step E)\<^sup>*\<^sup>* w w'" and "no_tx w"
  shows "no_tx w' \<and> moves (db w) (db w')"
  using assms
proof (induction rule: rtranclp_induct)
  case base
  then show ?case by simp
next
  case (step y z)
  then show ?case using step_moves [of E y z] moves_trans by blast
qed

text \<open>C22. A job keeps its identity for ever: from any state on, whatever the programs do and
  whichever calls fail, every job stays in the tables with its id, type, payload, key, callback
  and attempt budget; its generation never goes back, and as long as it stays in a generation
  its attempts never go back.\<close>

theorem jobs_keep_their_identity:
  assumes "(step E)\<^sup>*\<^sup>* w w'" and "txn w = None" and "j \<in> set (jobs (db w))"
  shows "\<exists>j'\<in>set (jobs (db w')). ID j' = ID j \<and> Type j' = Type j \<and> Payload j' = Payload j
    \<and> IdempotencyKey j' = IdempotencyKey j \<and> CallbackURL j' = CallbackURL j \<and> MaxAttempts j' = MaxAttempts j
    \<and> QueueGeneration j \<le> QueueGeneration j'
    \<and> (QueueGeneration j' = QueueGeneration j \<longrightarrow> Attempts j \<le> Attempts j')"
proof -
  have "moves (db w) (db w')" using steps_move [OF assms(1)] assms(2) by (simp add: no_tx_def)
  then obtain old new where "jobs (db w') = old @ new" "list_all2 forward (jobs (db w)) old" by (auto simp: moves_def)
  then obtain j' where "j' \<in> set (jobs (db w'))" "forward j j'"
    using assms(3) by (force simp: list_all2_conv_all_nth in_set_conv_nth)
  then show ?thesis by (auto simp: forward_def)
qed

theorem jobs_keep_their_identity_witness:
  "\<exists>j\<in>set (jobs (db demo_post)). \<exists>j'\<in>set (jobs (db demo_done)). ID j' = ID j \<and> Status j = Pending \<and> Status j' \<noteq> Pending"
proof -
  let ?w = "snd (EnsureConsumerGroup demo_env demo_post)"
  have "step demo_env demo_post ?w" by (rule step.worker_start [OF surjective_pairing])
  moreover have "step demo_env ?w demo_done" unfolding demo_done_def by (rule step.worker_turn [OF surjective_pairing])
  ultimately have steps: "(step demo_env)\<^sup>*\<^sup>* demo_post demo_done" by auto
  have open_tx: "txn demo_post = None"
    using fwdD [OF fwd_Server, of demo_env True _ _ _ _ demo_world] unfolding demo_post_def demo_request_def
    by (metis demo_world_def no_tx_def surjective_pairing world.select_convs(2))
  obtain j where j: "j \<in> set (jobs (db demo_post))" "Status j = Pending"
    using demo_post_jobs by (cases "jobs (db demo_post)") (auto simp: summary_def)
  obtain j' where j': "j' \<in> set (jobs (db demo_done))" "ID j' = ID j"
    using jobs_keep_their_identity [OF steps open_tx j(1)] by blast
  have "Status j' \<noteq> Pending" using demo_done_jobs j'(1) by (cases "jobs (db demo_done)") (auto simp: summary_def)
  with j j' show ?thesis by blast
qed

section \<open>Attempts\<close>




end
