(* ===== verification/LoopSpec.thy ===== *)
theory LoopSpec
  imports LeaderSpec DemoRun
begin

text \<open>
  The main loops of the scheduler and the worker end when their context is cancelled,
  whatever their calls return, and every turn they make until then is a step of the
  platform, so that the invariants of the reachable states hold throughout.
\<close>

named_theorems never_fails_rule \<open>computations that end without an error value\<close>

definition never_fails :: "'a handler \<Rightarrow> bool" where
  "never_fails m \<longleftrightarrow> (\<forall>w. \<exists>a w'. m w = (Inr a, w'))"

lemma never_failsE:
  assumes "never_fails m"
  obtains a w' where "m w = (Inr a, w')"
  using assms unfolding never_fails_def by blast

lemma never_fails_bind [never_fails_rule]:
  assumes "never_fails m" and "\<And>a. never_fails (f a)"
  shows "never_fails (bind m f)"
  unfolding never_fails_def
proof
  fix w
  obtain a w1 where "m w = (Inr a, w1)" by (rule never_failsE [OF assms(1)])
  moreover obtain b w2 where "f a w1 = (Inr b, w2)" by (rule never_failsE [OF assms(2)])
  ultimately show "\<exists>a w'. bind m f w = (Inr a, w')" by simp
qed

lemma never_fails_basic [never_fails_rule]:
  "never_fails (ret a)" "never_fails (result_of m)" "never_fails (time_Now E)" "never_fails (ignore n)"
  "never_fails (ctx_Err canc)"
  by (simp_all add: never_fails_def result_of_def time_Now_def ctx_Err_def ignore_def bind_def split: prod.split)

lemma never_fails_on_error [never_fails_rule]: "never_fails (on_error canc e)"
  unfolding on_error_def by (intro never_fails_rule)

lemma never_fails_for_each [never_fails_rule]: "never_fails (for_each f xs)"
  by (induction xs) (auto intro!: never_fails_rule simp del: ret_apply)

lemma never_fails_reclaim: "never_fails (reclaimStale E cfg con)"
  unfolding reclaimStale_def quarantinePoison_def Let_def
  by (auto intro!: never_fails_rule simp del: ret_apply split: sum.split)

lemma never_fails_Run_once: "never_fails (Run_once E cfg con t)"
  unfolding Run_once_def
  by (auto intro!: never_fails_rule never_fails_reclaim simp del: ret_apply split: sum.split)

lemma never_fails_depth: "never_fails (depth_if_due E st)"
  unfolding depth_if_due_def by (auto intro!: never_fails_rule simp del: ret_apply split: sum.split)

lemma never_fails_reconcile: "never_fails (reconcile_if_due E canc st)"
  unfolding reconcile_if_due_def
  by (auto intro!: never_fails_rule simp del: ret_apply split: sum.split tick_end.split)

lemma never_fails_tick: "never_fails (scheduler_tick E l canc hb st)"
  unfolding scheduler_tick_def Let_def
  by (auto intro!: never_fails_rule never_fails_reconcile never_fails_depth simp del: ret_apply
      split: sum.split tick_end.split)

section \<open>The scheduler stops\<close>

lemma sched_loop_ends:
  assumes "CtxDone \<in> set evs"
  shows "\<exists>c st' w'. sched_loop E l canc evs st w = (Inr (Some c, st'), w')"
  using assms
proof (induction E l canc evs st arbitrary: w rule: sched_loop.induct)
  case (4 E l canc hb evs st)
  obtain x st' w1 where t: "scheduler_tick E l canc hb st w = (Inr (x, st'), w1)"
    by (rule never_failsE [OF never_fails_tick]) fastforce
  show ?case
  proof (cases x)
    case Continue
    then show ?thesis using 4 t by simp
  next
    case (Return c)
    then show ?thesis using t by simp
  qed
qed auto

lemma Release_frees:
  assumes "redis_ok (srv E)" and "outcome E RedisWrite (calls w) = Up" and "Release E l w = (r, w')"
  shows "live (LkKey l) (rd w') \<noteq> Some (LkInstance l)"
  using assms
  by (auto simp: Release_def bind_def wrap_def rcall_def releaseScript_def redis_ok_def string_law_def live_def
      split: option.splits if_splits)

lemma heartbeat_never_takes:
  assumes "redis_ok (srv E)" and "live (LkKey l) (rd w) \<noteq> Some (LkInstance l)" and "heartbeat_step E l w = (r, w')"
  shows "live (LkKey l) (rd w') \<noteq> Some (LkInstance l)"
  using assms
  by (auto simp: heartbeat_step_def Renew_def bind_def wrap_def rcall_def renewScript_def redis_ok_def string_law_def
      split: fault.splits if_splits prod.splits)

text \<open>C12.
  The scheduler's main loop ends once it receives the cancellation of its context, whatever
  the other events, the other processes and the failures of its calls were before. It then
  has no heartbeat running, and if the server answers, the instance does not hold the lease
  any more, which a last beat of the cancelled heartbeat cannot change.\<close>

theorem scheduler_stops:
  assumes "CtxDone \<in> set evs" and "redis_ok (srv E)"
  shows "\<exists>c st w'. sched_Run E l canc evs w = (Inr (Some c, st), w') \<and> \<not> HeartbeatOn st
     \<and> ((\<forall>n. outcome E RedisWrite n = Up) \<longrightarrow> live (LkKey l) (rd w') \<noteq> Some (LkInstance l)
         \<and> (\<forall>r w''. heartbeat_step E l w' = (r, w'') \<longrightarrow> live (LkKey l) (rd w'') \<noteq> Some (LkInstance l)))"
proof -
  let ?st0 = "\<lparr>LastReconcile = zero_time, LastDepthLog = zero_time, HeartbeatOn = False\<rparr>"
  obtain c st w1 where loop: "sched_loop E l canc evs ?st0 w = (Inr (Some c, st), w1)"
    using sched_loop_ends [OF assms(1)] by blast
  obtain r w2 where rel: "Release E l w1 = (r, w2)" by fastforce
  have run: "sched_Run E l canc evs w = (Inr (Some c, stopHeartbeat st), w2)"
    using loop rel by (simp add: sched_Run_def releaseLeadership_def ignore_def bind_def result_of_def)
  have "\<forall>n. outcome E RedisWrite n = Up \<Longrightarrow> live (LkKey l) (rd w2) \<noteq> Some (LkInstance l)"
    by (rule Release_frees [OF assms(2) _ rel]) simp
  moreover have "\<not> HeartbeatOn (stopHeartbeat st)" by (simp add: stopHeartbeat_def)
  ultimately show ?thesis using run heartbeat_never_takes [OF assms(2)] by blast
qed

definition demo_lock :: leader_lock where
  "demo_lock = \<lparr>LkKey = ''scheduler:leader'', LkInstance = ''a'', LkTtl = 30 * second\<rparr>"

theorem scheduler_stops_witness:
  "\<exists>c st w'. sched_Run demo_env demo_lock (\<lambda>_. False) [Ticker False, Meanwhile id, CtxDone] demo_world = (Inr (Some c, st), w')
     \<and> live ''scheduler:leader'' (rd w') \<noteq> Some ''a''"
proof -
  have "redis_ok (srv demo_env)" "\<forall>n. outcome demo_env RedisWrite n = Up"
    by (simp_all add: demo_env_def mem_redis_ok)
  then show ?thesis
    using scheduler_stops [of "[Ticker False, Meanwhile id, CtxDone]" demo_env demo_lock "\<lambda>_. False" demo_world]
    by (fastforce simp: demo_lock_def)
qed

section \<open>The worker stops\<close>

lemma Run_once_canceled: "Run_once E cfg con t w = (Inr (Some e), w') \<Longrightarrow> errors_Is e Canceled"
  by (auto simp: Run_once_def bind_def split: if_splits sum.splits prod.splits)

lemma worker_loop_ends:
  "\<exists>(f, t)\<in>set ts. TnCancelled t \<Longrightarrow> \<exists>e w'. worker_loop E cfg con ts w = (Inr (Some e), w') \<and> errors_Is e Canceled"
proof (induction ts arbitrary: w)
  case (Cons p ts)
  obtain f t where p: "p = (f, t)" by fastforce
  obtain r w1 where t: "Run_once E cfg con t (f w) = (Inr r, w1)" by (rule never_failsE [OF never_fails_Run_once])
  show ?case
  proof (cases r)
    case None
    then have "\<not> TnCancelled t" using t by (auto simp: Run_once_def)
    then show ?thesis using Cons p t None by auto
  next
    case (Some e)
    then show ?thesis using p t Run_once_canceled [of E cfg con t "f w" e w1] by simp
  qed
qed simp

section \<open>The turns are steps of the platform\<close>

lemma reachable_worker_loop:
  assumes "reachable E w" and "\<And>f t v. (f, t) \<in> set ts \<Longrightarrow> reachable E v \<Longrightarrow> reachable E (f v)"
    and "worker_loop E cfg con ts w = (r, w')"
  shows "reachable E w'"
  using assms
proof (induction ts arbitrary: w)
  case (Cons p ts)
  obtain f t where p: "p = (f, t)" by fastforce
  obtain q w1 where t: "Run_once E cfg con t (f w) = (Inr q, w1)" by (rule never_failsE [OF never_fails_Run_once])
  have w1: "reachable E w1"
    using Cons.prems(1,2) p by (auto intro: reachable.move step.worker_turn [OF t])
  show ?case
  proof (cases q)
    case None
    then show ?thesis using Cons.prems t p by (intro Cons.IH [OF w1]) auto
  next
    case (Some e)
    then show ?thesis using Cons.prems(3) t p w1 by simp
  qed
qed simp

lemma reachable_sched_loop:
  assumes "reachable E w" and "\<And>f v. Meanwhile f \<in> set evs \<Longrightarrow> reachable E v \<Longrightarrow> reachable E (f v)"
    and "sched_loop E l canc evs st w = (r, w')"
  shows "reachable E w'"
  using assms
proof (induction E l canc evs st arbitrary: w rule: sched_loop.induct)
  case (4 E l canc hb evs st)
  obtain x st' w1 where t: "scheduler_tick E l canc hb st w = (Inr (x, st'), w1)"
    by (rule never_failsE [OF never_fails_tick]) fastforce
  have w1: "reachable E w1" by (rule reachable.move [OF 4(2) step.scheduler_turn [OF t]])
  show ?case
  proof (cases x)
    case Continue
    then show ?thesis using 4(3,4) t by (intro 4(1) [OF Continue w1]) auto
  next
    case (Return c)
    then show ?thesis using 4(4) t w1 by simp
  qed
qed auto

end
