(* ===== verification/Config.thy ===== *)
theory Config
  imports Schema GoStrings
begin

text \<open>
  \<open>internal/config\<close> and \<open>internal/logger\<close>: the configuration every program loads from its
  environment variables, the log level, and what the start-up log line shows of it. The
  process environment is a function from names to values (the empty string for a variable
  that is not set). \<open>time.ParseDuration\<close> is modelled from the standard library; its one
  floating-point product, for the digits after a decimal point, is the parameter \<open>frac\<close>.
\<close>

section \<open>time.ParseDuration\<close>

definition is_digit :: "char \<Rightarrow> bool" where
  "is_digit c \<longleftrightarrow> digit_val c \<noteq> None"

definition num_char :: "char \<Rightarrow> bool" where
  "num_char c \<longleftrightarrow> c = CHR ''.'' \<or> is_digit c"

text \<open>The integer part; \<open>None\<close> beyond \<open>2^63\<close>.\<close>

definition leadingInt :: "string \<Rightarrow> nat option" where
  "leadingInt s =
     (case digits_val 0 (takeWhile is_digit s) of
        None \<Rightarrow> None
      | Some x \<Rightarrow> if 2 ^ 63 < x then None else Some x)"

text \<open>The digits after the point and the power of ten they are divided by. Digits that do
  not fit are skipped.\<close>

fun leadingFraction :: "bool \<Rightarrow> nat \<Rightarrow> nat \<Rightarrow> string \<Rightarrow> nat \<times> nat" where
  "leadingFraction overflow x scale [] = (x, scale)"
| "leadingFraction overflow x scale (c # s) =
     (case digit_val c of
        None \<Rightarrow> (x, scale)
      | Some d \<Rightarrow>
          if overflow \<or> (2 ^ 63 - 1) div 10 < x \<or> 2 ^ 63 < x * 10 + d
          then leadingFraction True x scale s
          else leadingFraction False (x * 10 + d) (scale * 10) s)"

definition unitMap :: "string \<Rightarrow> nat option" where
  "unitMap u =
     (if u = ''ns'' then Some 1
      else if u = ''us'' \<or> u = [CHR 0xC2, CHR 0xB5, CHR ''s''] \<or> u = [CHR 0xCE, CHR 0xBC, CHR ''s''] then Some 1000
      else if u = ''ms'' then Some 1000000
      else if u = ''s'' then Some 1000000000
      else if u = ''m'' then Some 60000000000
      else if u = ''h'' then Some 3600000000000
      else None)"

type_synonym float_product = "nat \<Rightarrow> nat \<Rightarrow> nat \<Rightarrow> nat"

text \<open>One number with its unit: its value in nanoseconds and the rest of the input.
  \<open>frac f unit scale\<close> is \<open>uint64(float64(f) * (float64(unit) / scale))\<close>.\<close>

definition duration_item :: "float_product \<Rightarrow> string \<Rightarrow> (nat \<times> string) option" where
  "duration_item frac s =
     (let s1 = dropWhile is_digit s;
          point = (s1 \<noteq> [] \<and> hd s1 = CHR ''.'');
          fdigits = (if point then takeWhile is_digit (tl s1) else []);
          s2 = (if point then dropWhile is_digit (tl s1) else s1);
          (f, scale) = leadingFraction False 0 1 fdigits;
          u = takeWhile (\<lambda>c. \<not> num_char c) s2;
          s3 = dropWhile (\<lambda>c. \<not> num_char c) s2 in
      case leadingInt s of
        None \<Rightarrow> None
      | Some v \<Rightarrow>
          if \<not> num_char (hd s) \<or> takeWhile is_digit s = [] \<and> fdigits = [] \<or> u = [] then None
          else
            (case unitMap u of
               None \<Rightarrow> None
             | Some unit \<Rightarrow>
                 if 2 ^ 63 div unit < v then None
                 else
                   (let v1 = (if 0 < f then (v * unit + frac f unit scale) mod 2 ^ 64 else v * unit) in
                    if 0 < f \<and> 2 ^ 63 < v1 then None else Some (v1, s3))))"

lemma duration_item_shorter:
  assumes "duration_item frac s = Some (v, r)"
  shows "length r < length s"
proof -
  let ?s1 = "dropWhile is_digit s"
  let ?s2 = "if ?s1 \<noteq> [] \<and> hd ?s1 = CHR ''.'' then dropWhile is_digit (tl ?s1) else ?s1"
  let ?u = "takeWhile (\<lambda>c. \<not> num_char c) ?s2"
  have r: "r = dropWhile (\<lambda>c. \<not> num_char c) ?s2" and u: "?u \<noteq> []"
    using assms by (auto simp: duration_item_def Let_def split: option.splits if_splits prod.splits)
  have "length ?s1 \<le> length s" "length (dropWhile is_digit (tl ?s1)) \<le> length (tl ?s1)"
    by (rule length_dropWhile_le)+
  then have "length ?s2 \<le> length s" by auto
  moreover have "length ?u + length r = length ?s2"
    unfolding r by (metis length_append takeWhile_dropWhile_id)
  ultimately show ?thesis using u by (cases ?u) auto
qed

function duration_loop :: "float_product \<Rightarrow> nat \<Rightarrow> string \<Rightarrow> nat option" where
  "duration_loop frac d s =
     (if s = [] then Some d
      else
        case duration_item frac s of
          None \<Rightarrow> None
        | Some (v, r) \<Rightarrow>
            let d' = (d + v) mod 2 ^ 64 in
            if 2 ^ 63 < d' then None else duration_loop frac d' r)"
  by pat_completeness auto

termination
  by (relation "measure (\<lambda>(frac, d, s). length s)") (auto dest: duration_item_shorter)

declare duration_loop.simps [simp del]

definition ParseDuration :: "float_product \<Rightarrow> string \<Rightarrow> int option" where
  "ParseDuration frac s =
     (let neg = has_prefix s ''-'';
          body = (if neg \<or> has_prefix s ''+'' then drop 1 s else s) in
      if body = ''0'' then Some 0
      else if body = [] then None
      else
        case duration_loop frac 0 body of
          None \<Rightarrow> None
        | Some d \<Rightarrow>
            if neg then Some (- int d)
            else if 2 ^ 63 - 1 < d then None else Some (int d))"

section \<open>Loading the configuration\<close>

record configuration =
  DBDSN :: string
  RedisAddr :: string
  RedisPassword :: string
  APIPort :: string
  LogLevel :: string
  DBMaxConns :: int
  PollInterval :: int

type_synonym getenv = "string \<Rightarrow> string"

fun firstNonEmpty :: "string list \<Rightarrow> string" where
  "firstNonEmpty [] = ''''"
| "firstNonEmpty (v # vs) = (if v \<noteq> '''' then v else firstNonEmpty vs)"

definition or_default :: "string \<Rightarrow> string \<Rightarrow> string" where
  "or_default def v = (if v = '''' then def else v)"

definition logLevels :: "string list" where
  "logLevels = [''debug'', ''info'', ''warn'', ''error'']"

definition Load :: "float_product \<Rightarrow> getenv \<Rightarrow> goerr + configuration" where
  "Load frac Getenv =
     (let dsn = firstNonEmpty [Getenv ''JOB_SCHEDULER_DB_DSN'', Getenv ''DB_DSN''];
          level = or_default ''info'' (Getenv ''LOG_LEVEL'');
          poll = ParseDuration frac (or_default ''500ms'' (Getenv ''SCHEDULER_POLL_INTERVAL''));
          maxConnsRaw = Getenv ''DB_MAX_CONNS'' in
      if dsn = '''' then Inl (Err ''JOB_SCHEDULER_DB_DSN (or DB_DSN) is required'')
      else if Getenv ''REDIS_ADDR'' = '''' then Inl (Err ''REDIS_ADDR is required'')
      else if Getenv ''API_PORT'' = '''' then Inl (Err ''API_PORT is required'')
      else if Atoi (Getenv ''API_PORT'') = None then Inl (Err ''invalid API_PORT'')
      else if level \<notin> set logLevels then Inl (Err ''invalid LOG_LEVEL'')
      else
        case poll of
          None \<Rightarrow> Inl (Err ''invalid SCHEDULER_POLL_INTERVAL'')
        | Some interval \<Rightarrow>
            if interval \<le> 0 then Inl (Err ''invalid SCHEDULER_POLL_INTERVAL'')
            else
              (let cfg = (\<lambda>maxConns. \<lparr>DBDSN = dsn, RedisAddr = Getenv ''REDIS_ADDR'',
                     RedisPassword = Getenv ''REDIS_PASSWORD'', APIPort = Getenv ''API_PORT'',
                     LogLevel = level, DBMaxConns = maxConns, PollInterval = interval\<rparr>) in
               if maxConnsRaw = '''' then Inr (cfg 10)
               else
                 case Atoi maxConnsRaw of
                   None \<Rightarrow> Inl (Err ''DB_MAX_CONNS must be a positive integer'')
                 | Some n \<Rightarrow> if n \<le> 0 then Inl (Err ''DB_MAX_CONNS must be a positive integer'')
                             else Inr (cfg n)))"

section \<open>Logging\<close>

datatype level = LevelDebug | LevelInfo | LevelWarn | LevelError

text \<open>The values of \<open>slog\<close>'s levels, by which they are ordered.\<close>

fun level_rank :: "level \<Rightarrow> int" where
  "level_rank LevelDebug = - 4"
| "level_rank LevelInfo = 0"
| "level_rank LevelWarn = 4"
| "level_rank LevelError = 8"

instantiation level :: linorder
begin

definition less_eq_level :: "level \<Rightarrow> level \<Rightarrow> bool" where
  "less_eq_level a b = (level_rank a \<le> level_rank b)"

definition less_level :: "level \<Rightarrow> level \<Rightarrow> bool" where
  "less_level a b = (level_rank a < level_rank b)"

instance
proof
  show "a \<le> b \<Longrightarrow> b \<le> a \<Longrightarrow> a = b" for a b :: level
    by (cases a; cases b) (simp_all add: less_eq_level_def)
qed (auto simp: less_eq_level_def less_level_def)

end

definition ParseLevel :: "string \<Rightarrow> level" where
  "ParseLevel s =
     (let l = ToLower (TrimSpace s) in
      if l = ''debug'' then LevelDebug
      else if l = ''warn'' \<or> l = ''warning'' then LevelWarn
      else if l = ''error'' then LevelError
      else LevelInfo)"

text \<open>A log line's attributes; a duration prints as \<open>Duration.String\<close> does.\<close>

datatype attr = AString string | AInt int | ADuration int | ATime time | ALevel level

definition LogSnapshot :: "configuration \<Rightarrow> (string \<times> attr) list" where
  "LogSnapshot cfg =
     [(''JOB_SCHEDULER_DB_DSN'', AString ''***''),
      (''REDIS_ADDR'', AString (RedisAddr cfg)),
      (''API_PORT'', AString (APIPort cfg)),
      (''LOG_LEVEL'', AString (LogLevel cfg)),
      (''DB_MAX_CONNS'', AInt (DBMaxConns cfg)),
      (''SCHEDULER_POLL_INTERVAL'', ADuration (PollInterval cfg))]"

text \<open>The JSON handler of \<open>NewWithLevel\<close>: a record below the level is dropped; the keys of
  the time and of the message are renamed, and every line carries the service's name.\<close>

definition ReplaceAttr :: "string \<Rightarrow> string" where
  "ReplaceAttr key = (if key = ''time'' then ''timestamp'' else if key = ''msg'' then ''message'' else key)"

definition log_line ::
    "string \<Rightarrow> level \<Rightarrow> time \<Rightarrow> level \<Rightarrow> string \<Rightarrow> (string \<times> attr) list \<Rightarrow> (string \<times> attr) list option" where
  "log_line service minLevel now lv msg attrs =
     (if lv < minLevel then None
      else Some (map (map_prod ReplaceAttr id)
        ([(''time'', ATime now), (''level'', ALevel lv), (''msg'', AString msg),
          (''service'', AString service)] @ attrs)))"

section \<open>What a loaded configuration satisfies\<close>

lemma duration_loop_bound: "duration_loop frac d s = Some r \<Longrightarrow> d \<le> 2 ^ 63 \<Longrightarrow> r \<le> 2 ^ 63"
  by (induction frac d s rule: duration_loop.induct)
     (subst (asm) duration_loop.simps, auto simp: Let_def not_less split: if_splits option.splits)

lemma ParseDuration_range:
  assumes "ParseDuration frac s = Some d"
  shows "- (2 ^ 63) \<le> d \<and> d < 2 ^ 63"
  using assms duration_loop_bound [of frac 0 "if has_prefix s ''-'' \<or> has_prefix s ''+'' then drop 1 s else s"]
  by (fastforce simp: ParseDuration_def Let_def split: if_splits option.splits)

lemma Atoi_range: "Atoi s = Some n \<Longrightarrow> - (2 ^ 63) \<le> n \<and> n < 2 ^ 63"
  by (auto simp: Atoi_def ParseInt_def Let_def split: if_splits option.splits)

fun level_name :: "level \<Rightarrow> string" where
  "level_name LevelDebug = ''debug''"
| "level_name LevelInfo = ''info''"
| "level_name LevelWarn = ''warn''"
| "level_name LevelError = ''error''"

definition acceptable :: "float_product \<Rightarrow> getenv \<Rightarrow> bool" where
  "acceptable frac g \<longleftrightarrow>
     (g ''JOB_SCHEDULER_DB_DSN'' \<noteq> '''' \<or> g ''DB_DSN'' \<noteq> '''')
     \<and> g ''REDIS_ADDR'' \<noteq> ''''
     \<and> Atoi (g ''API_PORT'') \<noteq> None
     \<and> g ''LOG_LEVEL'' \<in> {'''', ''debug'', ''info'', ''warn'', ''error''}
     \<and> (g ''SCHEDULER_POLL_INTERVAL'' = ''''
        \<or> (case ParseDuration frac (g ''SCHEDULER_POLL_INTERVAL'') of None \<Rightarrow> False | Some d \<Rightarrow> 0 < d))
     \<and> (g ''DB_MAX_CONNS'' = ''''
        \<or> (case Atoi (g ''DB_MAX_CONNS'') of None \<Rightarrow> False | Some n \<Rightarrow> 0 < n))"

definition wf_config :: "configuration \<Rightarrow> bool" where
  "wf_config cfg \<longleftrightarrow> DBDSN cfg \<noteq> '''' \<and> RedisAddr cfg \<noteq> '''' \<and> Atoi (APIPort cfg) \<noteq> None
     \<and> level_name (ParseLevel (LogLevel cfg)) = LogLevel cfg
     \<and> 0 < PollInterval cfg \<and> PollInterval cfg < 2 ^ 63
     \<and> 0 < DBMaxConns cfg \<and> DBMaxConns cfg < 2 ^ 63"

lemma level_roundtrip: "l \<in> set logLevels \<Longrightarrow> level_name (ParseLevel l) = l"
proof -
  have "\<forall>l\<in>set logLevels. level_name (ParseLevel l) = l" by code_simp
  then show "l \<in> set logLevels \<Longrightarrow> level_name (ParseLevel l) = l" by blast
qed

lemmas duration_eval = ParseDuration_def duration_loop.simps duration_item_def leadingInt_def unitMap_def
  is_digit_def num_char_def digit_val_def has_prefix_def Let_def

lemma default_interval: "ParseDuration frac ''500ms'' = Some 500000000"
  by (simp add: duration_eval)

lemma Load_wf: "Load frac g = Inr cfg \<Longrightarrow> wf_config cfg"
  using ParseDuration_range [of frac "or_default ''500ms'' (g ''SCHEDULER_POLL_INTERVAL'')"]
    Atoi_range [of "g ''DB_MAX_CONNS''"] level_roundtrip [of "or_default ''info'' (g ''LOG_LEVEL'')"]
  by (auto simp: Load_def wf_config_def Let_def split: if_splits option.splits)

lemma Atoi_empty [simp]: "Atoi '''' = None"
  by (simp add: Atoi_def ParseInt_def parse_unsigned_def has_prefix_def)

lemma Load_total: "(\<exists>cfg. Load frac g = Inr cfg) \<longleftrightarrow> acceptable frac g"
proof -
  define a where "a = ParseDuration frac (or_default ''500ms'' (g ''SCHEDULER_POLL_INTERVAL''))"
  define b where "b = Atoi (g ''DB_MAX_CONNS'')"
  have "acceptable frac g \<longleftrightarrow> firstNonEmpty [g ''JOB_SCHEDULER_DB_DSN'', g ''DB_DSN''] \<noteq> ''''
      \<and> g ''REDIS_ADDR'' \<noteq> '''' \<and> Atoi (g ''API_PORT'') \<noteq> None
      \<and> or_default ''info'' (g ''LOG_LEVEL'') \<in> set logLevels
      \<and> (case a of None \<Rightarrow> False | Some d \<Rightarrow> 0 < d)
      \<and> (g ''DB_MAX_CONNS'' = '''' \<or> (case b of None \<Rightarrow> False | Some n \<Rightarrow> 0 < n))"
    unfolding a_def b_def acceptable_def
    by (cases "g ''SCHEDULER_POLL_INTERVAL'' = ''''")
       (simp_all add: or_default_def logLevels_def default_interval disj_commute)
  moreover have "g ''API_PORT'' = '''' \<Longrightarrow> Atoi (g ''API_PORT'') = None" by simp
  ultimately show ?thesis
    unfolding Load_def Let_def a_def [symmetric] b_def [symmetric]
    by (cases a; cases b) (simp_all del: firstNonEmpty.simps)
qed

text \<open>C17.
  Loading succeeds exactly on acceptable environments: a data source (the prefixed variable
  first) and a Redis address are set, the port is numeric, the log level is one of the four
  names or unset, the poll interval and the pool size are positive or unset; and then the
  configuration is well formed, its level is the one the logger will use, its interval and
  pool size are positive 64-bit numbers, and the start-up log line does not depend on the
  data source or the Redis password.\<close>

theorem Load_exact:
  "((\<exists>cfg. Load frac g = Inr cfg) \<longleftrightarrow> acceptable frac g)
   \<and> (Load frac g = Inr cfg \<longrightarrow> wf_config cfg
       \<and> DBDSN cfg = (if g ''JOB_SCHEDULER_DB_DSN'' \<noteq> '''' then g ''JOB_SCHEDULER_DB_DSN'' else g ''DB_DSN'')
       \<and> (\<forall>dsn pw. LogSnapshot (cfg\<lparr>DBDSN := dsn, RedisPassword := pw\<rparr>) = LogSnapshot cfg))"
proof (intro conjI impI)
  assume L: "Load frac g = Inr cfg"
  show "wf_config cfg" by (rule Load_wf [OF L])
  show "DBDSN cfg = (if g ''JOB_SCHEDULER_DB_DSN'' \<noteq> '''' then g ''JOB_SCHEDULER_DB_DSN'' else g ''DB_DSN'')"
    using L by (auto simp: Load_def Let_def split: if_splits option.splits)
  show "\<forall>dsn pw. LogSnapshot (cfg\<lparr>DBDSN := dsn, RedisPassword := pw\<rparr>) = LogSnapshot cfg"
    by (simp add: LogSnapshot_def)
qed (rule Load_total)

definition demo_getenv :: getenv where
  "demo_getenv k =
     (if k = ''DB_DSN'' then ''postgres://db/jobs'' else if k = ''REDIS_ADDR'' then ''redis:6379''
      else if k = ''API_PORT'' then ''4000'' else if k = ''LOG_LEVEL'' then ''warn''
      else if k = ''SCHEDULER_POLL_INTERVAL'' then ''1m0.5s'' else '''')"

definition demo_frac :: float_product where
  "demo_frac f unit scale = f * unit div scale"

definition demo_config :: configuration where
  "demo_config = \<lparr>DBDSN = ''postgres://db/jobs'', RedisAddr = ''redis:6379'', RedisPassword = '''',
     APIPort = ''4000'', LogLevel = ''warn'', DBMaxConns = 10, PollInterval = 60500000000\<rparr>"

lemma demo_interval: "ParseDuration demo_frac ''1m0.5s'' = Some 60500000000"
  by (simp add: duration_eval demo_frac_def)

lemma demo_Load: "Load demo_frac demo_getenv = Inr demo_config"
  by (simp add: Load_def demo_getenv_def demo_config_def or_default_def demo_interval logLevels_def
      Atoi_def ParseInt_def parse_unsigned_def has_prefix_def digit_val_def)

theorem Load_exact_witness:
  "acceptable demo_frac demo_getenv \<and> wf_config demo_config \<and> ParseLevel (LogLevel demo_config) = LevelWarn"
proof (intro conjI)
  show "acceptable demo_frac demo_getenv" "wf_config demo_config"
    using Load_exact [of demo_frac demo_getenv demo_config] demo_Load by auto
  show "ParseLevel (LogLevel demo_config) = LevelWarn" by code_simp
qed

end
