(* ===== verification/Boot.thy ===== *)
theory Boot
  imports API Config
begin

text \<open>
  The programs: how \<open>cmd/api\<close>, \<open>cmd/worker\<close>, \<open>cmd/scheduler\<close> and \<open>cmd/apikey\<close> load their
  configuration, connect (\<open>internal/db\<close>, \<open>internal/redisclient\<close>), start and end, and the
  health checks (\<open>internal/health\<close>, \<open>cmd/*/health*.go\<close>). The record \<open>process\<close> is what a
  program finds around it: its environment variables, its arguments, the host name, and the
  drivers' and the metrics registry's answers to the configuration they are given.
\<close>

section \<open>Connections\<close>

record process =
  Getenv :: getenv
  Args :: "string list"
  OsHostname :: "goerr + string"
  Frac :: float_product
  pgx_ParseConfig :: "string \<Rightarrow> goerr option"
  pgx_NewWithConfig :: "string \<Rightarrow> int \<Rightarrow> goerr option"
  prometheus_Register :: "goerr option"

definition i32 :: "int \<Rightarrow> int" where
  "i32 x = (x + 2 ^ 31) mod 2 ^ 32 - 2 ^ 31"

definition check :: "string \<Rightarrow> goerr option \<Rightarrow> unit handler" where
  "check msg r = (case r of None \<Rightarrow> ret () | Some e \<Rightarrow> fail (Wrap msg e))"

definition pool_Ping :: "env \<Rightarrow> unit handler" where
  "pool_Ping E = sql E PgStmt (\<lambda>_ d. Inr ((), d))"

definition redis_Ping :: "env \<Rightarrow> unit handler" where
  "redis_Ping E = rread E RedisRead (\<lambda>_ _. ())"

definition db_Ping :: "env \<Rightarrow> unit handler" where
  "db_Ping E = wrap ''failed to reach database during ping'' (pool_Ping E)"

definition NewPool :: "env \<Rightarrow> process \<Rightarrow> configuration \<Rightarrow> unit handler" where
  "NewPool E P cfg =
     bind (check ''failed to parse database'' (pgx_ParseConfig P (DBDSN cfg))) (\<lambda>_.
     bind (check ''failed to establish database pool'' (pgx_NewWithConfig P (DBDSN cfg) (i32 (DBMaxConns cfg)))) (\<lambda>_.
     db_Ping E))"

definition redisclient_New :: "env \<Rightarrow> configuration \<Rightarrow> unit handler" where
  "redisclient_New E cfg = redis_Ping E"

definition config_Load :: "process \<Rightarrow> configuration handler" where
  "config_Load P = lift_sum (Load (Frac P) (Getenv P))"

section \<open>Health\<close>

definition Check :: "env \<Rightarrow> unit handler" where
  "Check E =
     bind (wrap ''database health check'' (pool_Ping E)) (\<lambda>_.
     wrap ''redis health check'' (redis_Ping E))"

definition Healthz :: "env \<Rightarrow> response handler" where
  "Healthz E =
     bind (result_of (Check E)) (\<lambda>r.
     case r of
       Inl err \<Rightarrow> ret (WriteError 503 ''SERVICE_UNAVAILABLE'' (Error err))
     | Inr _ \<Rightarrow> ret (respond 200 (BText ''{\"status\":\"ok\"}'')))"

text \<open>The probe of \<open>cmd/api\<close>: \<open>get\<close> is the GET request to the local server, an error or the
  status of its response.\<close>

definition api_healthcheck :: "process \<Rightarrow> (string \<Rightarrow> (goerr + int) handler) \<Rightarrow> int handler" where
  "api_healthcheck P get =
     (let port = or_default ''4000'' (Getenv P ''API_PORT'') in
      bind (get (''http://127.0.0.1:'' @ port @ ''/healthz'')) (\<lambda>r.
      ret (case r of Inl _ \<Rightarrow> 1 | Inr st \<Rightarrow> if st \<noteq> 200 then 1 else 0)))"

text \<open>The probes of \<open>cmd/worker\<close> and \<open>cmd/scheduler\<close>, which are the same.\<close>

definition runHealthcheck :: "env \<Rightarrow> process \<Rightarrow> int handler" where
  "runHealthcheck E P =
     bind (result_of (bind (config_Load P) (\<lambda>cfg.
       bind (NewPool E P cfg) (\<lambda>_. redisclient_New E cfg)))) (\<lambda>r.
     ret (case r of Inl _ \<Rightarrow> 1 | Inr _ \<Rightarrow> 0))"

definition scheduler_runHealthcheck :: "env \<Rightarrow> process \<Rightarrow> int handler" where
  "scheduler_runHealthcheck E P =
     bind (result_of (bind (config_Load P) (\<lambda>cfg.
       bind (NewPool E P cfg) (\<lambda>_. redisclient_New E cfg)))) (\<lambda>r.
     ret (case r of Inl _ \<Rightarrow> 1 | Inr _ \<Rightarrow> 0))"

section \<open>cmd/apikey\<close>

definition insert_api_key :: "api_key \<Rightarrow> unit stmt" where
  "insert_api_key k t d =
     (if AkID k \<in> AkID ` set (api_keys d) then Inl (PgUnique ''api_keys_pkey'')
      else if AkHashedKey k \<in> AkHashedKey ` set (api_keys d) then Inl (PgUnique ''idx_api_keys_hashed_key'')
      else Inr ((), d\<lparr>api_keys := api_keys d @ [k]\<rparr>))"

text \<open>The exit code and the key that is printed.\<close>

definition apikey_main :: "env \<Rightarrow> process \<Rightarrow> string \<Rightarrow> (int \<times> string option) handler" where
  "apikey_main E P clientName =
     (if clientName = '''' then ret (1, None)
      else
        bind (result_of (
          bind (Generate E) (\<lambda>(rawKey, hashedKey).
          bind (config_Load P) (\<lambda>cfg.
          bind (NewPool E P cfg) (\<lambda>_.
          bind (uuid_New E) (\<lambda>i.
          bind (time_Now E) (\<lambda>now.
          bind (sql E PgStmt (insert_api_key \<lparr>AkID = i, AkClientName = clientName,
            AkHashedKey = hashedKey, AkCreatedAt = now, AkRevokedAt = None\<rparr>)) (\<lambda>_.
          ret rawKey)))))))) (\<lambda>r.
        case r of Inl _ \<Rightarrow> ret (1, None) | Inr rawKey \<Rightarrow> ret (0, Some rawKey)))"

section \<open>The servers\<close>

definition healthcheck_requested :: "process \<Rightarrow> bool" where
  "healthcheck_requested P \<longleftrightarrow> ''-healthcheck'' \<in> set (Args P) \<or> ''--healthcheck'' \<in> set (Args P)"

definition allowPrivateIPs :: "process \<Rightarrow> bool" where
  "allowPrivateIPs P \<longleftrightarrow> Getenv P ''JOB_SCHEDULER_ALLOW_PRIVATE_IPS'' = ''true''"

text \<open>\<open>cmd/api\<close>: what is running after a successful start.\<close>

record api_server =
  SvAddr :: string
  SvAllowPrivate :: bool
  SvLimiter :: limiter
  SvIPLimiter :: limiter

definition api_start :: "env \<Rightarrow> process \<Rightarrow> api_server handler" where
  "api_start E P =
     bind (config_Load P) (\<lambda>cfg.
     bind (NewPool E P cfg) (\<lambda>_.
     bind (redisclient_New E cfg) (\<lambda>_.
     bind (check ''failed to register metrics'' (prometheus_Register P)) (\<lambda>_.
     ret \<lparr>SvAddr = '':'' @ APIPort cfg, SvAllowPrivate = allowPrivateIPs P,
       SvLimiter = New_limiter 60 (60 * second), SvIPLimiter = New_limiter 300 (60 * second)\<rparr>))))"

text \<open>The requests of a run, each with what other processes do before it, and their
  responses.\<close>

type_synonym request = "(world \<Rightarrow> world) \<times> http_in \<times> route"

definition server_of :: "env \<Rightarrow> api_server \<Rightarrow> http_in \<Rightarrow> route \<Rightarrow> response handler" where
  "server_of E sv r rt = Server E (SvAllowPrivate sv) (SvLimiter sv) (Some (SvIPLimiter sv)) r rt"

fun serve :: "env \<Rightarrow> api_server \<Rightarrow> request list \<Rightarrow> response list handler" where
  "serve E sv [] = ret []"
| "serve E sv ((others, r, rt) # rs) = (\<lambda>w.
     bind (server_of E sv r rt) (\<lambda>resp. bind (serve E sv rs) (\<lambda>resps. ret (resp # resps))) (others w))"

text \<open>The listener may fail, which cancels the context and leads to the same shutdown as a
  signal; \<open>shutdown\<close> is the error of \<open>server.Shutdown\<close>.\<close>

definition api_run ::
    "env \<Rightarrow> process \<Rightarrow> goerr option \<Rightarrow> request list \<Rightarrow> goerr option \<Rightarrow> (int \<times> response list) handler" where
  "api_run E P listen reqs shutdown =
     bind (result_of (api_start E P)) (\<lambda>r.
     case r of
       Inl _ \<Rightarrow> ret (1, [])
     | Inr sv \<Rightarrow>
         bind (case listen of Some _ \<Rightarrow> ret [] | None \<Rightarrow> serve E sv reqs) (\<lambda>resps.
         ret (case shutdown of Some _ \<Rightarrow> 1 | None \<Rightarrow> 0, resps)))"

definition api_main ::
    "env \<Rightarrow> process \<Rightarrow> (string \<Rightarrow> (goerr + int) handler) \<Rightarrow> goerr option \<Rightarrow> request list \<Rightarrow> goerr option \<Rightarrow> int handler" where
  "api_main E P get listen reqs shutdown =
     (if healthcheck_requested P then api_healthcheck P get
      else bind (api_run E P listen reqs shutdown) (\<lambda>(code, resps). ret code))"

text \<open>The first eight characters of \<open>uuid.NewString()\<close>.\<close>

definition uuid8 :: "env \<Rightarrow> string handler" where
  "uuid8 E = bind (uuid_New E) (\<lambda>i. ret (take 8 (uuid_String E i)))"

definition worker_hostname :: "process \<Rightarrow> string" where
  "worker_hostname P =
     (let host = or_default ''worker'' (case OsHostname P of Inl _ \<Rightarrow> '''' | Inr h \<Rightarrow> h);
          host = or_default host (Getenv P ''HOSTNAME'') in
      if Getenv P ''SCHEDULER_INSTANCE_ID'' \<noteq> '''' \<and> Getenv P ''HOSTNAME'' = ''''
      then Getenv P ''SCHEDULER_INSTANCE_ID'' else host)"

definition worker_init :: "env \<Rightarrow> process \<Rightarrow> (config \<times> string) handler" where
  "worker_init E P =
     bind (config_Load P) (\<lambda>cfg.
     bind (NewPool E P cfg) (\<lambda>_.
     bind (redisclient_New E cfg) (\<lambda>_.
     bind (EnsureConsumerGroup E) (\<lambda>_.
     bind (uuid8 E) (\<lambda>u.
     ret (\<lparr>AllowPrivateIPs = allowPrivateIPs P\<rparr>, NewWorker (worker_hostname P @ ''-'' @ u)))))))"

definition exit_code :: "goerr option \<Rightarrow> int" where
  "exit_code e = (case e of None \<Rightarrow> 0 | Some err \<Rightarrow> if errors_Is err Canceled then 0 else 1)"

text \<open>\<open>None\<close> while the program is running.\<close>

definition worker_run ::
    "env \<Rightarrow> process \<Rightarrow> ((world \<Rightarrow> world) \<times> turn) list \<Rightarrow> int option handler" where
  "worker_run E P ts =
     bind (result_of (worker_init E P)) (\<lambda>r.
     case r of
       Inl _ \<Rightarrow> ret (Some 1)
     | Inr (cfg, consumer) \<Rightarrow>
         bind (result_of (worker_Run E cfg consumer ts)) (\<lambda>x.
         ret (case x of Inl e \<Rightarrow> Some (exit_code (Some e)) | Inr None \<Rightarrow> None
            | Inr (Some e) \<Rightarrow> Some (exit_code (Some e)))))"

definition scheduler_lock :: "env \<Rightarrow> process \<Rightarrow> leader_lock handler" where
  "scheduler_lock E P =
     (let lock = (\<lambda>i. \<lparr>LkKey = ''scheduler:leader'', LkInstance = i, LkTtl = 30 * second\<rparr>) in
      if Getenv P ''SCHEDULER_INSTANCE_ID'' \<noteq> '''' then ret (lock (Getenv P ''SCHEDULER_INSTANCE_ID''))
      else
        (let hostname = or_default ''scheduler'' (case OsHostname P of Inl _ \<Rightarrow> '''' | Inr h \<Rightarrow> h) in
         bind (uuid8 E) (\<lambda>u. ret (lock (hostname @ ''-'' @ u)))))"

definition scheduler_init :: "env \<Rightarrow> process \<Rightarrow> leader_lock handler" where
  "scheduler_init E P =
     bind (config_Load P) (\<lambda>cfg.
     bind (redisclient_New E cfg) (\<lambda>_.
     bind (NewPool E P cfg) (\<lambda>_.
     scheduler_lock E P)))"

definition scheduler_run ::
    "env \<Rightarrow> process \<Rightarrow> (nat \<Rightarrow> bool) \<Rightarrow> sched_event list \<Rightarrow> int option handler" where
  "scheduler_run E P canc evs =
     bind (result_of (scheduler_init E P)) (\<lambda>r.
     case r of
       Inl _ \<Rightarrow> ret (Some 1)
     | Inr l \<Rightarrow>
         bind (sched_Run E l canc evs) (\<lambda>(x, st).
         ret (map_option exit_code x)))"

definition worker_main :: "env \<Rightarrow> process \<Rightarrow> ((world \<Rightarrow> world) \<times> turn) list \<Rightarrow> int option handler" where
  "worker_main E P ts =
     (if healthcheck_requested P then bind (runHealthcheck E P) (\<lambda>c. ret (Some c)) else worker_run E P ts)"

definition scheduler_main ::
    "env \<Rightarrow> process \<Rightarrow> (nat \<Rightarrow> bool) \<Rightarrow> sched_event list \<Rightarrow> int option handler" where
  "scheduler_main E P canc evs =
     (if healthcheck_requested P then bind (scheduler_runHealthcheck E P) (\<lambda>c. ret (Some c))
      else scheduler_run E P canc evs)"

end
