(* ===== verification/BootSpec.thy ===== *)
theory BootSpec
  imports Boot LoopSpec WorkerSpec
begin

text \<open>
  What the programs promise: a key issued by \<open>cmd/apikey\<close> is accepted by the server, the
  health probes report exactly whether the two services answer, and a worker that cannot
  start exits with code 1 without having touched anything, while one that was started ends
  with code 0 when it is told to stop.
\<close>

section \<open>API keys\<close>

lemma strip_runes_none:
  assumes "\<forall>p\<in>set rs. p \<noteq> [] \<and> hd p \<notin> set s"
  shows "strip_runes rs n s = s"
proof (cases n)
  case (Suc k)
  have "\<not> has_prefix s p" if "p \<in> set rs" for p
  proof
    assume "has_prefix s p"
    then have p: "take (length p) s = p" by (simp add: has_prefix_def)
    have "p \<noteq> []" "hd p \<notin> set s" using assms that by auto
    then have "hd p \<in> set (take (length p) s)" using p by (metis list.set_sel(1))
    then show False using \<open>hd p \<notin> set s\<close> by (meson in_set_takeD)
  qed
  then have "find (has_prefix s) rs = None" by (auto simp: find_None_iff)
  then show ?thesis using Suc by simp
qed simp

lemma TrimSpace_hex: "TrimSpace (EncodeToString s) = EncodeToString s"
proof -
  have heads: "\<forall>p\<in>set (space_runes @ map rev space_runes). p \<noteq> [] \<and> (of_char (hd p) :: nat) \<notin> {48..57} \<union> {97..102}"
    by (simp add: space_runes_def)
  have "\<forall>p\<in>set (space_runes @ map rev space_runes). p \<noteq> [] \<and> hd p \<notin> set (EncodeToString s)"
    using heads set_EncodeToString [of _ s] by blast
  then show ?thesis
    by (simp add: TrimSpace_def trim_left_def trim_right_def strip_runes_none)
qed

lemma NewPool_frame: "NewPool E P cfg w = (r, w') \<Longrightarrow> db w' = db w \<and> rd w' = rd w"
  by (auto simp: NewPool_def check_def db_Ping_def pool_Ping_def bind_def wrap_def sql_def stmt_db_def Let_def
      split: option.splits fault.splits)

lemma config_Load_frame: "config_Load P w = (r, w') \<Longrightarrow> w' = w"
  by (auto simp: config_Load_def lift_sum_def split: sum.splits)

lemma find_first: "find Q xs = None \<Longrightarrow> Q k \<Longrightarrow> find Q (xs @ k # ys) = Some k"
  by (induction xs) (auto split: if_splits)

text \<open>\<open>crypto/rand.Read\<close> fills its argument or fails.\<close>

definition full_reads :: "env \<Rightarrow> bool" where
  "full_reads E \<longleftrightarrow> (\<forall>n k bs. crypto_Read E n k = Inr bs \<longrightarrow> length bs = k)"

lemma apikey_main_stores:
  assumes "apikey_main E P name w = (Inr (0, Some raw), w')"
    and "full_reads E"
  obtains k bs where "raw = EncodeToString bs" "length bs = keyBytes"
    "api_keys (db w') = api_keys (db w) @ [k]" "AkClientName k = name" "AkHashedKey k = Hash E raw" "AkRevokedAt k = None"
    "AkHashedKey k \<notin> AkHashedKey ` set (api_keys (db w))" "name \<noteq> ''''"
proof -
  have name: "name \<noteq> ''''" using assms(1) by (auto simp: apikey_main_def)
  obtain bs where bs: "crypto_Read E (calls w) keyBytes = Inr bs"
    using assms(1) name by (cases "crypto_Read E (calls w) keyBytes")
      (auto simp: apikey_main_def Generate_def rand_Read_def bind_def result_of_def)
  let ?raw = "EncodeToString bs"
  have gen: "Generate E w = (Inr (?raw, Hash E ?raw), tick w)"
    using bs by (simp add: Generate_def rand_Read_def Let_def)
  obtain cfg where cfg: "config_Load P (tick w) = (Inr cfg, tick w)"
    using assms(1) name gen config_Load_frame [of P "tick w"]
    by (cases "config_Load P (tick w)"; cases "fst (config_Load P (tick w))")
       (auto simp: apikey_main_def bind_def result_of_def)
  obtain u w1 where pool: "NewPool E P cfg (tick w) = (Inr u, w1)"
    using assms(1) name gen cfg
    by (cases "NewPool E P cfg (tick w)"; cases "fst (NewPool E P cfg (tick w))")
       (auto simp: apikey_main_def bind_def result_of_def)
  have w1: "db w1 = db w" using NewPool_frame [OF pool] by simp
  define k where "k = \<lparr>AkID = uuid_at E (calls w1), AkClientName = name, AkHashedKey = Hash E ?raw,
     AkCreatedAt = clock_at E (Suc (calls w1)), AkRevokedAt = None\<rparr>"
  let ?w2 = "tick (tick w1)"
  obtain v where ins: "sql E PgStmt (insert_api_key k) ?w2 = (Inr v, w')" and raw: "raw = ?raw"
    using assms(1) name gen cfg pool
    by (cases "sql E PgStmt (insert_api_key k) ?w2"; cases "fst (sql E PgStmt (insert_api_key k) ?w2)")
       (auto simp: apikey_main_def bind_def result_of_def uuid_New_def time_Now_def k_def)
  show ?thesis
  proof (rule that [of bs k])
    show "raw = EncodeToString bs" by (rule raw)
    show "length bs = keyBytes" using assms(2) bs by (auto simp: full_reads_def)
    show "api_keys (db w') = api_keys (db w) @ [k]" "AkHashedKey k \<notin> AkHashedKey ` set (api_keys (db w))"
      using ins w1 by (auto simp: sql_def insert_api_key_def Let_def split: fault.splits if_splits)
  qed (simp_all add: k_def raw name)
qed

text \<open>C13.
  A key that \<open>cmd/apikey\<close> prints is accepted: if it exits with 0, it has added one row for
  the client, which holds the hash of the printed key, and a request with the key in its
  \<open>Authorization\<close> header passes the authentication in every later state in which the row is
  there, under the row's id. The printed key is 64 hexadecimal characters long.\<close>

theorem issued_key_authenticates:
  assumes "apikey_main E P name w = (Inr (0, Some raw), w')"
    and "full_reads E"
    and "RqAuthorization r = ''Bearer '' @ raw"
    and "api_keys (db v) = api_keys (db w') @ later" and "outcome E PgStmt (calls v) = Up"
  shows "\<exists>k. api_keys (db w') = api_keys (db w) @ [k] \<and> AkClientName k = name
     \<and> AkHashedKey k = EncodeToString (Sum256 E raw) \<and> length raw = 64
     \<and> APIKeyAuth E r nxt v = nxt (uuid_String E (AkID k)) (tick v)"
proof -
  obtain k bs where raw: "raw = EncodeToString bs" "length bs = keyBytes"
    and k: "api_keys (db w') = api_keys (db w) @ [k]" "AkClientName k = name" "AkHashedKey k = Hash E raw"
      "AkRevokedAt k = None" "AkHashedKey k \<notin> AkHashedKey ` set (api_keys (db w))"
    by (rule apikey_main_stores [OF assms(1,2)])
  have "find (\<lambda>x. AkHashedKey x = Hash E raw) (api_keys (db w)) = None"
    using k(3,5) by (auto simp: find_None_iff image_iff)
  then have row: "find (\<lambda>x. AkHashedKey x = Hash E raw) (api_keys (db v)) = Some k"
    unfolding assms(4) k(1) by (simp add: find_first k(3))
  have ne: "raw \<noteq> ''''" using raw by (auto simp: keyBytes_def)
  have "TrimSpace (TrimPrefix (RqAuthorization r) ''Bearer '') = raw"
    using assms(3) raw(1) TrimSpace_hex by (simp add: TrimPrefix_def has_prefix_def)
  then have "APIKeyAuth E r nxt v = nxt (uuid_String E (AkID k)) (tick v)"
    using assms(3,5) ne row k(4)
    by (simp add: APIKeyAuth_def has_prefix_def GetAPIKeyByHash_def not_found_def scan_row_def bind_def result_of_def sql_def tick_def)
  then show ?thesis using k raw by (auto simp: Hash_def keyBytes_def)
qed

definition demo_process :: process where
  "demo_process = \<lparr>Getenv = demo_getenv, Args = [], OsHostname = Inr ''host'', Frac = demo_frac,
     pgx_ParseConfig = (\<lambda>_. None), pgx_NewWithConfig = (\<lambda>_ n. None), prometheus_Register = None\<rparr>"

lemma demo_config_Load: "config_Load demo_process w = (Inr demo_config, w)"
  by (simp add: config_Load_def demo_process_def demo_Load lift_sum_def)

lemma demo_up: "outcome demo_env ch n = Up"
  by (simp add: demo_env_def)

lemma demo_pool: "NewPool demo_env demo_process cfg w = (Inr (), tick w)"
  by (simp add: NewPool_def check_def demo_process_def db_Ping_def pool_Ping_def wrap_def sql_def demo_up bind_def tick_def)

definition demo_key :: string where
  "demo_key = EncodeToString (replicate keyBytes (char_of (0::nat)))"

lemma demo_Generate: "Generate demo_env demo_world = (Inr (demo_key, Hash demo_env demo_key), tick demo_world)"
  by (simp add: Generate_def rand_Read_def Let_def bind_def demo_env_def demo_world_def demo_key_def)

lemma demo_key_new: "Hash demo_env demo_key \<noteq> ''736563726574''"
  by code_simp

definition demo_issued :: world where
  "demo_issued = snd (apikey_main demo_env demo_process ''ops'' demo_world)"

lemma demo_issue: "apikey_main demo_env demo_process ''ops'' demo_world = (Inr (0, Some demo_key), demo_issued)"
proof -
  have ids: "uuid_at demo_env n = of_nat n" for n by (simp add: demo_env_def)
  show ?thesis
    unfolding demo_issued_def
    by (simp add: apikey_main_def demo_Generate demo_config_Load demo_pool demo_key_new bind_def result_of_def
        uuid_New_def time_Now_def sql_def demo_up insert_api_key_def ids)
       (simp add: demo_key_new demo_world_def demo_tables_def)
qed

definition demo_key_request :: http_in where
  "demo_key_request = \<lparr>RqAuthorization = ''Bearer '' @ demo_key, RqForwardedFor = [], RqRemoteAddr = []\<rparr>"

theorem issued_key_authenticates_witness:
  "\<exists>k :: api_key. APIKeyAuth demo_env demo_key_request (\<lambda>i. ret (respond 200 (BText i))) demo_issued
     = (Inr (respond 200 (BText (uuid_String demo_env (AkID k)))), tick demo_issued) \<and> AkClientName k = ''ops''"
proof -
  have reads: "full_reads demo_env" by (auto simp: full_reads_def demo_env_def)
  have auth: "RqAuthorization demo_key_request = ''Bearer '' @ demo_key" by (simp add: demo_key_request_def)
  show ?thesis
    using issued_key_authenticates [OF demo_issue reads auth, of demo_issued "[]" "\<lambda>i. ret (respond 200 (BText i))"]
    by (simp add: demo_up) blast
qed

section \<open>Health\<close>

definition answers_ping :: "env \<Rightarrow> nat \<Rightarrow> bool" where
  "answers_ping E n \<longleftrightarrow> outcome E PgStmt n = Up \<and> outcome E RedisRead (Suc n) = Up"

lemma pings:
  "pool_Ping E w = ((if outcome E PgStmt (calls w) = Up then Inr () else Inl Unavailable), tick w)"
  "redis_Ping E w = ((if outcome E RedisRead (calls w) = Up then Inr () else Inl Unavailable), tick w)"
  by (simp_all add: pool_Ping_def redis_Ping_def sql_def stmt_db_def rread_def tick_def split: fault.split)

definition accepts :: "process \<Rightarrow> configuration \<Rightarrow> bool" where
  "accepts P cfg \<longleftrightarrow> pgx_ParseConfig P (DBDSN cfg) = None
     \<and> pgx_NewWithConfig P (DBDSN cfg) (i32 (DBMaxConns cfg)) = None"

lemma NewPool_cases:
  obtains (up) "accepts P cfg" "outcome E PgStmt (calls w) = Up" "NewPool E P cfg w = (Inr (), tick w)"
  | (down) e w' where "NewPool E P cfg w = (Inl e, w')" "db w' = db w" "rd w' = rd w"
      "\<not> (accepts P cfg \<and> outcome E PgStmt (calls w) = Up)"
proof (cases "accepts P cfg \<and> outcome E PgStmt (calls w) = Up")
  case True
  then show ?thesis by (intro up) (simp_all add: accepts_def NewPool_def check_def db_Ping_def pings wrap_def bind_def)
next
  case False
  obtain r w' where r: "NewPool E P cfg w = (r, w')" by fastforce
  then have "\<exists>e. r = Inl e"
    using False by (auto simp: accepts_def NewPool_def check_def db_Ping_def pings wrap_def bind_def split: option.splits)
  then show ?thesis using r NewPool_frame [OF r] False down by blast
qed

lemma Healthz_result:
  "\<exists>resp w1. Healthz E w = (Inr resp, w1) \<and> db w1 = db w \<and> rd w1 = rd w
     \<and> RpStatus resp = (if answers_ping E (calls w) then 200 else 503)"
  by (cases "outcome E PgStmt (calls w) = Up"; cases "outcome E RedisRead (Suc (calls w)) = Up")
     (simp_all add: Healthz_def Check_def bind_def wrap_def result_of_def pings answers_ping_def WriteError_def respond_def)

text \<open>The configuration is acceptable and the driver accepts it.\<close>

definition startable :: "process \<Rightarrow> bool" where
  "startable P \<longleftrightarrow> (case Load (Frac P) (Getenv P) of Inl _ \<Rightarrow> False | Inr cfg \<Rightarrow> accepts P cfg)"

lemma runHealthcheck_result:
  "\<exists>w2. runHealthcheck E P w = (Inr (if startable P \<and> answers_ping E (calls w) then 0 else 1), w2)
     \<and> db w2 = db w \<and> rd w2 = rd w"
proof (cases "Load (Frac P) (Getenv P)")
  case (Inl e)
  then show ?thesis by (simp add: runHealthcheck_def config_Load_def lift_sum_def bind_def result_of_def startable_def)
next
  case (Inr cfg)
  show ?thesis
    by (rule NewPool_cases [of P cfg E w])
       (auto simp: Inr runHealthcheck_def config_Load_def lift_sum_def bind_def result_of_def startable_def
         answers_ping_def redisclient_New_def pings)
qed

text \<open>The health endpoint answers 200 exactly if both services answer its pings and 503 otherwise,
  and it changes nothing; the probe of \<open>cmd/api\<close> against it exits with 0 in exactly that
  case. The probes of the worker and of the scheduler agree: each exits with 0 exactly if the configuration
  can be used and both services answer.\<close>

lemma health_exact:
  "\<exists>resp w1. Healthz E w = (Inr resp, w1) \<and> db w1 = db w \<and> rd w1 = rd w
     \<and> RpStatus resp = (if answers_ping E (calls w) then 200 else 503)
     \<and> fst (api_healthcheck P (\<lambda>_. bind (Healthz E) (\<lambda>resp. ret (Inr (RpStatus resp)))) w)
         = Inr (if answers_ping E (calls w) then 0 else 1)
     \<and> (\<exists>w2. runHealthcheck E P w = (Inr (if startable P \<and> answers_ping E (calls w) then 0 else 1), w2)
           \<and> db w2 = db w \<and> rd w2 = rd w) \<and> scheduler_runHealthcheck E P w = runHealthcheck E P w"
proof -
  obtain resp w1 where h: "Healthz E w = (Inr resp, w1)" "db w1 = db w" "rd w1 = rd w"
    "RpStatus resp = (if answers_ping E (calls w) then 200 else 503)"
    using Healthz_result [of E w] by blast
  have probe: "fst (api_healthcheck P (\<lambda>_. bind (Healthz E) (\<lambda>resp. ret (Inr (RpStatus resp)))) w)
      = Inr (if answers_ping E (calls w) then 0 else 1)"
    using h by (simp add: api_healthcheck_def bind_def)
  have "scheduler_runHealthcheck E P w = runHealthcheck E P w"
    by (simp add: scheduler_runHealthcheck_def runHealthcheck_def)
  with h probe runHealthcheck_result [of E P w] show ?thesis by blast
qed

section \<open>The worker program\<close>

lemma worker_init_cases:
  obtains (refused) e w' where "worker_init E P w = (Inl e, w')" "db w' = db w" "rd w' = rd w"
      "\<not> (startable P \<and> answers_ping E (calls w))"
  | (group) "startable P" "answers_ping E (calls w)"
      "worker_init E P w = bind (EnsureConsumerGroup E) (\<lambda>_. bind (uuid8 E) (\<lambda>u.
         ret (\<lparr>AllowPrivateIPs = allowPrivateIPs P\<rparr>, NewWorker (worker_hostname P @ ''-'' @ u)))) (tick (tick w))"
proof (cases "Load (Frac P) (Getenv P)")
  case (Inl e)
  then show ?thesis by (intro refused) (simp_all add: worker_init_def config_Load_def lift_sum_def startable_def)
next
  case (Inr cfg)
  note load = this
  show ?thesis
  proof (rule NewPool_cases [of P cfg E w])
    assume up: "accepts P cfg" "outcome E PgStmt (calls w) = Up" "NewPool E P cfg w = (Inr (), tick w)"
    then show ?thesis
      using group refused load
      by (cases "outcome E RedisRead (Suc (calls w)) = Up")
         (auto simp: worker_init_def config_Load_def lift_sum_def startable_def answers_ping_def redisclient_New_def pings)
  next
    fix e w'
    assume "NewPool E P cfg w = (Inl e, w')" "db w' = db w" "rd w' = rd w"
      "\<not> (accepts P cfg \<and> outcome E PgStmt (calls w) = Up)"
    then show ?thesis
      using load by (intro refused [of e w']) (auto simp: worker_init_def config_Load_def lift_sum_def startable_def answers_ping_def)
  qed
qed

lemma EnsureConsumerGroup_up:
  assumes "redis_ok (srv E)" and "all_up E"
  obtains w' where "EnsureConsumerGroup E w = (Inr (), w')"
proof -
  have up: "outcome E c n = Up" for c n using assms(2) by (simp add: all_up_def)
  have law: "XGROUP_CREATE (srv E) k g s = (case group_of k g s of
        None \<Rightarrow> (Inr (), set_group k g \<lparr>CgRead = 0, CgPel = []\<rparr> s)
      | Some c \<Rightarrow> (Inl (ReplyErr ''BUSYGROUP Consumer Group name already exists''), s))" for k g s
    using assms(1) by (simp add: redis_ok_def xgroup_law_def)
  have "\<exists>w'. EnsureConsumerGroup E w = (Inr (), w')"
    by (cases "group_of ReadyStream ConsumerGroup (rd w)")
       (simp_all add: EnsureConsumerGroup_def bind_def result_of_def lift_reply_def rcall_def up law has_prefix_def)
  then show ?thesis using that by blast
qed

lemma worker_Run_ends:
  assumes "\<exists>(f, t)\<in>set ts. TnCancelled t"
  shows "\<exists>e w'. worker_Run E cfg con ts w = (Inr (Some e), w') \<and> errors_Is e Canceled
     \<or> (\<exists>g. EnsureConsumerGroup E w = (Inl e, g)) \<and> worker_Run E cfg con ts w = (Inl e, w')"
proof -
  obtain r w1 where g: "EnsureConsumerGroup E w = (r, w1)" by fastforce
  show ?thesis
    using g worker_loop_ends [OF assms, of E cfg con w1] by (cases r) (auto simp: worker_Run_def)
qed

text \<open>C14.
  A worker process that is told to stop ends, whatever its calls did before. It exits with 1,
  having changed nothing, if its configuration is not usable or a service does not answer its
  ping; it exits with 0 if it can start and all calls are answered. No other code is
  possible.\<close>

theorem worker_program_ends:
  assumes "\<exists>(f, t)\<in>set ts. TnCancelled t" and "\<not> healthcheck_requested P"
  shows "\<exists>code w'. worker_main E P ts w = (Inr (Some code), w') \<and> code \<in> {0, 1}
     \<and> (\<not> (startable P \<and> answers_ping E (calls w)) \<longrightarrow> code = 1 \<and> db w' = db w \<and> rd w' = rd w)
     \<and> (startable P \<and> redis_ok (srv E) \<and> all_up E \<longrightarrow> code = 0)"
proof (rule worker_init_cases [of E P w])
  fix e w1
  assume "worker_init E P w = (Inl e, w1)" "db w1 = db w" "rd w1 = rd w" "\<not> (startable P \<and> answers_ping E (calls w))"
  then show ?thesis
    using assms(2) by (auto simp: worker_main_def worker_run_def bind_def result_of_def answers_ping_def all_up_def)
next
  assume g: "startable P" "answers_ping E (calls w)"
    and init: "worker_init E P w = bind (EnsureConsumerGroup E) (\<lambda>_. bind (uuid8 E) (\<lambda>u.
         ret (\<lparr>AllowPrivateIPs = allowPrivateIPs P\<rparr>, NewWorker (worker_hostname P @ ''-'' @ u)))) (tick (tick w))"
  obtain r w1 where en: "EnsureConsumerGroup E (tick (tick w)) = (r, w1)" by fastforce
  show ?thesis
  proof (cases r)
    case (Inl e)
    have "\<not> (redis_ok (srv E) \<and> all_up E)" using EnsureConsumerGroup_up [of E "tick (tick w)"] en Inl by auto
    then show ?thesis
      using Inl en init g assms(2) by (auto simp: worker_main_def worker_run_def bind_def result_of_def)
  next
    case (Inr u)
    let ?cfg = "\<lparr>AllowPrivateIPs = allowPrivateIPs P\<rparr>"
    let ?con = "NewWorker (worker_hostname P @ ''-'' @ take 8 (uuid_String E (uuid_at E (calls w1))))"
    have start: "worker_init E P w = (Inr (?cfg, ?con), tick w1)"
      using Inr en init by (simp add: uuid8_def uuid_New_def)
    obtain e w2 where "worker_Run E ?cfg ?con ts (tick w1) = (Inr (Some e), w2) \<and> errors_Is e Canceled
        \<or> (\<exists>g. EnsureConsumerGroup E (tick w1) = (Inl e, g)) \<and> worker_Run E ?cfg ?con ts (tick w1) = (Inl e, w2)"
      using worker_Run_ends [OF assms(1)] by blast
    then show ?thesis
      using start g assms(2) EnsureConsumerGroup_up [of E "tick w1"]
      by (auto simp: worker_main_def worker_run_def bind_def result_of_def exit_code_def)
  qed
qed

theorem worker_program_ends_witness:
  "\<exists>w'. worker_main demo_env demo_process [(id, demo_turn), (id, demo_turn\<lparr>TnCancelled := True\<rparr>)] demo_post = (Inr (Some 0), w')"
proof -
  let ?ts = "[(id, demo_turn), (id, demo_turn\<lparr>TnCancelled := True\<rparr>)]"
  have "startable demo_process" "\<not> healthcheck_requested demo_process" "redis_ok (srv demo_env)" "all_up demo_env"
    by (simp_all add: startable_def accepts_def demo_process_def demo_Load healthcheck_requested_def all_up_def demo_up)
       (simp add: demo_env_def mem_redis_ok)
  moreover have "\<exists>(f, t)\<in>set ?ts. TnCancelled t" by simp
  ultimately show ?thesis using worker_program_ends [of ?ts demo_process demo_env demo_post] by auto
qed

end
