(* ===== verification/Metrics.thy ===== *)
theory Metrics
  imports QueueSpec
begin

text \<open>
  \<open>internal/metrics\<close>: the Prometheus collector. A scrape reads three counters and the
  backlog; a read that fails is reported as an invalid metric and no sample is sent for it.
  The value of a sample is the integer that the code converts to \<open>float64\<close>.
\<close>

section \<open>The collector\<close>

record collector =
  jobsSubmitted :: string
  jobsCompleted :: string
  jobsFailed :: string
  queueDepth :: string

definition NewCollector :: collector where
  "NewCollector = \<lparr>jobsSubmitted = ''jobs_submitted_total'', jobsCompleted = ''jobs_completed_total'',
     jobsFailed = ''jobs_failed_total'', queueDepth = ''queue_depth''\<rparr>"

definition Describe :: "collector \<Rightarrow> string list" where
  "Describe c = [jobsSubmitted c, jobsCompleted c, jobsFailed c, queueDepth c]"

datatype value_type = CounterValue | GaugeValue

datatype metric = NewInvalidMetric (metric_desc: string) goerr
  | MustNewConstMetric (metric_desc: string) value_type int

text \<open>\<open>redis.Get(ctx, key).Int64()\<close>; the absent key, \<open>redis.Nil\<close>, counts as zero.\<close>

definition read_counter :: "env \<Rightarrow> string \<Rightarrow> int handler" where
  "read_counter E key =
     bind (rread E RedisRead (\<lambda>S. GET_COUNTER S key)) (\<lambda>v.
     case v of
       None \<Rightarrow> ret 0
     | Some s \<Rightarrow> (case ParseInt s of None \<Rightarrow> fail (Err ''strconv.ParseInt'') | Some n \<Rightarrow> ret n))"

definition invalid :: "string \<Rightarrow> string \<Rightarrow> goerr + int \<Rightarrow> metric list" where
  "invalid d msg r = (case r of Inl e \<Rightarrow> [NewInvalidMetric d (Wrap msg e)] | Inr _ \<Rightarrow> [])"

definition sample :: "string \<Rightarrow> value_type \<Rightarrow> goerr + int \<Rightarrow> metric list" where
  "sample d k r = (case r of Inl _ \<Rightarrow> [] | Inr v \<Rightarrow> [MustNewConstMetric d k v])"

text \<open>What \<open>Collect\<close> sends on its channel, in order: the failures as they occur, then the
  samples of the reads that succeeded.\<close>

definition emitted :: "collector \<Rightarrow> goerr + int \<Rightarrow> goerr + int \<Rightarrow> goerr + int \<Rightarrow> goerr + int \<Rightarrow> metric list" where
  "emitted c sub com fai dep =
     invalid (jobsSubmitted c) ''read submitted jobs metric'' sub
     @ invalid (jobsCompleted c) ''read completed jobs metric'' com
     @ invalid (jobsFailed c) ''read failed jobs metric'' fai
     @ invalid (queueDepth c) ''read queue depth'' dep
     @ sample (jobsSubmitted c) CounterValue sub
     @ sample (jobsCompleted c) CounterValue com
     @ sample (jobsFailed c) CounterValue fai
     @ sample (queueDepth c) GaugeValue dep"

definition Collect :: "env \<Rightarrow> collector \<Rightarrow> metric list handler" where
  "Collect E c =
     bind (result_of (read_counter E JobsSubmittedKey)) (\<lambda>submitted.
     bind (result_of (read_counter E JobsCompletedKey)) (\<lambda>completed.
     bind (result_of (read_counter E JobsFailedKey)) (\<lambda>failed.
     bind (result_of (QueueBacklog E)) (\<lambda>depth.
     ret (emitted c submitted completed failed depth)))))"

section \<open>What a scrape reports\<close>

definition counters_64 :: "redis \<Rightarrow> bool" where
  "counters_64 s \<longleftrightarrow> (\<forall>k. 0 \<le> Counters s k \<and> Counters s k < 2 ^ 63)"

lemma read_counter_result:
  assumes "redis_ok (srv E)" and "counters_64 (rd w)"
  shows "\<exists>r. read_counter E k w = (r, tick w) \<and> (\<forall>v. r = Inr v \<longrightarrow> v = Counters (rd w) k)
     \<and> (outcome E RedisRead (calls w) = Up \<longrightarrow> r = Inr (Counters (rd w) k))"
proof -
  have "GET_COUNTER (srv E) k (rd w) = (if Counters (rd w) k = 0 then None else Some (FormatInt (Counters (rd w) k)))"
    using assms(1) by (simp add: redis_ok_def incr_law_def)
  moreover have "ParseInt (FormatInt (Counters (rd w) k)) = Some (Counters (rd w) k)"
    using assms(2) by (intro ParseInt_FormatInt) (auto simp: counters_64_def intro: order_trans [of _ 0])
  ultimately show ?thesis
    by (cases "outcome E RedisRead (calls w)"; cases "Counters (rd w) k = 0")
       (auto simp: read_counter_def bind_def rread_def)
qed

lemma QueueBacklog_frame: "QueueBacklog E w = (r, w') \<Longrightarrow> db w' = db w \<and> rd w' = rd w"
  by (auto simp: QueueBacklog_def StreamBacklog_def fallbackLen_def bind_def result_of_def rread_def lift_reply_def
      split: fault.splits sum.splits option.splits)

lemma metric_desc_parts:
  "map metric_desc (invalid d msg r) = (case r of Inl _ \<Rightarrow> [d] | Inr _ \<Rightarrow> [])"
  "map metric_desc (sample d k r) = (case r of Inl _ \<Rightarrow> [] | Inr _ \<Rightarrow> [d])"
  by (simp_all add: invalid_def sample_def split: sum.split)

lemma sample_in: "MustNewConstMetric d k v \<in> set (sample d' k' r) \<longleftrightarrow> d = d' \<and> k = k' \<and> r = Inr v"
  by (auto simp: sample_def split: sum.split)

lemma not_invalid [simp]: "MustNewConstMetric d k v \<notin> set (invalid d' msg r)"
  by (auto simp: invalid_def split: sum.split)

lemma emitted_once:
  "distinct (map metric_desc (emitted NewCollector a b c d))
   \<and> set (map metric_desc (emitted NewCollector a b c d)) = set (Describe NewCollector)"
  by (cases a; cases b; cases c; cases d) (auto simp: emitted_def metric_desc_parts Describe_def NewCollector_def)

lemma emitted_values:
  "MustNewConstMetric ''jobs_submitted_total'' k v \<in> set (emitted NewCollector a b c d) \<Longrightarrow> a = Inr v"
  "MustNewConstMetric ''jobs_completed_total'' k v \<in> set (emitted NewCollector a b c d) \<Longrightarrow> b = Inr v"
  "MustNewConstMetric ''jobs_failed_total'' k v \<in> set (emitted NewCollector a b c d) \<Longrightarrow> c = Inr v"
  by (auto simp: emitted_def NewCollector_def sample_in)

text \<open>C16.
  A scrape answers with exactly one metric for each described name and changes nothing. A
  sample for a counter always is the counter's value, a counter whose read failed having no
  sample, so a failure never shows as a zero. When all reads are answered the four samples
  are the three counters and the number of outstanding entries of the ready stream.\<close>

theorem collect_exact:
  assumes "redis_ok (srv E)" and "counters_64 (rd w)"
  shows "\<exists>ms w'. Collect E NewCollector w = (Inr ms, w') \<and> db w' = db w \<and> rd w' = rd w
     \<and> distinct (map metric_desc ms) \<and> set (map metric_desc ms) = set (Describe NewCollector)
     \<and> (\<forall>k v. MustNewConstMetric ''jobs_submitted_total'' k v \<in> set ms \<longrightarrow> v = Counters (rd w) JobsSubmittedKey)
     \<and> (\<forall>k v. MustNewConstMetric ''jobs_completed_total'' k v \<in> set ms \<longrightarrow> v = Counters (rd w) JobsCompletedKey)
     \<and> (\<forall>k v. MustNewConstMetric ''jobs_failed_total'' k v \<in> set ms \<longrightarrow> v = Counters (rd w) JobsFailedKey)
     \<and> (all_up E \<and> stream_wf (rd w) \<and> pel_ok (rd w) \<longrightarrow>
          ms = [MustNewConstMetric ''jobs_submitted_total'' CounterValue (Counters (rd w) JobsSubmittedKey),
                MustNewConstMetric ''jobs_completed_total'' CounterValue (Counters (rd w) JobsCompletedKey),
                MustNewConstMetric ''jobs_failed_total'' CounterValue (Counters (rd w) JobsFailedKey),
                MustNewConstMetric ''queue_depth'' GaugeValue (int (card (live_entries (rd w))))])"
proof -
  let ?w3 = "tick (tick (tick w))"
  have s: "counters_64 (rd (tick w))" "counters_64 (rd (tick (tick w)))" using assms(2) by simp_all
  obtain a where a: "read_counter E JobsSubmittedKey w = (a, tick w)" "\<forall>v. a = Inr v \<longrightarrow> v = Counters (rd w) JobsSubmittedKey"
    "outcome E RedisRead (calls w) = Up \<longrightarrow> a = Inr (Counters (rd w) JobsSubmittedKey)"
    using read_counter_result [OF assms, of JobsSubmittedKey] by blast
  obtain b where b: "read_counter E JobsCompletedKey (tick w) = (b, tick (tick w))" "\<forall>v. b = Inr v \<longrightarrow> v = Counters (rd w) JobsCompletedKey"
    "outcome E RedisRead (Suc (calls w)) = Up \<longrightarrow> b = Inr (Counters (rd w) JobsCompletedKey)"
    using read_counter_result [OF assms(1) s(1), of JobsCompletedKey] by auto
  obtain c where c: "read_counter E JobsFailedKey (tick (tick w)) = (c, ?w3)" "\<forall>v. c = Inr v \<longrightarrow> v = Counters (rd w) JobsFailedKey"
    "outcome E RedisRead (Suc (Suc (calls w))) = Up \<longrightarrow> c = Inr (Counters (rd w) JobsFailedKey)"
    using read_counter_result [OF assms(1) s(2), of JobsFailedKey] by auto
  obtain d w' where d: "QueueBacklog E ?w3 = (d, w')" by fastforce
  have run: "Collect E NewCollector w = (Inr (emitted NewCollector a b c d), w')"
    by (simp add: Collect_def bind_def result_of_def a(1) b(1) c(1) d)
  have full: "emitted NewCollector a b c d =
     [MustNewConstMetric ''jobs_submitted_total'' CounterValue (Counters (rd w) JobsSubmittedKey),
      MustNewConstMetric ''jobs_completed_total'' CounterValue (Counters (rd w) JobsCompletedKey),
      MustNewConstMetric ''jobs_failed_total'' CounterValue (Counters (rd w) JobsFailedKey),
      MustNewConstMetric ''queue_depth'' GaugeValue (int (card (live_entries (rd w))))]"
    if "all_up E" "stream_wf (rd w)" "pel_ok (rd w)"
    using backlog_counts_outstanding [OF assms(1) that(1), of ?w3] that a(3) b(3) c(3) d
    by (simp add: all_up_def emitted_def NewCollector_def invalid_def sample_def)
  show ?thesis
    using run QueueBacklog_frame [OF d] emitted_once [of a b c d] full emitted_values [of _ _ a b c d] a(2) b(2) c(2)
    by (intro exI [of _ "emitted NewCollector a b c d"] exI [of _ w'] conjI allI impI) (simp, simp, simp, blast+)
qed

theorem collect_exact_witness:
  "\<exists>w'. Collect demo_env NewCollector (demo_world\<lparr>rd := demo_redis\<lparr>Counters := (\<lambda>_. 3)\<rparr>\<rparr>)
     = (Inr [MustNewConstMetric ''jobs_submitted_total'' CounterValue 3, MustNewConstMetric ''jobs_completed_total'' CounterValue 3,
          MustNewConstMetric ''jobs_failed_total'' CounterValue 3, MustNewConstMetric ''queue_depth'' GaugeValue 0], w')"
proof -
  let ?w = "demo_world\<lparr>rd := demo_redis\<lparr>Counters := (\<lambda>_. 3)\<rparr>\<rparr>"
  have "redis_ok (srv demo_env)" "all_up demo_env" by (simp_all add: demo_env_def mem_redis_ok all_up_def)
  moreover have "counters_64 (rd ?w)" by (simp add: counters_64_def)
  moreover have "group_of ReadyStream ConsumerGroup (rd ?w) = None" "Streams (rd ?w) ReadyStream = []"
    by (simp_all add: group_of_def demo_redis_def)
  then have "stream_wf (rd ?w)" "pel_ok (rd ?w)" "live_entries (rd ?w) = {}"
    by (simp_all add: stream_wf_def pel_ok_def live_entries_def)
  ultimately show ?thesis using collect_exact [of demo_env ?w] by auto
qed

end
