(* ===== verification/Middleware.thy ===== *)
theory Middleware
  imports API
begin

text \<open>
  \<open>internal/api/middleware.go\<close>: the status recorder, the access log and the recovery from
  panics, in the order in which \<open>Server\<close> composes them. A handler is seen here through what
  it does to its \<open>http.ResponseWriter\<close>: a sequence of operations that ends normally or in a
  panic. The writer of \<open>net/http\<close> is modelled with its rules: a final status is sent once, a
  later one is ignored, an informational status does not count, a body implies status 200.
\<close>

section \<open>The response writer of net/http\<close>

record writer =
  WrHeader :: "(string \<times> string) list"
  WrInfo :: "int list"
  WrStatus :: "int option"
  WrSent :: "(string \<times> string) list"
  WrBody :: string

definition fresh_writer :: writer where
  "fresh_writer = \<lparr>WrHeader = [], WrInfo = [], WrStatus = None, WrSent = [], WrBody = ''''\<rparr>"

definition Header_Set :: "string \<Rightarrow> string \<Rightarrow> writer \<Rightarrow> writer" where
  "Header_Set k v w = w\<lparr>WrHeader := al_upd k v (WrHeader w)\<rparr>"

text \<open>\<open>None\<close> is the panic on a status that is not a three-digit number.\<close>

definition raw_WriteHeader :: "int \<Rightarrow> writer \<Rightarrow> writer option" where
  "raw_WriteHeader st w =
     (if WrStatus w \<noteq> None then Some w
      else if st < 100 \<or> 999 < st then None
      else if st \<le> 199 \<and> st \<noteq> 101 then Some (w\<lparr>WrInfo := WrInfo w @ [st]\<rparr>)
      else Some (w\<lparr>WrStatus := Some st, WrSent := WrHeader w\<rparr>))"

definition bodyAllowed :: "int \<Rightarrow> bool" where
  "bodyAllowed st \<longleftrightarrow> \<not> (100 \<le> st \<and> st \<le> 199) \<and> st \<noteq> 204 \<and> st \<noteq> 304"

definition raw_Write :: "string \<Rightarrow> writer \<Rightarrow> writer option" where
  "raw_Write b w =
     (case raw_WriteHeader 200 w of
        None \<Rightarrow> None
      | Some w' \<Rightarrow> (case WrStatus w' of
            Some st \<Rightarrow> Some (if bodyAllowed st then w'\<lparr>WrBody := WrBody w' @ b\<rparr> else w')
          | None \<Rightarrow> Some w'))"

text \<open>What the client sees when the handler chain has returned.\<close>

definition client_status :: "writer \<Rightarrow> int" where
  "client_status w = (case WrStatus w of None \<Rightarrow> 200 | Some st \<Rightarrow> st)"

definition client_headers :: "writer \<Rightarrow> (string \<times> string) list" where
  "client_headers w = (case WrStatus w of None \<Rightarrow> WrHeader w | Some _ \<Rightarrow> WrSent w)"

section \<open>StatusWriter\<close>

record status_writer =
  SwInner :: writer
  SwStatus :: int
  SwWroteHeader :: bool

definition sw_WriteHeader :: "int \<Rightarrow> status_writer \<Rightarrow> status_writer \<times> bool" where
  "sw_WriteHeader st w =
     (if SwWroteHeader w then (w, False)
      else
        (let w' = w\<lparr>SwStatus := st, SwWroteHeader := True\<rparr> in
         case raw_WriteHeader st (SwInner w') of
           None \<Rightarrow> (w', True)
         | Some i \<Rightarrow> (w'\<lparr>SwInner := i\<rparr>, False)))"

definition sw_Write :: "string \<Rightarrow> status_writer \<Rightarrow> status_writer \<times> bool" where
  "sw_Write b w =
     (let (w', panicked) = (if SwWroteHeader w then (w, False) else sw_WriteHeader 200 w) in
      if panicked then (w', True)
      else case raw_Write b (SwInner w') of
          None \<Rightarrow> (w', True)
        | Some i \<Rightarrow> (w'\<lparr>SwInner := i\<rparr>, False))"

section \<open>Handlers as sequences of writer operations\<close>

datatype wop = SetHeader string string | WriteHeader int | Write string

text \<open>The operations of a run and whether it ends in a panic.\<close>

type_synonym behaviour = "wop list \<times> bool"

fun sw_op :: "wop \<Rightarrow> status_writer \<Rightarrow> status_writer \<times> bool" where
  "sw_op (SetHeader k v) w = (w\<lparr>SwInner := Header_Set k v (SwInner w)\<rparr>, False)"
| "sw_op (WriteHeader st) w = sw_WriteHeader st w"
| "sw_op (Write b) w = sw_Write b w"

fun sw_ops :: "wop list \<Rightarrow> status_writer \<Rightarrow> status_writer \<times> bool" where
  "sw_ops [] w = (w, False)"
| "sw_ops (x # xs) w = (case sw_op x w of (w', panicked) \<Rightarrow> if panicked then (w', True) else sw_ops xs w')"

definition sw_run :: "behaviour \<Rightarrow> status_writer \<Rightarrow> status_writer \<times> bool" where
  "sw_run b w = (case sw_ops (fst b) w of (w', panicked) \<Rightarrow> (w', panicked \<or> snd b))"

section \<open>Logging and Recovery\<close>

text \<open>The context of a request: the values under the package's own key types.\<close>

type_synonym ctx = "(string \<times> string) list"

definition RequestIDFromContext :: "ctx \<Rightarrow> string option" where
  "RequestIDFromContext ctx = map_of ctx ''request_id''"

definition RequestIDFromContextOrEmpty :: "ctx \<Rightarrow> string" where
  "RequestIDFromContextOrEmpty ctx = (case RequestIDFromContext ctx of None \<Rightarrow> '''' | Some i \<Rightarrow> i)"

record access_line =
  AlRequestID :: string
  AlMethod :: string
  AlPath :: string
  AlStatus :: int

text \<open>The result of a wrapped handler: the writer, whether it panicked, and what was logged.
  A panic unwinds \<open>Logging\<close> before it writes its line.\<close>

definition Logging ::
    "string \<Rightarrow> string \<Rightarrow> string \<Rightarrow> (ctx \<Rightarrow> behaviour) \<Rightarrow> ctx \<Rightarrow> writer \<Rightarrow> writer \<times> bool \<times> access_line list" where
  "Logging requestID method path nxt ctx w =
     (let sw = \<lparr>SwInner = Header_Set ''X-Request-ID'' requestID w, SwStatus = 0, SwWroteHeader = False\<rparr>;
          (sw', panicked) = sw_run (nxt ((''request_id'', requestID) # ctx)) sw;
          status = (if SwWroteHeader sw' then SwStatus sw' else 200) in
      (SwInner sw', panicked,
       if panicked then []
       else [\<lparr>AlRequestID = requestID, AlMethod = method, AlPath = path, AlStatus = status\<rparr>]))"

text \<open>\<open>WriteError\<close> on the writer itself; \<open>encode\<close> is the JSON encoder.\<close>

definition raw_WriteError :: "(body \<Rightarrow> string) \<Rightarrow> int \<Rightarrow> string \<Rightarrow> string \<Rightarrow> writer \<Rightarrow> writer" where
  "raw_WriteError encode st code msg w =
     (case raw_WriteHeader st (Header_Set ''Content-Type'' ''application/json'' w) of
        None \<Rightarrow> w
      | Some w' \<Rightarrow> (case raw_Write (encode (BError code msg)) w' of None \<Rightarrow> w' | Some w'' \<Rightarrow> w''))"

definition Recovery :: "(body \<Rightarrow> string) \<Rightarrow> writer \<times> bool \<times> access_line list \<Rightarrow> writer \<times> access_line list" where
  "Recovery encode r =
     (case r of (w, panicked, lines) \<Rightarrow>
        (if panicked then raw_WriteError encode 500 ''INTERNAL_SERVER_ERROR'' ''internal server error'' w else w, lines))"

text \<open>The chain that \<open>Server\<close> returns, on a new connection's writer.\<close>

definition chain ::
    "(body \<Rightarrow> string) \<Rightarrow> string \<Rightarrow> string \<Rightarrow> string \<Rightarrow> (ctx \<Rightarrow> behaviour) \<Rightarrow> writer \<times> access_line list" where
  "chain encode requestID method path h =
     Recovery encode (Logging requestID method path h [] fresh_writer)"

text \<open>How a handler of the model writes its response.\<close>

definition write_response :: "(body \<Rightarrow> string) \<Rightarrow> response \<Rightarrow> wop list" where
  "write_response encode resp =
     map (\<lambda>(k, v). SetHeader k v) (RpHeaders resp) @ [WriteHeader (RpStatus resp)]
     @ (if RpBody resp = BEmpty then [] else [Write (encode (RpBody resp))])"

section \<open>What the client sees is what is logged\<close>

text \<open>The status a sequence of operations commits to: that of the first header or body.\<close>

fun sent_status :: "wop list \<Rightarrow> int option" where
  "sent_status [] = None"
| "sent_status (SetHeader k v # xs) = sent_status xs"
| "sent_status (WriteHeader st # xs) = Some st"
| "sent_status (Write b # xs) = Some 200"

definition final_ops :: "wop list \<Rightarrow> bool" where
  "final_ops xs \<longleftrightarrow> (\<forall>x\<in>set xs. case x of
     SetHeader k v \<Rightarrow> k \<noteq> ''X-Request-ID'' | WriteHeader st \<Rightarrow> 200 \<le> st \<and> st \<le> 999 | Write b \<Rightarrow> True)"

text \<open>The recorder agrees with the writer below it, and both carry the request id.\<close>

definition in_step :: "string \<Rightarrow> int option \<Rightarrow> status_writer \<Rightarrow> bool" where
  "in_step rid st w \<longleftrightarrow> WrStatus (SwInner w) = st \<and> SwWroteHeader w = (st \<noteq> None)
     \<and> (st \<noteq> None \<longrightarrow> st = Some (SwStatus w))
     \<and> map_of (WrHeader (SwInner w)) ''X-Request-ID'' = Some rid
     \<and> (st \<noteq> None \<longrightarrow> map_of (WrSent (SwInner w)) ''X-Request-ID'' = Some rid)"

lemma in_step_WriteHeader:
  assumes "in_step rid st w" and "200 \<le> n" and "n \<le> 999"
  shows "\<exists>w'. sw_WriteHeader n w = (w', False) \<and> in_step rid (case st of None \<Rightarrow> Some n | Some s \<Rightarrow> Some s) w'"
  using assms by (auto simp: in_step_def sw_WriteHeader_def raw_WriteHeader_def Let_def split: option.split)

lemma in_step_body:
  assumes "in_step rid (Some s) w"
  shows "\<exists>w'. sw_Write b w = (w', False) \<and> in_step rid (Some s) w'"
  using assms by (auto simp: in_step_def sw_Write_def raw_Write_def raw_WriteHeader_def)

lemma in_step_op:
  assumes "in_step rid st w" and "final_ops [x]"
  shows "\<exists>w'. sw_op x w = (w', False) \<and> in_step rid (case st of None \<Rightarrow> sent_status [x] | Some s \<Rightarrow> Some s) w'"
proof (cases x)
  case (SetHeader k v)
  then show ?thesis using assms by (auto simp: in_step_def final_ops_def Header_Set_def split: option.split)
next
  case (WriteHeader n)
  then show ?thesis using in_step_WriteHeader [OF assms(1), of n] assms(2) by (cases st) (simp_all add: final_ops_def)
next
  case (Write b)
  show ?thesis
  proof (cases st)
    case None
    obtain w1 where w1: "sw_WriteHeader 200 w = (w1, False)" "in_step rid (Some 200) w1"
      using in_step_WriteHeader [OF assms(1), of 200] None by auto
    have "SwWroteHeader w1" "\<not> SwWroteHeader w" using w1(2) assms(1) None by (auto simp: in_step_def)
    then have "sw_Write b w = sw_Write b w1" using w1(1) by (simp add: sw_Write_def)
    then show ?thesis using in_step_body [OF w1(2)] Write None by simp
  next
    case (Some s)
    then show ?thesis using in_step_body [of rid s w b] assms(1) Write by simp
  qed
qed

lemma in_step_ops:
  assumes "in_step rid st w" and "final_ops xs"
  shows "\<exists>w'. sw_ops xs w = (w', False) \<and> in_step rid (case st of None \<Rightarrow> sent_status xs | Some s \<Rightarrow> Some s) w'"
  using assms
proof (induction xs arbitrary: st w)
  case Nil
  then show ?case by (cases st) simp_all
next
  case (Cons x xs)
  have x: "final_ops [x]" and xs: "final_ops xs" using Cons.prems(2) by (simp_all add: final_ops_def)
  obtain w1 where w1: "sw_op x w = (w1, False)" "in_step rid (case st of None \<Rightarrow> sent_status [x] | Some s \<Rightarrow> Some s) w1"
    using in_step_op [OF Cons.prems(1) x] by blast
  show ?case using Cons.IH [OF w1(2) xs] w1(1) by (cases x; cases st) simp_all
qed

text \<open>C15.
  The access log tells the truth and a panic never leaves a request unanswered. For every
  handler that sets final statuses, the client receives the status of its first header or
  body, 200 if it wrote nothing and 500 if it panicked before writing; the response carries
  the request id that the handler finds in its context; and a handler that returns leaves
  exactly one line with that id and the status the client received, one that panics none.\<close>

theorem logged_status_is_sent:
  assumes "h [(''request_id'', rid)] = (ops, panics)" and "final_ops ops"
  shows "\<exists>w lines. chain encode rid meth path h = (w, lines)
     \<and> client_status w = (case sent_status ops of Some st \<Rightarrow> st | None \<Rightarrow> if panics then 500 else 200)
     \<and> map_of (client_headers w) ''X-Request-ID'' = Some rid
     \<and> RequestIDFromContext [(''request_id'', rid)] = Some rid
     \<and> lines = (if panics then [] else
          [\<lparr>AlRequestID = rid, AlMethod = meth, AlPath = path, AlStatus = client_status w\<rparr>])"
proof -
  let ?sw = "\<lparr>SwInner = Header_Set ''X-Request-ID'' rid fresh_writer, SwStatus = 0, SwWroteHeader = False\<rparr>"
  have "in_step rid None ?sw" by (simp add: in_step_def Header_Set_def fresh_writer_def)
  then obtain sw where sw: "sw_ops ops ?sw = (sw, False)" "in_step rid (sent_status ops) sw"
    using in_step_ops [OF _ assms(2)] by fastforce
  have run: "sw_run (h [(''request_id'', rid)]) ?sw = (sw, panics)" using sw(1) assms(1) by (simp add: sw_run_def)
  show ?thesis
    using sw(2) run
    by (cases "sent_status ops"; cases panics)
       (auto simp: chain_def Recovery_def Logging_def in_step_def client_status_def client_headers_def
         raw_WriteError_def raw_WriteHeader_def raw_Write_def Header_Set_def RequestIDFromContext_def)
qed

lemma sent_status_response: "sent_status (write_response encode resp) = Some (RpStatus resp)"
proof -
  have "sent_status (map (\<lambda>(k, v). SetHeader k v) hs @ xs) = sent_status xs" for hs xs
    by (induction hs) auto
  then show ?thesis by (simp add: write_response_def)
qed

lemma final_ops_response:
  assumes "200 \<le> RpStatus resp" and "RpStatus resp \<le> 999" and "''X-Request-ID'' \<notin> fst ` set (RpHeaders resp)"
  shows "final_ops (write_response encode resp)"
  using assms by (auto simp: final_ops_def write_response_def image_iff)

theorem logged_status_is_sent_witness:
  "\<exists>w lines. chain (\<lambda>b. ''{}'') ''r1'' ''GET'' ''/v1/jobs'' (\<lambda>c. ([SetHeader ''Content-Type'' ''application/json''], True)) = (w, lines)
     \<and> client_status w = 500 \<and> lines = []"
  using logged_status_is_sent [of "\<lambda>c. ([SetHeader ''Content-Type'' ''application/json''], True)" "''r1''"
      "[SetHeader ''Content-Type'' ''application/json'']" True "\<lambda>b. ''{}''" "''GET''" "''/v1/jobs''"]
  by (simp add: final_ops_def) blast

end
