(* ===== verification/Sink.thy ===== *)
theory Sink
  imports Callbacks
begin

text \<open>
  \<open>cmd/callback\<close>: the callback sink that receives the POST requests of the workers in the
  compose set-up. It keeps the most recent deliveries in memory, newest first, and can be
  told to fail a number of deliveries first. The mutex makes each handler's access to the
  state one step.
\<close>

section \<open>fmt.Sscanf with the verb d\<close>

text \<open>Leading white space is skipped, but a newline ends the scan with an error; then an
  optional sign and at least one digit. Whatever follows the digits is left unread.\<close>

definition Sscanf_d :: "string \<Rightarrow> int option" where
  "Sscanf_d s =
     (let t = strip_runes (filter (\<lambda>p. p \<noteq> [CHR 0x0A]) space_runes) (length s) s;
          signed = has_prefix t ''-'' \<or> has_prefix t ''+'';
          digits = takeWhile (\<lambda>c. digit_val c \<noteq> None) (if signed then drop 1 t else t) in
      if digits = [] then None else ParseInt (if signed then take 1 t @ digits else digits))"

section \<open>State\<close>

record hit =
  HtTime :: time
  HtMethod :: string
  HtPath :: string
  HtJobID :: string
  HtAttempt :: string
  HtIdemKey :: string
  HtBody :: string
  HtBodyTrunc :: bool

record sink =
  SkHits :: "hit list"
  SkFailFirst :: int

definition maxSinkBody :: nat where "maxSinkBody = 1048576"
definition maxHits :: nat where "maxHits = 200"

definition sink_record :: "hit \<Rightarrow> sink \<Rightarrow> sink" where
  "sink_record h s =
     (let hits = [h] @ SkHits s in
      s\<lparr>SkHits := (if maxHits < length hits then take maxHits hits else hits)\<rparr>)"

definition snapshot :: "sink \<Rightarrow> hit list" where
  "snapshot s = SkHits s"

section \<open>Handlers\<close>

text \<open>A request body: the bytes that arrive, and whether reading fails after them.\<close>

record sink_request =
  SrBytes :: string
  SrFails :: bool
  SrRequest :: http_request
  SrPath :: string
  SrTime :: time

text \<open>\<open>io.ReadAll\<close> of a reader limited to \<open>n\<close> bytes.\<close>

definition io_ReadAll :: "nat \<Rightarrow> string \<Rightarrow> bool \<Rightarrow> string option" where
  "io_ReadAll n bytes fails = (if fails \<and> length bytes < n then None else Some (take n bytes))"

definition readBody :: "sink_request \<Rightarrow> (string \<times> bool) option" where
  "readBody r =
     (case io_ReadAll (maxSinkBody + 1) (SrBytes r) (SrFails r) of
        None \<Rightarrow> None
      | Some body \<Rightarrow>
          if maxSinkBody < length body then Some (take maxSinkBody body, True) else Some (body, False))"

definition header_Get :: "http_request \<Rightarrow> string \<Rightarrow> string" where
  "header_Get r k = (case map_of (RqHeaders r) k of None \<Rightarrow> '''' | Some v \<Rightarrow> v)"

datatype reply = SText int string | SHits "hit list" | SPage string

definition http_Error :: "string \<Rightarrow> int \<Rightarrow> reply" where
  "http_Error msg code = SText code (msg @ [CHR 0x0A])"

definition new_hit :: "sink_request \<Rightarrow> string \<Rightarrow> bool \<Rightarrow> hit" where
  "new_hit r body trunc =
     \<lparr>HtTime = SrTime r, HtMethod = RqMethod (SrRequest r), HtPath = SrPath r,
      HtJobID = header_Get (SrRequest r) ''X-Job-ID'', HtAttempt = header_Get (SrRequest r) ''X-Job-Attempt'',
      HtIdemKey = header_Get (SrRequest r) ''Idempotency-Key'', HtBody = body, HtBodyTrunc = trunc\<rparr>"

definition hook :: "sink_request \<Rightarrow> sink \<Rightarrow> reply \<times> sink" where
  "hook r s =
     (case readBody r of
        None \<Rightarrow> (http_Error ''cannot read body'' 400, s)
      | Some (body, trunc) \<Rightarrow>
          (let failing = (0 < SkFailFirst s);
               s1 = (if failing then s\<lparr>SkFailFirst := SkFailFirst s - 1\<rparr> else s);
               s2 = sink_record (new_hit r body trunc) s1 in
           if failing then (http_Error ''demo failure (SINK_FAIL_FIRST)'' 500, s2)
           else (SText 200 ''ok'', s2)))"

definition get_hits :: "sink \<Rightarrow> reply \<times> sink" where
  "get_hits s = (SHits (snapshot s), s)"

definition get_reset :: "sink \<Rightarrow> reply \<times> sink" where
  "get_reset s = (SText 200 ''ok'', s\<lparr>SkHits := []\<rparr>)"

section \<open>The page\<close>

fun EscapeString :: "string \<Rightarrow> string" where
  "EscapeString [] = []"
| "EscapeString (c # s) =
     (if c = CHR ''&'' then ''&amp;''
      else if c = CHR 0x27 then ''&#39;''
      else if c = CHR ''<'' then ''&lt;''
      else if c = CHR ''>'' then ''&gt;''
      else if c = CHR 0x22 then ''&#34;''
      else [c]) @ EscapeString s"

definition two_digits :: "int \<Rightarrow> string" where
  "two_digits n = (if n < 10 then CHR ''0'' # FormatInt n else FormatInt n)"

text \<open>\<open>Time.Format("15:04:05")\<close> of a UTC time.\<close>

definition clock_time :: "time \<Rightarrow> string" where
  "clock_time t =
     (let sec = t div 1000000000 in
      two_digits (sec div 3600 mod 24) @ '':'' @ two_digits (sec div 60 mod 60) @ '':'' @ two_digits (sec mod 60))"

definition page_item :: "hit \<Rightarrow> string" where
  "page_item h =
     ''<li><b>'' @ clock_time (HtTime h) @ ''</b> job=<b>'' @ EscapeString (HtJobID h)
     @ ''</b> attempt='' @ EscapeString (HtAttempt h) @ '' idem='' @ EscapeString (HtIdemKey h)
     @ ''<br>'' @ EscapeString (HtBody h)
     @ (if HtBodyTrunc h then [CHR 0xE2, CHR 0x80, CHR 0xA6] @ ''(truncated)'' else '''') @ ''</li>''"

definition page_head :: string where
  "page_head = ''<!doctype html><html><head><meta charset=\"utf-8\"><meta http-equiv=\"refresh\" content=\"5\">''
     @ ''<title>Callback sink</title><style>body{font-family:monospace;max-width:900px;margin:2em auto;padding:0 1em}''
     @ ''li{margin:.4em 0;border-bottom:1px solid #ddd;padding-bottom:.4em}</style></head><body>''
     @ ''<h1>Public callback sink</h1><p>POST jobs here as <code>/hook</code>. Auto-refreshes. Total: ''"

definition get_page :: "sink \<Rightarrow> reply \<times> sink" where
  "get_page s =
     (let hits = snapshot s in
      (SPage (page_head @ FormatInt (int (length hits)) @ ''</p><ol>'' @ concat (map page_item hits) @ ''</ol></body></html>''), s))"

section \<open>The program\<close>

definition new_sink :: "(string \<Rightarrow> string) \<Rightarrow> sink" where
  "new_sink Getenv =
     (let n = Getenv ''SINK_FAIL_FIRST'' in
      \<lparr>SkHits = [], SkFailFirst = (if n = '''' then 0 else case Sscanf_d n of None \<Rightarrow> 0 | Some k \<Rightarrow> k)\<rparr>)"

datatype sink_event = PostHook sink_request | GetHits | GetReset | GetPage

fun sink_handle :: "sink_event \<Rightarrow> sink \<Rightarrow> reply \<times> sink" where
  "sink_handle (PostHook r) s = hook r s"
| "sink_handle GetHits s = get_hits s"
| "sink_handle GetReset s = get_reset s"
| "sink_handle GetPage s = get_page s"

fun sink_run :: "sink_event list \<Rightarrow> sink \<Rightarrow> reply list \<times> sink" where
  "sink_run [] s = ([], s)"
| "sink_run (e # es) s =
     (case sink_handle e s of (r, s1) \<Rightarrow>
      case sink_run es s1 of (rs, s2) \<Rightarrow> (r # rs, s2))"

text \<open>The probe: \<open>get\<close> is the GET request to the local sink.\<close>

definition sink_healthcheck :: "(string \<Rightarrow> string) \<Rightarrow> (string \<Rightarrow> goerr + int) \<Rightarrow> int" where
  "sink_healthcheck Getenv get =
     (let port = (if Getenv ''PORT'' = '''' then ''8080'' else Getenv ''PORT'') in
      case get (''http://127.0.0.1:'' @ port @ ''/hits'') of
        Inl _ \<Rightarrow> 1
      | Inr st \<Rightarrow> if st \<noteq> 200 then 1 else 0)"

section \<open>The sink keeps the newest deliveries\<close>

text \<open>The specification: every delivery since the last reset, newest first, without a bound.\<close>

fun history :: "sink_event list \<Rightarrow> hit list \<Rightarrow> hit list" where
  "history [] hs = hs"
| "history (PostHook r # es) hs =
     history es (case readBody r of None \<Rightarrow> hs | Some (body, trunc) \<Rightarrow> new_hit r body trunc # hs)"
| "history (GetReset # es) hs = history es []"
| "history (e # es) hs = history es hs"

fun readable :: "sink_event \<Rightarrow> bool" where
  "readable (PostHook r) = (readBody r \<noteq> None)"
| "readable e = False"

text \<open>The statuses of the deliveries that could be read.\<close>

fun delivery_statuses :: "sink_event list \<Rightarrow> reply list \<Rightarrow> int list" where
  "delivery_statuses (e # es) (SText st m # rs) =
     (if readable e then st # delivery_statuses es rs else delivery_statuses es rs)"
| "delivery_statuses (e # es) (r # rs) = delivery_statuses es rs"
| "delivery_statuses _ _ = []"

lemma sink_record_take: "SkHits s = take maxHits hs \<Longrightarrow> SkHits (sink_record h s) = take maxHits (h # hs)"
  by (auto simp: sink_record_def Let_def maxHits_def take_Cons' min_def)

lemma sink_refines:
  assumes "sink_run es s = (rs, s')" and "SkHits s = take maxHits hs"
  shows "SkHits s' = take maxHits (history es hs)"
  using assms
proof (induction es arbitrary: s rs hs)
  case Nil
  then show ?case by simp
next
  case (Cons e es)
  obtain r s1 where h: "sink_handle e s = (r, s1)" by fastforce
  obtain rs1 where t: "sink_run es s1 = (rs1, s')"
    using Cons.prems(1) h by (auto split: prod.splits)
  show ?case
  proof (cases e)
    case (PostHook q)
    then have "SkHits s1 = take maxHits (case readBody q of None \<Rightarrow> hs | Some (body, trunc) \<Rightarrow> new_hit q body trunc # hs)"
      using h Cons.prems(2) sink_record_take
      by (auto simp: hook_def Let_def split: option.splits if_splits)
    then show ?thesis using Cons.IH [OF t] PostHook by simp
  qed (use Cons.IH [OF t] Cons.prems(2) h in \<open>auto simp: get_hits_def get_reset_def get_page_def Let_def\<close>)
qed

lemma history_bodies:
  assumes "h \<in> set (history es hs)" and "\<forall>h\<in>set hs. length (HtBody h) \<le> maxSinkBody"
  shows "length (HtBody h) \<le> maxSinkBody"
  using assms
proof (induction es hs rule: history.induct)
  case (2 r es hs)
  have "length body \<le> maxSinkBody" if "readBody r = Some (body, trunc)" for body trunc
    using that by (auto simp: readBody_def split: option.splits if_splits)
  then show ?case using 2 by (auto simp: new_hit_def split: option.splits)
qed auto

lemma hook_status:
  assumes "hook r s = (q, s1)" and "readBody r \<noteq> None"
  shows "SkFailFirst s1 = (if 0 < SkFailFirst s then SkFailFirst s - 1 else SkFailFirst s)
     \<and> (\<exists>m. q = SText (if 0 < SkFailFirst s then 500 else 200) m)"
  using assms by (auto simp: hook_def Let_def http_Error_def sink_record_def split: option.splits if_splits)

lemma fails_first:
  assumes "sink_run es s = (rs, s')"
  shows "delivery_statuses es rs =
    (let n = length (filter readable es); f = nat (SkFailFirst s) in replicate (min f n) 500 @ replicate (n - f) 200)"
  using assms
proof (induction es arbitrary: s rs)
  case Nil
  then show ?case by simp
next
  case (Cons e es)
  obtain q s1 where h: "sink_handle e s = (q, s1)" by fastforce
  obtain rs1 where t: "sink_run es s1 = (rs1, s')" and rs: "rs = q # rs1"
    using Cons.prems h by (auto split: prod.splits)
  note IH = Cons.IH [OF t]
  show ?case
  proof (cases "readable e")
    case True
    then obtain r where e: "e = PostHook r" "readBody r \<noteq> None" by (cases e) auto
    have "hook r s = (q, s1)" using h e by simp
    note st = hook_status [OF this e(2)]
    show ?thesis
      using st IH rs e True
      by (cases "0 < SkFailFirst s") (auto simp: Let_def min_def Suc_diff_le nat_diff_distrib' replicate_app_Cons_same
          simp flip: replicate_Suc split: if_splits)
  next
    case False
    then have "SkFailFirst s1 = SkFailFirst s"
      using h by (cases e) (auto simp: hook_def get_hits_def get_reset_def get_page_def Let_def split: option.splits)
    then show ?thesis using IH rs False by (cases q) simp_all
  qed
qed

text \<open>What the worker sends is recorded under the job's id, the attempt and the idempotency
  key of the delivery.\<close>

lemma executor_hit:
  assumes "SrRequest r = callback_request u p jid a" and "jid \<noteq> ''''"
  shows "HtJobID (new_hit r body trunc) = jid" "HtAttempt (new_hit r body trunc) = FormatInt a"
    "HtIdemKey (new_hit r body trunc) = jid @ '':'' @ FormatInt a"
  using assms by (simp_all add: new_hit_def header_Get_def callback_request_def)

text \<open>Text that users control cannot open a tag or leave an attribute of the page.\<close>

lemma EscapeString_safe: "set (EscapeString s) \<inter> {CHR ''<'', CHR ''>'', CHR 0x22, CHR 0x27} = {}"
  by (induction s) auto

text \<open>C18.
  The sink refines an unbounded log: after any sequence of requests it holds the 200 newest
  deliveries since the last reset, newest first, with bodies of at most 1 MiB each; and of
  the deliveries that could be read the first ones, as many as \<open>SINK_FAIL_FIRST\<close> says, were
  answered 500 and all others 200.\<close>

theorem sink_keeps_newest:
  assumes "sink_run es (new_sink Getenv) = (rs, s')"
  shows "SkHits s' = take 200 (history es []) \<and> length (SkHits s') \<le> 200
     \<and> (\<forall>h\<in>set (SkHits s'). length (HtBody h) \<le> 1048576)
     \<and> delivery_statuses es rs =
         (let n = length (filter readable es); f = nat (SkFailFirst (new_sink Getenv)) in
          replicate (min f n) 500 @ replicate (n - f) 200)"
proof -
  have hits: "SkHits s' = take 200 (history es [])"
    using sink_refines [OF assms, of "[]"] by (simp add: new_sink_def Let_def maxHits_def)
  moreover have "length (HtBody h) \<le> 1048576" if "h \<in> set (SkHits s')" for h
    using history_bodies [of h es "[]"] that hits by (auto simp: maxSinkBody_def dest: in_set_takeD)
  ultimately show ?thesis using fails_first [OF assms] by simp
qed

definition demo_delivery :: sink_request where
  "demo_delivery = \<lparr>SrBytes = ''1'', SrFails = False, SrRequest = callback_request ''u'' ''1'' ''7'' 1, SrPath = ''/hook'', SrTime = 0\<rparr>"

theorem sink_keeps_newest_witness:
  "\<exists>rs s'. sink_run [PostHook demo_delivery, PostHook demo_delivery, GetHits] (new_sink (\<lambda>k. ''1'')) = (rs, s')
     \<and> delivery_statuses [PostHook demo_delivery, PostHook demo_delivery, GetHits] rs = [500, 200] \<and> length (SkHits s') \<le> 200"
proof -
  let ?es = "[PostHook demo_delivery, PostHook demo_delivery, GetHits]"
  obtain rs s' where run: "sink_run ?es (new_sink (\<lambda>k. ''1'')) = (rs, s')" by fastforce
  have f: "nat (SkFailFirst (new_sink (\<lambda>k. ''1''))) = 1"
    by (simp add: new_sink_def Sscanf_d_def space_runes_def has_prefix_def ParseInt_def parse_unsigned_def digit_val_def)
  have n: "length (filter readable ?es) = 2"
    by (simp add: readBody_def io_ReadAll_def demo_delivery_def maxSinkBody_def)
  have "delivery_statuses ?es rs = [500, 200]" "length (SkHits s') \<le> 200"
    using sink_keeps_newest [OF run] unfolding f n by (simp_all add: Let_def numeral_2_eq_2)
  then show ?thesis using run by blast
qed

end
