(* ===== verification/Tools.thy ===== *)
theory Tools
  imports Sink
begin

text \<open>
  \<open>tools/stress\<close> and \<open>tools/loadtest\<close>: the two clients that put a deployed system under
  load and judge its answers. What they find around them is the record \<open>tool\<close>: environment
  variables, the clock, the JSON codec and the HTTP client. The goroutines of the stress tool
  take the operations from one channel in some order, each operation with the number of the
  goroutine that took it; the order is an input. Latency percentiles are not modelled.
\<close>

section \<open>What the tools use\<close>

record tool =
  TlGetenv :: "string \<Rightarrow> string"
  TlDo :: "nat \<Rightarrow> http_request \<Rightarrow> (goerr + int \<times> string) \<times> int"
  TlMarshal :: "json \<Rightarrow> string"
  TlStringField :: "string \<Rightarrow> string \<Rightarrow> string"
  TlNumberField :: "string \<Rightarrow> string \<Rightarrow> string"
  TlNow :: "nat \<Rightarrow> time"
  TlRFC3339 :: "time \<Rightarrow> string"
  TlRFC3339Nano :: "time \<Rightarrow> string"
  TlRunID :: string

definition baseURL :: string where "baseURL = ''http://localhost:4000''"

definition split_keys :: "string \<Rightarrow> string list" where
  "split_keys raw = filter (\<lambda>k. k \<noteq> '''') (map TrimSpace (Split raw (CHR '','')))"

text \<open>\<open>Inl\<close> is the exit code.\<close>

definition stress_loadKeys :: "tool \<Rightarrow> int + string list" where
  "stress_loadKeys T =
     (let raw = TlGetenv T ''STRESS_API_KEYS''; keys = split_keys raw in
      if raw = '''' then Inl 2 else if length keys < 2 then Inl 2 else Inr keys)"

definition envInt :: "tool \<Rightarrow> string \<Rightarrow> int \<Rightarrow> int" where
  "envInt T name def =
     (let v = TlGetenv T name in
      if v = '''' then def
      else case Sscanf_d v of Some n \<Rightarrow> if 0 < n then n else def | None \<Rightarrow> def)"

section \<open>The stress tool\<close>

text \<open>A call: the status (-1 if there is none), the body and the latency. The number of the
  call is the state that the clock and the server see.\<close>

definition callFrom ::
    "tool \<Rightarrow> string \<Rightarrow> string \<Rightarrow> string \<Rightarrow> string \<Rightarrow> json option \<Rightarrow> nat \<Rightarrow> (int \<times> string \<times> int) \<times> nat" where
  "callFrom T meth path key srcIP body n =
     (let req = \<lparr>RqMethod = meth, RqURL = baseURL @ path,
            RqPayload = (case body of None \<Rightarrow> '''' | Some b \<Rightarrow> TlMarshal T b),
            RqHeaders = (if key = '''' then [] else [(''Authorization'', ''Bearer '' @ key)])
              @ (if srcIP = '''' then [] else [(''X-Forwarded-For'', srcIP)])
              @ [(''Content-Type'', ''application/json'')]\<rparr>;
          (r, lat) = TlDo T n req in
      ((case r of Inl _ \<Rightarrow> (- 1, '''', lat) | Inr (st, b) \<Rightarrow> (st, b, lat)), Suc n))"

definition jobBody :: "tool \<Rightarrow> int \<Rightarrow> nat \<Rightarrow> (string \<times> json) list" where
  "jobBody T seq n =
     [(''type'', JStr ''stress''), (''payload'', JObj [(''seq'', JNum (FormatInt seq))]),
      (''run_at'', JStr (TlRFC3339 T (TlNow T n - 3600 * 1000000000))),
      (''max_attempts'', JNum ''2''),
      (''idempotency_key'', JStr (TlRunID T @ ''-stress-'' @ FormatInt seq)),
      (''callback_url'', JStr ''http://callback:8080/hook'')]"

text \<open>A call of \<open>record\<close>: the endpoint, the status wanted and got, the latency.\<close>

type_synonym verdict = "string \<times> int \<times> int \<times> int"

definition judged ::
    "string \<Rightarrow> int \<Rightarrow> (int \<times> string \<times> int) \<times> nat \<Rightarrow> (int \<Rightarrow> string \<Rightarrow> nat \<Rightarrow> verdict list \<times> nat) \<Rightarrow> verdict list \<times> nat" where
  "judged endpoint want r nxt =
     (case r of ((st, body, lat), n) \<Rightarrow>
      case nxt st body n of (vs, n') \<Rightarrow> ((endpoint, want, st, lat) # vs, n'))"

definition finish :: "int \<Rightarrow> string \<Rightarrow> nat \<Rightarrow> verdict list \<times> nat" where
  "finish st body n = ([], n)"

definition zero_uuid :: string where
  "zero_uuid = ''00000000-0000-0000-0000-000000000000''"

text \<open>One operation of goroutine \<open>w\<close>: what it calls and records, in order.\<close>

definition stress_op :: "tool \<Rightarrow> string \<Rightarrow> string \<Rightarrow> int \<Rightarrow> int \<Rightarrow> nat \<Rightarrow> verdict list \<times> nat" where
  "stress_op T key srcIP w seq n =
     (let kind = seq mod 14;
          body = jobBody T (seq * 100 + w) n;
          call = callFrom T;
          tag = (\<lambda>s. JStr (TlRunID T @ s @ FormatInt seq @ ''-'' @ FormatInt w));
          get = (\<lambda>name path k want. judged name want (call ''GET'' path k srcIP None n) finish) in
      if kind \<le> 2 then
        judged ''POST /v1/jobs'' 201 (call ''POST'' ''/v1/jobs'' key srcIP (Some (JObj body)) n) (\<lambda>st b n1.
          if st = 201 then judged ''GET /v1/jobs/{id}'' 200
            (call ''GET'' (''/v1/jobs/'' @ TlStringField T b ''id'') key srcIP None n1) finish
          else ([], n1))
      else if kind = 3 then
        judged ''POST /v1/jobs future'' 201
          (call ''POST'' ''/v1/jobs'' key srcIP (Some (JObj
             (al_upd ''idempotency_key'' (tag ''-stress-cancel-'')
               (al_upd ''run_at'' (JStr (TlRFC3339 T (TlNow T n + 24 * 3600 * 1000000000))) body)))) n) (\<lambda>st b n1.
          if st = 201 then judged ''DELETE /v1/jobs/{id}'' 204
            (call ''DELETE'' (''/v1/jobs/'' @ TlStringField T b ''id'') key srcIP None n1) finish
          else ([], n1))
      else if kind = 4 then get ''GET /v1/jobs'' ''/v1/jobs?limit=20'' key 200
      else if kind = 5 then get ''GET /v1/jobs filtered+capped'' ''/v1/jobs?status=done&limit=500'' key 200
      else if kind = 6 then
        judged ''POST /v1/jobs invalid'' 400 (call ''POST'' ''/v1/jobs'' key srcIP (Some (JObj [(''type'', JStr '''')])) n) finish
      else if kind = 7 then
        judged ''POST /v1/jobs ssrf'' 400
          (call ''POST'' ''/v1/jobs'' key srcIP (Some (JObj
             (al_upd ''callback_url'' (JStr ''http://169.254.169.254/hook'')
               (al_upd ''idempotency_key'' (tag ''-stress-ssrf-'') body)))) n) finish
      else if kind = 8 then get ''GET /v1/jobs no-auth'' ''/v1/jobs'' '''' 401
      else if kind = 9 then get ''GET /v1/jobs bad-key'' ''/v1/jobs'' ''bad-key'' 401
      else if kind = 10 then get ''GET /v1/jobs bad-id'' ''/v1/jobs/not-a-uuid'' key 400
      else if kind = 11 then get ''GET /v1/jobs missing'' (''/v1/jobs/'' @ zero_uuid) key 404
      else if kind = 12 then
        judged ''GET /v1/dead-letters'' 200 (call ''GET'' ''/v1/dead-letters?limit=10'' key srcIP None n) (\<lambda>_ _ n1.
          judged ''POST retry missing'' 404 (call ''POST'' (''/v1/jobs/'' @ zero_uuid @ ''/retry'') key srcIP None n1) finish)
      else
        judged ''POST /v1/cron-jobs'' 201
          (call ''POST'' ''/v1/cron-jobs'' key srcIP (Some (JObj
             [(''cron_expression'', JStr ''*/5 * * * *''),
              (''job_template'', JObj [(''type'', JStr ''stress-cron''), (''payload'', JObj [(''s'', JNum (FormatInt seq))]),
                (''max_attempts'', JNum ''1''), (''callback_url'', JStr ''http://callback:8080/hook'')])])) n) (\<lambda>st b n1.
          if st = 201 then judged ''PATCH /v1/cron-jobs'' 204
            (call ''PATCH'' (''/v1/cron-jobs/'' @ TlNumberField T b ''id'') key srcIP (Some (JObj [(''enabled'', JBool False)])) n1) finish
          else ([], n1)))"

record counters =
  CtOk :: int
  CtLimited :: int
  CtBad :: int

definition record_verdict :: "verdict \<Rightarrow> (string \<times> counters) list \<Rightarrow> (string \<times> counters) list" where
  "record_verdict v stats =
     (case v of (endpoint, want, got, lat) \<Rightarrow>
      let s = (case map_of stats endpoint of None \<Rightarrow> \<lparr>CtOk = 0, CtLimited = 0, CtBad = 0\<rparr> | Some s \<Rightarrow> s) in
      al_upd endpoint
        (if want = got then s\<lparr>CtOk := CtOk s + 1\<rparr>
         else if got = 429 then s\<lparr>CtLimited := CtLimited s + 1\<rparr>
         else s\<lparr>CtBad := CtBad s + 1\<rparr>) stats)"

fun stress_ops :: "tool \<Rightarrow> string list \<Rightarrow> (nat \<times> int) list \<Rightarrow> nat \<Rightarrow> verdict list" where
  "stress_ops T keys [] n = []"
| "stress_ops T keys ((w, seq) # sched) n =
     (case stress_op T (keys ! (w mod length keys)) (''203.0.113.'' @ FormatInt (int (w mod 250) + 1)) (int w) seq n of
        (vs, n') \<Rightarrow> vs @ stress_ops T keys sched n')"

definition totals :: "(string \<times> counters) list \<Rightarrow> int \<times> int \<times> int" where
  "totals stats = (sum_list (map (CtOk \<circ> snd) stats), sum_list (map (CtLimited \<circ> snd) stats), sum_list (map (CtBad \<circ> snd) stats))"

text \<open>The operations leave the channel in their order; \<open>who i\<close> is the goroutine that takes
  operation \<open>i\<close>.\<close>

definition stress_sched :: "tool \<Rightarrow> (nat \<Rightarrow> nat) \<Rightarrow> (nat \<times> int) list" where
  "stress_sched T who =
     (let totalOps = nat (envInt T ''STRESS_OPS'' 1000); workers = nat (envInt T ''STRESS_WORKERS'' 20) in
      map (\<lambda>i. (who i mod workers, int i)) [0..<totalOps])"

text \<open>The exit code and the totals that are printed.\<close>

definition stress_main :: "tool \<Rightarrow> (nat \<Rightarrow> nat) \<Rightarrow> int \<times> (int \<times> int \<times> int) option" where
  "stress_main T who =
     (case stress_loadKeys T of
        Inl code \<Rightarrow> (code, None)
      | Inr keys \<Rightarrow>
          (let t = totals (fold record_verdict (stress_ops T keys (stress_sched T who) 0) []) in
           (if 0 < snd (snd t) then 1 else 0, Some t)))"

section \<open>The load test\<close>

definition load_loadKeys :: "tool \<Rightarrow> int + string list" where
  "load_loadKeys T =
     (let raw = TlGetenv T ''LOADTEST_API_KEYS''; keys = split_keys raw in
      if raw = '''' then Inl 2 else if keys = [] then Inl 2 else Inr keys)"

record load_counts =
  LcSubmitted :: int
  LcSuccess :: int
  LcRateLimited :: int
  LcErrors :: int

text \<open>One request: a transport error, or the status of the response.\<close>

definition load_count :: "goerr + int \<Rightarrow> load_counts \<Rightarrow> load_counts" where
  "load_count r c =
     (let c = c\<lparr>LcSubmitted := LcSubmitted c + 1\<rparr> in
      case r of
        Inl _ \<Rightarrow> c\<lparr>LcErrors := LcErrors c + 1\<rparr>
      | Inr st \<Rightarrow>
          if st = 200 \<or> st = 201 then c\<lparr>LcSuccess := LcSuccess c + 1\<rparr>
          else if st = 429 then c\<lparr>LcRateLimited := LcRateLimited c + 1\<rparr>
          else c\<lparr>LcErrors := LcErrors c + 1\<rparr>)"

text \<open>Request \<open>i\<close>, sent with the key that the shared counter \<open>k\<close> selects.\<close>

definition load_request :: "tool \<Rightarrow> string list \<Rightarrow> nat \<Rightarrow> nat \<Rightarrow> http_request" where
  "load_request T keys i k =
     \<lparr>RqMethod = ''POST'', RqURL = baseURL @ ''/v1/jobs'',
      RqPayload = TlMarshal T (JObj
        [(''type'', JStr ''load-test-sustained''), (''payload'', JObj [(''seq'', JNum (FormatInt (int i)))]),
         (''run_at'', JStr (TlRFC3339Nano T (TlNow T i - 3600 * 1000000000))), (''max_attempts'', JNum ''1''),
         (''idempotency_key'', JStr (TlRunID T @ ''-load-sustained-'' @ FormatInt (int i))),
         (''callback_url'', JStr ''http://callback:8080/hook'')]),
      RqHeaders = [(''Authorization'', ''Bearer '' @ keys ! (k mod length keys)), (''Content-Type'', ''application/json'')]\<rparr>"

text \<open>The requests in the order in which their goroutines take a key.\<close>

fun load_run :: "tool \<Rightarrow> string list \<Rightarrow> nat \<Rightarrow> nat list \<Rightarrow> load_counts \<Rightarrow> load_counts" where
  "load_run T keys k [] c = c"
| "load_run T keys k (i # is) c =
     load_run T keys (Suc k) is (load_count (map_sum id fst (fst (TlDo T k (load_request T keys i k)))) c)"

text \<open>The loop starts requests until \<open>LOADTEST_TOTAL\<close> of them or the end of its context,
  after \<open>stop\<close> of them; the goroutine of request \<open>i\<close> takes its key at the moment \<open>rank i\<close>.\<close>

definition load_main :: "tool \<Rightarrow> nat \<Rightarrow> (nat \<Rightarrow> nat) \<Rightarrow> int \<times> load_counts option" where
  "load_main T stop rank =
     (case load_loadKeys T of
        Inl code \<Rightarrow> (code, None)
      | Inr keys \<Rightarrow>
          (let totalRequests = nat (envInt T ''LOADTEST_TOTAL'' 1200) in
           (0, Some (load_run T keys 0 (sort_key rank [0..<min stop totalRequests])
              \<lparr>LcSubmitted = 0, LcSuccess = 0, LcRateLimited = 0, LcErrors = 0\<rparr>))))"

section \<open>The verdicts add up\<close>

definition expected :: "verdict \<Rightarrow> bool" where
  "expected v \<longleftrightarrow> (case v of (endpoint, want, got, lat) \<Rightarrow> got = want \<or> got = 429)"

lemma al_upd_sum:
  assumes "distinct (map fst al)"
  shows "sum_list (map (f \<circ> snd) (al_upd k v al)) =
    sum_list (map (f \<circ> snd) al) - (case map_of al k of None \<Rightarrow> 0 | Some x \<Rightarrow> f x) + (f v :: int)"
proof -
  have "sum_list (map (f \<circ> snd) (al_del k al)) = sum_list (map (f \<circ> snd) al) - (case map_of al k of None \<Rightarrow> 0 | Some x \<Rightarrow> f x)"
    using assms
  proof (induction al)
    case (Cons p al)
    show ?case
    proof (cases "fst p = k")
      case True
      then have k: "k \<notin> fst ` set al" using Cons.prems by auto
      have "al_del k al = al" using k unfolding al_del_def by (intro filter_True) force
      moreover have "map_of al k = None" using k by (simp add: map_of_eq_None_iff)
      ultimately show ?thesis using True by (simp add: al_del_def)
    next
      case False
      then show ?thesis using Cons by (simp add: al_del_def)
    qed
  qed (simp add: al_del_def)
  then show ?thesis by (simp add: al_upd_def)
qed

lemma record_totals:
  assumes "distinct (map fst stats)" and "totals stats = (a, b, c)"
  shows "distinct (map fst (record_verdict v stats)) \<and> (\<exists>a' b' c'. totals (record_verdict v stats) = (a', b', c')
     \<and> a' + b' + c' = a + b + c + 1 \<and> c' = c + (if expected v then 0 else 1))"
proof -
  obtain e want got lat where v: "v = (e, want, got, lat)" by (cases v) auto
  show ?thesis
    using assms
    by (cases "map_of stats e")
       (auto simp: v record_verdict_def Let_def totals_def expected_def al_upd_sum distinct_al_upd)
qed

lemma fold_totals:
  assumes "distinct (map fst stats)" and "totals stats = (a, b, c)"
  shows "\<exists>a' b' c'. totals (fold record_verdict vs stats) = (a', b', c')
     \<and> a' + b' + c' = a + b + c + int (length vs) \<and> c' = c + int (length (filter (\<lambda>v. \<not> expected v) vs))"
  using assms
proof (induction vs arbitrary: stats a b c)
  case (Cons v vs)
  obtain a' b' c' where 1: "distinct (map fst (record_verdict v stats))" "totals (record_verdict v stats) = (a', b', c')"
    "a' + b' + c' = a + b + c + 1" "c' = c + (if expected v then 0 else 1)"
    using record_totals [OF Cons.prems] by blast
  show ?case using Cons.IH [OF 1(1,2)] 1(3,4) by auto
qed simp

lemma judged_nonempty: "fst (judged endpoint want r nxt) \<noteq> []"
  by (simp add: judged_def split: prod.split)

lemma stress_op_nonempty: "fst (stress_op T key ip w seq n) \<noteq> []"
  by (simp add: stress_op_def Let_def judged_nonempty)

lemma stress_ops_length: "length sched \<le> length (stress_ops T keys sched n)"
proof (induction T keys sched n rule: stress_ops.induct)
  case (2 T keys w seq sched n)
  obtain vs n' where op: "stress_op T (keys ! (w mod length keys))
      (''203.0.113.'' @ FormatInt (int (w mod 250) + 1)) (int w) seq n = (vs, n')"
    by (cases "stress_op T (keys ! (w mod length keys))
      (''203.0.113.'' @ FormatInt (int (w mod 250) + 1)) (int w) seq n")
  have "vs \<noteq> []" using stress_op_nonempty op by (metis fst_conv)
  then have "1 \<le> length vs" by (cases vs) simp_all
  then show ?case using "2.IH" [OF op [symmetric]] op by simp
qed simp

text \<open>C40.
  The stress tool's verdict is sound and complete: with two keys or more it exits with 0
  exactly if every answer it received was the expected status or 429, whichever goroutine
  takes which operation; its three totals count every answer once, and there is an answer
  for every operation. With fewer keys it exits with 2 and sends nothing.\<close>

theorem stress_verdict:
  "case stress_loadKeys T of
     Inl code \<Rightarrow> code = 2 \<and> stress_main T who = (2, None) \<and> length (split_keys (TlGetenv T ''STRESS_API_KEYS'')) < 2
   | Inr keys \<Rightarrow>
       (let vs = stress_ops T keys (stress_sched T who) 0 in
        \<exists>ok limited bad. stress_main T who = (if list_all expected vs then 0 else 1, Some (ok, limited, bad))
          \<and> ok + limited + bad = int (length vs) \<and> bad = int (length (filter (\<lambda>v. \<not> expected v) vs))
          \<and> envInt T ''STRESS_OPS'' 1000 \<le> int (length vs) \<and> 2 \<le> length keys)"
proof (cases "stress_loadKeys T")
  case (Inl code)
  have "split_keys [] = []" by (simp add: split_keys_def TrimSpace_def trim_left_def trim_right_def)
  then show ?thesis using Inl by (auto simp: stress_loadKeys_def stress_main_def Let_def split: if_splits)
next
  case (Inr keys)
  define vs where "vs = stress_ops T keys (stress_sched T who) 0"
  obtain a b c where t: "totals (fold record_verdict vs []) = (a, b, c)" "a + b + c = int (length vs)"
    "c = int (length (filter (\<lambda>v. \<not> expected v) vs))"
    using fold_totals [of "[]" 0 0 0 vs] by (auto simp: totals_def)
  have "(0 < c) = (\<not> list_all expected vs)"
    unfolding t(3) by (simp add: list_all_iff filter_empty_conv)
  then have "stress_main T who = (if list_all expected vs then 0 else 1, Some (a, b, c))"
    using Inr t(1) by (simp add: stress_main_def Let_def flip: vs_def)
  moreover have "2 \<le> length keys" using Inr by (auto simp: stress_loadKeys_def Let_def split: if_splits)
  moreover have "envInt T ''STRESS_OPS'' 1000 \<le> int (length vs)"
    using stress_ops_length [of "stress_sched T who" T keys 0] by (simp add: stress_sched_def Let_def vs_def)
  ultimately show ?thesis using Inr t by (simp add: Let_def flip: vs_def)
qed

lemma load_run_counts:
  "LcSuccess c + LcRateLimited c + LcErrors c = LcSubmitted c \<Longrightarrow>
   let c' = load_run T keys k order c in LcSuccess c' + LcRateLimited c' + LcErrors c' = LcSubmitted c'
     \<and> LcSubmitted c' = LcSubmitted c + int (length order)"
proof (induction order arbitrary: k c)
  case (Cons i "is")
  let ?c = "load_count (map_sum id fst (fst (TlDo T k (load_request T keys i k)))) c"
  have "LcSuccess ?c + LcRateLimited ?c + LcErrors ?c = LcSubmitted ?c \<and> LcSubmitted ?c = LcSubmitted c + 1"
    using Cons.prems by (auto simp: load_count_def Let_def split: sum.split)
  then show ?case using Cons.IH [of ?c "Suc k"] by (simp add: Let_def)
qed (simp add: Let_def)

lemma load_counts_add_up:
  "load_main T stop rank = (0, Some c) \<Longrightarrow>
   LcSuccess c + LcRateLimited c + LcErrors c = LcSubmitted c
   \<and> LcSubmitted c = min (int stop) (int (nat (envInt T ''LOADTEST_TOTAL'' 1200)))"
  using load_run_counts [of "\<lparr>LcSubmitted = 0, LcSuccess = 0, LcRateLimited = 0, LcErrors = 0\<rparr>" T _ 0]
  by (auto simp: load_main_def Let_def split: sum.splits)

end
