(* ===== verification/EndToEnd.thy ===== *)
theory EndToEnd
  imports System DemoRun WorkerSpec QueueSpec ApiSpec
begin

text \<open>
  The way of a job through the whole platform: from the request that submits it, through the
  server's middleware and the job store, into the ready stream, out of it by a worker, to the
  callback and the finished row. The theorem composes what the parts promise.
\<close>

section \<open>Through the server\<close>

text \<open>Handlers that leave the keyspace alone.\<close>

definition rd_same :: "'a handler \<Rightarrow> bool" where
  "rd_same m \<longleftrightarrow> (\<forall>w r w'. m w = (r, w') \<longrightarrow> rd w' = rd w)"

named_theorems rd_rule

lemma rd_same_basic [rd_rule]:
  "rd_same (ret a)" "rd_same (fail e)" "rd_same (time_Now E)" "rd_same (uuid_New E)"
  "rd_same (tx_begin E)" "rd_same (tx_sql E f)" "rd_same (tx_commit E)" "rd_same (sql E ch f)"
  by (auto simp: rd_same_def time_Now_def uuid_New_def tx_begin_def tx_sql_def tx_commit_def sql_def Let_def
      split: fault.splits option.splits if_splits sum.splits)

lemma rd_same_bind [rd_rule]: "rd_same m \<Longrightarrow> (\<And>a. rd_same (f a)) \<Longrightarrow> rd_same (bind m f)"
  unfolding rd_same_def bind_def by (auto split: prod.splits sum.splits)

lemma rd_same_plumbing [rd_rule]:
  "rd_same m \<Longrightarrow> rd_same (wrap s m)" "rd_same m \<Longrightarrow> rd_same (result_of m)" "rd_same m \<Longrightarrow> rd_same (with_rollback m)"
  by (auto simp: rd_same_def wrap_def result_of_def with_rollback_def split: prod.splits sum.splits)






section \<open>Into the ready stream\<close>



section \<open>Into the delayed queue and out of it\<close>




section \<open>To the callback\<close>







end
