(* ===== verification/Router.thy ===== *)
theory Router
  imports Boot Metrics ApiSpec "HOL-Library.Char_ord" "HOL-Library.List_Lexorder"
begin

text \<open>
  \<open>cmd/api/router.go\<close>: which handler answers which request. The matching of \<open>http.ServeMux\<close> is
  modelled from the standard library (cleaning of paths, one method and one pattern per route,
  HEAD for GET, 404 and 405); no host patterns and no patterns with a trailing slash are used. The
  embedded files and the exposition of metrics are parameters, as is the redirect
  to a cleaned path, whose status depends on the version of the library.
\<close>

section \<open>Paths\<close>

definition hex_val :: "char \<Rightarrow> nat option" where
  "hex_val c =
     (let n = of_char c :: nat in
      if 48 \<le> n \<and> n \<le> 57 then Some (n - 48)
      else if 97 \<le> n \<and> n \<le> 102 then Some (n - 87)
      else if 65 \<le> n \<and> n \<le> 70 then Some (n - 55)
      else None)"

fun PathUnescape :: "string \<Rightarrow> string option" where
  "PathUnescape [] = Some []"
| "PathUnescape (c # s) =
     (if c = CHR ''%'' then
        (case s of
           a # b # s' \<Rightarrow>
             (case (hex_val a, hex_val b) of
                (Some x, Some y) \<Rightarrow> map_option (Cons (char_of (16 * x + y))) (PathUnescape s')
              | _ \<Rightarrow> None)
         | _ \<Rightarrow> None)
      else map_option (Cons c) (PathUnescape s))"

text \<open>An ill-formed segment is left as it is.\<close>

definition pathUnescape :: "string \<Rightarrow> string" where
  "pathUnescape s = (case PathUnescape s of None \<Rightarrow> s | Some t \<Rightarrow> t)"

fun clean_segs :: "string list \<Rightarrow> string list \<Rightarrow> string list" where
  "clean_segs acc [] = rev acc"
| "clean_segs acc (x # xs) =
     (if x = [] \<or> x = ''.'' then clean_segs acc xs
      else if x = ''..'' then clean_segs (tl acc) xs
      else clean_segs (x # acc) xs)"

definition join_path :: "string list \<Rightarrow> string" where
  "join_path segs = concat (map (\<lambda>s. CHR ''/'' # s) segs)"

definition cleanPath :: "string \<Rightarrow> string" where
  "cleanPath p =
     (let p = (if p = [] \<or> hd p \<noteq> CHR ''/'' then CHR ''/'' # p else p);
          np = join_path (clean_segs [] (Split (tl p) (CHR ''/'')));
          np = (if np = [] then ''/'' else np) in
      if last p = CHR ''/'' \<and> np \<noteq> ''/'' then np @ ''/'' else np)"

definition firstSegment :: "string \<Rightarrow> string \<times> string" where
  "firstSegment path =
     (if path = ''/'' then (''/'', [])
      else (pathUnescape (takeWhile (\<lambda>c. c \<noteq> CHR ''/'') (tl path)), dropWhile (\<lambda>c. c \<noteq> CHR ''/'') (tl path)))"

section \<open>Patterns\<close>

datatype seg = Lit string | Wild

text \<open>The values of the wildcards, if the path matches.\<close>

fun matchPath :: "seg list \<Rightarrow> string \<Rightarrow> string list option" where
  "matchPath [] path = (if path = [] then Some [] else None)"
| "matchPath (g # gs) path =
     (if path = [] then None
      else case firstSegment path of (x, rest) \<Rightarrow>
        (case g of
           Lit s \<Rightarrow> if x = s then matchPath gs rest else None
         | Wild \<Rightarrow> if x = ''/'' then None else map_option (Cons x) (matchPath gs rest)))"

record web_request =
  WqMethod :: string
  WqPath :: string
  WqIn :: http_in
  WqQuery :: "string \<Rightarrow> string"
  WqJob :: "create_input decode"
  WqCron :: "create_cron_request decode"
  WqEnabled :: "bool option decode"

datatype page = PgHealth | PgMetrics | PgRoute route | PgOpenAPI | PgDocs | PgDashboard

text \<open>The patterns in the order in which \<open>Server\<close> registers them; the values of the wildcards
  are the arguments of the handler.\<close>

definition muxTable :: "(string \<times> seg list \<times> (web_request \<Rightarrow> string list \<Rightarrow> page)) list" where
  "muxTable =
     [(''GET'', [Lit ''healthz''], \<lambda>q v. PgHealth),
      (''GET'', [Lit ''metrics''], \<lambda>q v. PgMetrics),
      (''POST'', [Lit ''v1'', Lit ''jobs''], \<lambda>q v. PgRoute (PostJobs (WqJob q))),
      (''GET'', [Lit ''v1'', Lit ''jobs'', Wild], \<lambda>q v. PgRoute (GetJobRoute (hd v))),
      (''GET'', [Lit ''v1'', Lit ''jobs''],
         \<lambda>q v. PgRoute (ListJobsRoute (WqQuery q ''status'') (WqQuery q ''limit'') (WqQuery q ''offset''))),
      (''DELETE'', [Lit ''v1'', Lit ''jobs'', Wild], \<lambda>q v. PgRoute (DeleteJobRoute (hd v))),
      (''GET'', [Lit ''v1'', Lit ''dead-letters''],
         \<lambda>q v. PgRoute (DeadLettersRoute (WqQuery q ''limit'') (WqQuery q ''offset''))),
      (''POST'', [Lit ''v1'', Lit ''jobs'', Wild, Lit ''retry''], \<lambda>q v. PgRoute (RetryRoute (hd v))),
      (''POST'', [Lit ''v1'', Lit ''cron-jobs''], \<lambda>q v. PgRoute (PostCron (WqCron q))),
      (''PATCH'', [Lit ''v1'', Lit ''cron-jobs'', Wild], \<lambda>q v. PgRoute (PatchCron (hd v) (WqEnabled q))),
      (''GET'', [Lit ''openapi.yaml''], \<lambda>q v. PgOpenAPI),
      (''GET'', [Lit ''docs''], \<lambda>q v. PgDocs),
      (''GET'', [Lit ''dashboard''], \<lambda>q v. PgDashboard)]"

section \<open>Routing\<close>

datatype found = Found page | Redirect string | NotAllowed "string list" | NotFound

text \<open>A pattern answers its own method, and GET also answers HEAD.\<close>

definition answers_method :: "string \<Rightarrow> string \<Rightarrow> bool" where
  "answers_method pattern meth \<longleftrightarrow> meth = pattern \<or> (meth = ''HEAD'' \<and> pattern = ''GET'')"

definition matchingMethods :: "string \<Rightarrow> string list" where
  "matchingMethods path =
     (let ms = map fst (filter (\<lambda>(_, gs, _). matchPath gs path \<noteq> None) muxTable) in
      sort (remdups (if ''GET'' \<in> set ms then ''HEAD'' # ms else ms)))"

definition mux :: "web_request \<Rightarrow> found" where
  "mux q =
     (let path = (if WqMethod q = ''CONNECT'' then WqPath q else cleanPath (WqPath q)) in
      if path \<noteq> WqPath q then Redirect path
      else case find (\<lambda>(m, gs, _). answers_method m (WqMethod q) \<and> matchPath gs path \<noteq> None) muxTable of
          Some (_, gs, h) \<Rightarrow> Found (h q (the (matchPath gs path)))
        | None \<Rightarrow> if matchingMethods path \<noteq> [] then NotAllowed (matchingMethods path) else NotFound)"

record site =
  openAPISpec :: string
  swaggerUI :: "string option"
  dashboardHTML :: string
  promhttp :: "metric list \<Rightarrow> response"
  redirectTo :: "string \<Rightarrow> response"

fun strings_Join :: "string list \<Rightarrow> string \<Rightarrow> string" where
  "strings_Join [] sep = []"
| "strings_Join [x] sep = x"
| "strings_Join (x # xs) sep = x @ sep @ strings_Join xs sep"

text \<open>\<open>http.Error\<close>.\<close>

definition http_Error :: "string \<Rightarrow> int \<Rightarrow> response" where
  "http_Error msg code = \<lparr>RpStatus = code, RpHeaders = [(''Content-Type'', ''text/plain; charset=utf-8''),
     (''X-Content-Type-Options'', ''nosniff'')], RpBody = BText (msg @ [CHR 0x0A])\<rparr>"

definition serve_page :: "env \<Rightarrow> site \<Rightarrow> bool \<Rightarrow> limiter \<Rightarrow> http_in \<Rightarrow> page \<Rightarrow> response handler" where
  "serve_page E S allowPrivate lm r pg =
     (let file = (\<lambda>t c. ret \<lparr>RpStatus = 200, RpHeaders = [(''Content-Type'', t)], RpBody = BText c\<rparr>) in
      case pg of
        PgHealth \<Rightarrow> Healthz E
      | PgMetrics \<Rightarrow> bind (Collect E NewCollector) (\<lambda>ms. ret (promhttp S ms))
      | PgRoute rt \<Rightarrow> APIKeyAuth E r (\<lambda>keyID. RateLimit E lm (Some keyID) (handle_route E allowPrivate rt))
      | PgOpenAPI \<Rightarrow> file ''application/yaml'' (openAPISpec S)
      | PgDocs \<Rightarrow> (case swaggerUI S of
            None \<Rightarrow> ret (http_Error ''Template error'' 500)
          | Some html \<Rightarrow> file ''text/html; charset=utf-8'' html)
      | PgDashboard \<Rightarrow> file ''text/html; charset=utf-8'' (dashboardHTML S))"

definition ServeHTTP :: "env \<Rightarrow> site \<Rightarrow> bool \<Rightarrow> limiter \<Rightarrow> web_request \<Rightarrow> response handler" where
  "ServeHTTP E S allowPrivate lm q =
     (case mux q of
        Found pg \<Rightarrow> serve_page E S allowPrivate lm (WqIn q) pg
      | Redirect u \<Rightarrow> ret (redirectTo S u)
      | NotAllowed ms \<Rightarrow>
          ret (let e = http_Error ''Method Not Allowed'' 405 in
            e\<lparr>RpHeaders := (''Allow'', strings_Join ms '', '') # RpHeaders e\<rparr>)
      | NotFound \<Rightarrow> ret (http_Error ''404 page not found'' 404))"

text \<open>The handler that \<open>Server\<close> returns, without its two outermost wrappers, which are in theory
  \<open>Middleware\<close>.\<close>

definition web_server :: "env \<Rightarrow> site \<Rightarrow> bool \<Rightarrow> limiter \<Rightarrow> limiter option \<Rightarrow> web_request \<Rightarrow> response handler" where
  "web_server E S allowPrivate lm ipLimiter q = IPRateLimit E ipLimiter (WqIn q) (ServeHTTP E S allowPrivate lm q)"

section \<open>One pattern per request\<close>

text \<open>Two patterns can match the same path only if they have equally many segments and their
  literals agree.\<close>

fun compatible :: "seg list \<Rightarrow> seg list \<Rightarrow> bool" where
  "compatible [] [] = True"
| "compatible (Lit a # gs) (Lit b # hs) = (a = b \<and> compatible gs hs)"
| "compatible (_ # gs) (_ # hs) = compatible gs hs"
| "compatible _ _ = False"

lemma match_compatible: "matchPath gs p \<noteq> None \<Longrightarrow> matchPath hs p \<noteq> None \<Longrightarrow> compatible gs hs"
proof (induction gs arbitrary: hs p)
  case Nil
  then show ?case by (cases hs) (auto split: if_splits)
next
  case (Cons g gs)
  show ?case
  proof (cases hs)
    case Nil
    then show ?thesis using Cons.prems by (auto split: if_splits)
  next
    case h: (Cons h hs')
    have "compatible gs hs'" using Cons h by (cases g; cases h) (auto split: if_splits prod.splits)
    then show ?thesis using Cons.prems h by (cases g; cases h) (auto split: if_splits prod.splits)
  qed
qed

definition method_of :: "nat \<Rightarrow> string" where "method_of n = fst (muxTable ! n)"
definition pattern_of :: "nat \<Rightarrow> seg list" where "pattern_of n = fst (snd (muxTable ! n))"

lemma patterns_disjoint:
  "\<forall>a\<in>set [0..<13]. \<forall>b\<in>set [0..<13]. method_of a = method_of b \<longrightarrow> compatible (pattern_of a) (pattern_of b) \<longrightarrow> a = b"
  by code_simp

lemma one_pattern:
  assumes "a < length muxTable" and "b < length muxTable"
    and "answers_method (method_of a) meth" and "answers_method (method_of b) meth"
    and "matchPath (pattern_of a) p \<noteq> None" and "matchPath (pattern_of b) p \<noteq> None"
  shows "a = b"
proof -
  have "\<forall>n\<in>set [0..<13]. method_of n \<noteq> ''HEAD''" by code_simp
  then have "method_of a = method_of b"
    using assms(1-4) by (auto simp: answers_method_def muxTable_def)
  then show ?thesis
    using patterns_disjoint match_compatible [OF assms(5,6)] assms(1,2) by (simp add: muxTable_def)
qed

section \<open>Plain paths\<close>

definition plain :: "string \<Rightarrow> bool" where
  "plain x \<longleftrightarrow> x \<noteq> [] \<and> x \<noteq> ''.'' \<and> x \<noteq> ''..'' \<and> CHR ''/'' \<notin> set x \<and> CHR ''%'' \<notin> set x"

lemma PathUnescape_plain: "CHR ''%'' \<notin> set s \<Longrightarrow> PathUnescape s = Some s"
  by (induction s) auto

lemma Split_plain: "CHR ''/'' \<notin> set x \<Longrightarrow> Split x (CHR ''/'') = [x]"
  by (induction x) auto

lemma Split_join: "CHR ''/'' \<notin> set x \<Longrightarrow> Split (x @ CHR ''/'' # s) (CHR ''/'') = x # Split s (CHR ''/'')"
  by (induction x) auto

lemma Split_path:
  "\<forall>x\<in>set xs. CHR ''/'' \<notin> set x \<Longrightarrow> xs \<noteq> [] \<Longrightarrow> Split (tl (join_path xs)) (CHR ''/'') = xs"
proof (induction xs)
  case (Cons x xs)
  show ?case
  proof (cases xs)
    case Nil
    then show ?thesis using Cons.prems by (simp add: join_path_def Split_plain)
  next
    case (Cons y ys)
    then have "tl (join_path (x # xs)) = x @ CHR ''/'' # tl (join_path xs)" by (simp add: join_path_def)
    then show ?thesis using Cons Cons.IH Cons.prems by (simp add: Split_join)
  qed
qed simp

lemma clean_segs_plain: "\<forall>x\<in>set xs. plain x \<Longrightarrow> clean_segs acc xs = rev acc @ xs"
  by (induction xs arbitrary: acc) (auto simp: plain_def)

lemma join_path_last: "plain x \<Longrightarrow> last (join_path (xs @ [x])) = last x"
  by (auto simp: join_path_def plain_def last_append)

lemma cleanPath_plain:
  assumes "\<forall>x\<in>set xs. plain x" and "xs \<noteq> []"
  shows "cleanPath (join_path xs) = join_path xs"
proof -
  obtain ys y where xs: "xs = ys @ [y]" using assms(2) by (cases xs rule: rev_cases) auto
  have y: "y \<noteq> []" "CHR ''/'' \<notin> set y" using assms(1) by (auto simp: xs plain_def)
  have "last (join_path xs) \<noteq> CHR ''/''"
  proof -
    have "last (join_path xs) = last y" using assms(1) unfolding xs by (intro join_path_last) simp
    then show ?thesis using last_in_set [OF y(1)] y(2) by metis
  qed
  moreover have "join_path xs \<noteq> []" "hd (join_path xs) = CHR ''/''" using assms(2) by (cases xs; simp add: join_path_def)+
  moreover have "Split (tl (join_path xs)) (CHR ''/'') = xs"
    by (rule Split_path) (use assms in \<open>auto simp: plain_def\<close>)
  ultimately show ?thesis
    using clean_segs_plain [OF assms(1), of "[]"] by (auto simp: cleanPath_def Let_def)
qed

lemma firstSegment_plain:
  assumes "plain x"
  shows "firstSegment (CHR ''/'' # x @ join_path xs) = (x, join_path xs)"
proof -
  have x: "\<forall>c\<in>set x. c \<noteq> CHR ''/''" "x \<noteq> []" "CHR ''%'' \<notin> set x" using assms by (auto simp: plain_def)
  have "takeWhile (\<lambda>c. c \<noteq> CHR ''/'') (x @ join_path xs) = x" "dropWhile (\<lambda>c. c \<noteq> CHR ''/'') (x @ join_path xs) = join_path xs"
    using x(1) by (cases xs; simp add: join_path_def takeWhile_append2 dropWhile_append2)+
  then show ?thesis using x(2,3) by (simp add: firstSegment_def pathUnescape_def PathUnescape_plain)
qed

lemma matchPath_plain:
  assumes "\<forall>x\<in>set xs. plain x"
  shows "matchPath gs (join_path xs) =
    (if list_all2 (\<lambda>g x. g = Wild \<or> g = Lit x) gs xs then Some (map snd (filter (\<lambda>(g, x). g = Wild) (zip gs xs))) else None)"
  using assms
proof (induction gs arbitrary: xs)
  case Nil
  then show ?case by (cases xs) (simp_all add: join_path_def)
next
  case (Cons g gs)
  show ?case
  proof (cases xs)
    case Nil
    then show ?thesis by (simp add: join_path_def)
  next
    case x: (Cons x ys)
    have px: "plain x" and pys: "\<forall>x\<in>set ys. plain x" using Cons.prems by (auto simp: x)
    have j: "join_path xs = CHR ''/'' # x @ join_path ys" by (simp add: x join_path_def)
    have nx: "x \<noteq> ''/''" using px by (auto simp: plain_def)
    have IH: "matchPath gs (join_path ys) = (if list_all2 (\<lambda>g x. g = Wild \<or> g = Lit x) gs ys
        then Some (map snd (filter (\<lambda>(g, x). g = Wild) (zip gs ys))) else None)"
      by (rule Cons.IH [OF pys])
    have u: "matchPath (g # gs) (join_path xs) = (case g of Lit s \<Rightarrow> if x = s then matchPath gs (join_path ys) else None
        | Wild \<Rightarrow> map_option (Cons x) (matchPath gs (join_path ys)))"
      unfolding j by (subst matchPath.simps) (simp add: firstSegment_plain [OF px] nx del: matchPath.simps)
    show ?thesis unfolding u IH by (cases g) (simp_all add: x)
  qed
qed

lemma serve_route: "mux q = Found (PgRoute rt) \<Longrightarrow> web_server E S ap lm ipl q = Server E ap lm ipl (WqIn q) rt"
  by (simp add: web_server_def ServeHTTP_def serve_page_def Server_def)

definition fits :: "seg list \<Rightarrow> string list \<Rightarrow> bool" where
  "fits gs xs \<longleftrightarrow> list_all2 (\<lambda>g x. g = Wild \<or> g = Lit x) gs xs"

lemma mux_plain:
  assumes "\<forall>x\<in>set xs. plain x" and "xs \<noteq> []" and "WqPath q = join_path xs"
    and "find (\<lambda>(m, gs, _). answers_method m (WqMethod q) \<and> fits gs xs) muxTable = Some (m, gs, h)"
  shows "mux q = Found (h q (map snd (filter (\<lambda>(g, x). g = Wild) (zip gs xs))))"
    and "\<exists>!n. n < length muxTable \<and> answers_method (method_of n) (WqMethod q) \<and> matchPath (pattern_of n) (WqPath q) \<noteq> None"
proof -
  have c: "cleanPath (WqPath q) = WqPath q" unfolding assms(3) by (rule cleanPath_plain [OF assms(1,2)])
  have m: "matchPath gs (WqPath q) = (if fits gs xs
      then Some (map snd (filter (\<lambda>(g, x). g = Wild) (zip gs xs))) else None)" for gs
    unfolding assms(3) fits_def by (rule matchPath_plain [OF assms(1)])
  have s: "(matchPath gs (WqPath q) \<noteq> None) = fits gs xs" for gs by (simp add: m del: matchPath.simps)
  have f: "fits gs xs" using assms(4) by (auto simp: find_Some_iff)
  have "mux q = Found (h q (the (matchPath gs (WqPath q))))"
    by (simp only: mux_def Let_def c s assms(4) if_cancel not_True_eq_False if_False option.case prod.case simp_thms)
  then show "mux q = Found (h q (map snd (filter (\<lambda>(g, x). g = Wild) (zip gs xs))))"
    by (simp add: m f del: matchPath.simps)
  obtain n where n: "n < length muxTable" "muxTable ! n = (m, gs, h)" "answers_method m (WqMethod q)"
    using assms(4) by (auto simp: find_Some_iff)
  then have "n < length muxTable \<and> answers_method (method_of n) (WqMethod q) \<and> matchPath (pattern_of n) (WqPath q) \<noteq> None"
    using f by (simp add: s method_of_def pattern_of_def del: matchPath.simps not_None_eq)
  then show "\<exists>!n. n < length muxTable \<and> answers_method (method_of n) (WqMethod q) \<and> matchPath (pattern_of n) (WqPath q) \<noteq> None"
    using one_pattern by blast
qed

text \<open>The documented method and address of each operation, with the request's data; an identifier
  is a plain segment.\<close>

fun requests :: "web_request \<Rightarrow> route \<Rightarrow> bool" where
  "requests q (PostJobs b) \<longleftrightarrow> WqMethod q = ''POST'' \<and> WqPath q = ''/v1/jobs'' \<and> WqJob q = b"
| "requests q (GetJobRoute x) \<longleftrightarrow> WqMethod q = ''GET'' \<and> WqPath q = ''/v1/jobs/'' @ x \<and> plain x"
| "requests q (ListJobsRoute s l f) \<longleftrightarrow> WqMethod q = ''GET'' \<and> WqPath q = ''/v1/jobs''
     \<and> WqQuery q ''status'' = s \<and> WqQuery q ''limit'' = l \<and> WqQuery q ''offset'' = f"
| "requests q (DeleteJobRoute x) \<longleftrightarrow> WqMethod q = ''DELETE'' \<and> WqPath q = ''/v1/jobs/'' @ x \<and> plain x"
| "requests q (DeadLettersRoute l f) \<longleftrightarrow> WqMethod q = ''GET'' \<and> WqPath q = ''/v1/dead-letters''
     \<and> WqQuery q ''limit'' = l \<and> WqQuery q ''offset'' = f"
| "requests q (RetryRoute x) \<longleftrightarrow> WqMethod q = ''POST'' \<and> WqPath q = ''/v1/jobs/'' @ x @ ''/retry'' \<and> plain x"
| "requests q (PostCron b) \<longleftrightarrow> WqMethod q = ''POST'' \<and> WqPath q = ''/v1/cron-jobs'' \<and> WqCron q = b"
| "requests q (PatchCron x b) \<longleftrightarrow> WqMethod q = ''PATCH'' \<and> WqPath q = ''/v1/cron-jobs/'' @ x \<and> plain x \<and> WqEnabled q = b"

fun segments :: "route \<Rightarrow> string list" where
  "segments (PostJobs b) = [''v1'', ''jobs'']"
| "segments (GetJobRoute x) = [''v1'', ''jobs'', x]"
| "segments (ListJobsRoute s l f) = [''v1'', ''jobs'']"
| "segments (DeleteJobRoute x) = [''v1'', ''jobs'', x]"
| "segments (DeadLettersRoute l f) = [''v1'', ''dead-letters'']"
| "segments (RetryRoute x) = [''v1'', ''jobs'', x, ''retry'']"
| "segments (PostCron b) = [''v1'', ''cron-jobs'']"
| "segments (PatchCron x b) = [''v1'', ''cron-jobs'', x]"

lemma requests_segments:
  assumes "requests q rt"
  shows "\<forall>x\<in>set (segments rt). plain x" "segments rt \<noteq> []" "WqPath q = join_path (segments rt)"
  using assms by (cases rt; simp add: plain_def join_path_def)+

lemma requests_found:
  assumes "requests q rt"
  shows "\<exists>m gs h. find (\<lambda>(m, gs, _). answers_method m (WqMethod q) \<and> fits gs (segments rt)) muxTable = Some (m, gs, h)
    \<and> h q (map snd (filter (\<lambda>(g, x). g = Wild) (zip gs (segments rt)))) = PgRoute rt"
  using assms by (cases rt) (simp_all add: muxTable_def answers_method_def fits_def)

text \<open>C29. Every operation is reached at its documented method and address, with the identifier, the
  query parameters and the body of the request, and by exactly one registered pattern, so that the
  order of registration does not matter.\<close>

theorem every_route_is_reached:
  assumes "requests q rt"
  shows "mux q = Found (PgRoute rt)
    \<and> web_server E S allowPrivate lm ipLimiter q = Server E allowPrivate lm ipLimiter (WqIn q) rt
    \<and> (\<exists>!n. n < length muxTable \<and> answers_method (method_of n) (WqMethod q) \<and> matchPath (pattern_of n) (WqPath q) \<noteq> None)"
proof -
  obtain m gs h where "find (\<lambda>(m, gs, _). answers_method m (WqMethod q) \<and> fits gs (segments rt)) muxTable = Some (m, gs, h)"
    and h: "h q (map snd (filter (\<lambda>(g, x). g = Wild) (zip gs (segments rt)))) = PgRoute rt"
    using requests_found [OF assms] by blast
  note mux = mux_plain [OF requests_segments [OF assms] this(1)]
  have r: "mux q = Found (PgRoute rt)" using mux(1) h by simp
  show ?thesis using r serve_route [OF r] mux(2) by blast
qed

theorem every_route_is_reached_witness:
  "mux \<lparr>WqMethod = ''POST'', WqPath = ''/v1/jobs/7/retry'',
      WqIn = \<lparr>RqAuthorization = [], RqForwardedFor = [], RqRemoteAddr = []\<rparr>,
      WqQuery = \<lambda>_. [], WqJob = DecMalformed, WqCron = DecMalformed, WqEnabled = DecMalformed\<rparr>
    = Found (PgRoute (RetryRoute ''7''))"
proof -
  let ?q = "\<lparr>WqMethod = ''POST'', WqPath = ''/v1/jobs/7/retry'',
      WqIn = \<lparr>RqAuthorization = [], RqForwardedFor = [], RqRemoteAddr = []\<rparr>,
      WqQuery = \<lambda>_. [], WqJob = DecMalformed, WqCron = DecMalformed, WqEnabled = DecMalformed\<rparr>"
  have "requests ?q (RetryRoute ''7'')" by (simp add: plain_def)
  then show ?thesis using every_route_is_reached by blast
qed

section \<open>Only authenticated requests act\<close>

definition untouched :: "world \<Rightarrow> world \<Rightarrow> bool" where
  "untouched w w' \<longleftrightarrow> db w' = db w \<and> posts w' = posts w \<and> queue_view (rd w') = queue_view (rd w)"

text \<open>The public pages only read.\<close>

definition quiet :: "'a handler \<Rightarrow> bool" where
  "quiet m \<longleftrightarrow> (\<forall>w. untouched w (snd (m w)))"

lemma quietI: "(\<And>w r w'. m w = (r, w') \<Longrightarrow> untouched w w') \<Longrightarrow> quiet m"
  by (metis quiet_def prod.collapse)

lemma quietD: "quiet m \<Longrightarrow> m w = (r, w') \<Longrightarrow> untouched w w'"
  by (metis quiet_def snd_conv)

lemma untouched_trans: "untouched w1 w2 \<Longrightarrow> untouched w2 w3 \<Longrightarrow> untouched w1 w3"
  by (simp add: untouched_def)

lemma quiet_ret: "quiet (ret x)"
  by (simp add: quiet_def untouched_def)

lemma quiet_fail: "quiet (fail e)"
  by (simp add: quiet_def untouched_def)

lemma quiet_bind: "quiet m \<Longrightarrow> (\<And>x. quiet (f x)) \<Longrightarrow> quiet (bind m f)"
  by (rule quietI) (auto simp: bind_def split: sum.splits prod.splits dest: quietD intro: untouched_trans)

lemma quiet_result: "quiet m \<Longrightarrow> quiet (result_of m)"
  by (rule quietI) (auto simp: result_of_def split: prod.splits dest: quietD)

lemma quiet_wrap: "quiet m \<Longrightarrow> quiet (wrap s m)"
  by (rule quietI) (auto simp: wrap_def split: sum.splits prod.splits dest: quietD)

lemma quiet_case_sum: "(\<And>a. quiet (f a)) \<Longrightarrow> (\<And>b. quiet (g b)) \<Longrightarrow> quiet (case x of Inl a \<Rightarrow> f a | Inr b \<Rightarrow> g b)"
  by (cases x) auto

lemma quiet_case_option: "quiet f \<Longrightarrow> (\<And>b. quiet (g b)) \<Longrightarrow> quiet (case x of None \<Rightarrow> f | Some b \<Rightarrow> g b)"
  by (cases x) auto

lemma quiet_rread: "quiet (rread E ch f)"
  by (rule quietI) (auto simp: rread_def untouched_def split: fault.splits)

lemma quiet_ping: "quiet (pool_Ping E)"
  by (rule quietI) (auto simp: pool_Ping_def sql_def stmt_db_def untouched_def split: fault.splits)

lemmas quiet_rules = quiet_ret quiet_fail quiet_bind quiet_result quiet_wrap quiet_case_sum quiet_case_option
  quiet_rread quiet_ping

lemma quiet_Collect: "quiet (Collect E c)"
  unfolding Collect_def read_counter_def QueueBacklog_def StreamBacklog_def fallbackLen_def lift_reply_def
  by (intro quiet_rules)

lemma quiet_Healthz: "quiet (Healthz E)"
  unfolding Healthz_def Check_def redis_Ping_def by (intro quiet_rules)

lemma public_untouched:
  assumes "\<And>rt. pg \<noteq> PgRoute rt" and "serve_page E S ap lm r pg w = (res, w')"
  shows "untouched w w'"
proof -
  have "quiet (serve_page E S ap lm r pg)"
    using assms(1) by (cases pg) (auto simp: serve_page_def intro!: quiet_Healthz quiet_Collect quiet_rules)
  then show ?thesis using assms(2) by (rule quietD)
qed

lemma web_untouched:
  assumes "redis_ok (srv E)" and "web_server E S ap lm ipl q w = (res, w')"
    and "\<And>w w' res. ServeHTTP E S ap lm q w = (res, w') \<Longrightarrow> untouched w w'"
  shows "untouched w w'"
proof (cases ipl)
  case None
  then show ?thesis using assms(2,3) by (simp add: web_server_def IPRateLimit_def)
next
  case (Some l)
  then have "limited E l (''ip:'' @ clientIP (WqIn q)) (ServeHTTP E S ap lm q) w = (res, w')"
    using assms(2) by (simp add: web_server_def IPRateLimit_def)
  with assms(1) show ?thesis
  proof (cases rule: limited_cases)
    case (pass w1)
    then show ?thesis using assms(3) [OF pass(1)] by (simp add: untouched_def)
  qed (simp add: untouched_def)
qed

lemma route_under_v1:
  assumes "mux q = Found (PgRoute rt)"
  shows "fst (firstSegment (WqPath q)) = ''v1''"
proof -
  obtain m gs h where f: "find (\<lambda>(m, gs, _). answers_method m (WqMethod q) \<and> matchPath gs (WqPath q) \<noteq> None) muxTable = Some (m, gs, h)"
      and h: "h q (the (matchPath gs (WqPath q))) = PgRoute rt"
    using assms by (auto simp: mux_def Let_def split: if_splits option.splits)
  from f obtain i where "i < length muxTable" "muxTable ! i = (m, gs, h)" and match: "matchPath gs (WqPath q) \<noteq> None"
    by (auto simp: find_Some_iff simp del: matchPath.simps)
  then have "(m, gs, h) \<in> set muxTable" by (metis nth_mem)
  then have "\<exists>gs'. gs = Lit ''v1'' # gs'" using h by (auto simp: muxTable_def)
  then show ?thesis using match by (auto split: if_splits prod.splits)
qed

text \<open>C28. Only a request with a valid key acts. Whatever path and method a request has, either the
  tables, the queues and the callbacks sent are as before, or its path leads to a route whose first
  segment is \<open>v1\<close> and its bearer token is the key of an entry that is not revoked. A request for such
  a route without a valid key is answered 401 (or 429 by the address limit, or 500 if a call failed).\<close>

theorem only_authenticated_requests_act:
  assumes "redis_ok (srv E)" and "web_server E S allowPrivate lm ipLimiter q w = (Inr resp, w')"
  shows "(untouched w w' \<or>
      (\<exists>rt. mux q = Found (PgRoute rt) \<and> fst (firstSegment (WqPath q)) = ''v1'' \<and> valid_key E (WqIn q) (db w)))
    \<and> (\<forall>rt. mux q = Found (PgRoute rt) \<and> \<not> valid_key E (WqIn q) (db w) \<longrightarrow>
        RpStatus resp \<in> {401, 429, 500} \<and> (all_up E \<and> ipLimiter = None \<longrightarrow> RpStatus resp = 401))"
proof (cases "\<exists>rt. mux q = Found (PgRoute rt)")
  case True
  then obtain rt where rt: "mux q = Found (PgRoute rt)" by blast
  have run: "Server E allowPrivate lm ipLimiter (WqIn q) rt w = (Inr resp, w')"
    using assms(2) by (simp add: serve_route [OF rt])
  show ?thesis
  proof (cases "valid_key E (WqIn q) (db w)")
    case False
    then show ?thesis using unauthenticated_changes_nothing [OF assms(1) False run] by (simp add: untouched_def)
  qed (use rt route_under_v1 in blast)
next
  case False
  have "untouched w1 w2" if "ServeHTTP E S allowPrivate lm q w1 = (res, w2)" for w1 w2 res
    using that False public_untouched
    by (fastforce simp: ServeHTTP_def untouched_def split: found.splits)
  then show ?thesis using web_untouched [OF assms] False by blast
qed

theorem only_authenticated_requests_act_witness:
  "\<exists>resp w'. web_server demo_env \<lparr>openAPISpec = '''', swaggerUI = None, dashboardHTML = '''',
        promhttp = \<lambda>_. http_Error '''' 200, redirectTo = \<lambda>_. http_Error '''' 301\<rparr> True (New_limiter 5 0) None
       \<lparr>WqMethod = ''DELETE'', WqPath = ''/v1/jobs/5'',
         WqIn = \<lparr>RqAuthorization = ''Bearer wrong'', RqForwardedFor = '''', RqRemoteAddr = ''''\<rparr>,
         WqQuery = \<lambda>_. '''', WqJob = DecMalformed, WqCron = DecMalformed, WqEnabled = DecMalformed\<rparr>
       (demo_with [demo_row Pending]) = (Inr resp, w')
     \<and> RpStatus resp = 401 \<and> untouched (demo_with [demo_row Pending]) w'"
proof -
  let ?r = "\<lparr>RqAuthorization = ''Bearer wrong'', RqForwardedFor = '''', RqRemoteAddr = ''''\<rparr>"
  let ?q = "\<lparr>WqMethod = ''DELETE'', WqPath = ''/v1/jobs/5'', WqIn = ?r,
     WqQuery = \<lambda>_. '''', WqJob = DecMalformed, WqCron = DecMalformed, WqEnabled = DecMalformed\<rparr>"
  let ?s = "\<lparr>openAPISpec = '''', swaggerUI = None, dashboardHTML = '''',
     promhttp = \<lambda>_. http_Error '''' 200, redirectTo = \<lambda>_. http_Error '''' 301\<rparr>"
  let ?run = "web_server demo_env ?s True (New_limiter 5 0) None ?q (demo_with [demo_row Pending])"
  have bad: "\<not> valid_key demo_env (WqIn ?q) (db (demo_with [demo_row Pending]))" by code_simp
  have ok: "redis_ok (srv demo_env)" "all_up demo_env" by (simp_all add: demo_env_def mem_redis_ok all_up_def)
  have rt: "mux ?q = Found (PgRoute (DeleteJobRoute ''5''))" by code_simp
  obtain resp w' where run: "?run = (Inr resp, w')"
  proof -
    have "(case fst ?run of Inr _ \<Rightarrow> True | Inl _ \<Rightarrow> False)" unfolding serve_route [OF rt] by code_simp
    then show ?thesis using that by (cases ?run) (auto split: sum.splits)
  qed
  show ?thesis using only_authenticated_requests_act [OF ok(1) run] run rt bad ok(2) by blast
qed

end
