(* ===== verification/Spec2Isabelle.thy ===== *)
theory Spec2Isabelle
  imports System DemoRun JobSpec QueueSpec LeaderSpec LimiterSpec CallbackSpec CronSpec ApiSpec WorkerSpec LossSpec History
    LoopSpec BootSpec Metrics Middleware Tools EndToEnd Router
begin

text \<open>
  \<^bold>\<open>The program.\<close> The repository is a job scheduling platform in Go. Clients submit jobs over
  HTTP; a job names a callback URL, and the platform POSTs the job's payload to it at the
  requested time, retries failures with a growing delay and gives up after a bounded number of
  attempts. Three programs share a PostgreSQL database and a Redis server:

  \<^item> \<open>cmd/api\<close> stores jobs and cron rows, and hands each committed job to Redis: to the ready
    stream if it is due, otherwise to the delayed queue. A row of the table
    \<open>outbox\<close>, written in the transaction that writes the job, survives a failure of that
    hand-over.
  \<^item> \<open>cmd/worker\<close> reads the ready stream through a consumer group, starts the job in the
    database, calls its URL and records the outcome; a failed job moves to the next
    \<^emph>\<open>generation\<close> and back to the delayed queue, or is dead-lettered. Entries that a dead worker
    left unacknowledged are reclaimed, poison entries are quarantined.
  \<^item> \<open>cmd/scheduler\<close> elects a leader through a lease in Redis; the leader promotes due jobs
    from the delayed queue, turns due cron rows into jobs and replays the outbox.

  \<open>cmd/apikey\<close> issues keys, \<open>cmd/callback\<close> is a sink for callbacks in the test deployment,
  \<open>tools/stress\<close> and \<open>tools/loadtest\<close> put a deployment under load.

  \<^bold>\<open>How the code is modelled.\<close> A Go function that touches shared state is a function from the
  state \<open>world\<close> to a result and a new state (\<open>handler\<close>, theory \<open>World\<close>); \<open>Inl e\<close> is a
  returned error. The world holds the committed tables, the open transaction, the Redis keyspace,
  the callbacks POSTed so far and a counter of calls. Everything the source does not determine is
  a field of the record \<open>env\<close>, over which the theorems quantify: the outcome of the n-th call on
  each channel, the clock, random numbers, the Redis commands (\<open>redis_srv\<close>), UUIDs, JSON, URL and
  cron parsing, DNS, the HTTP exchange, SHA-256 and random bytes. A call ends \<open>Up\<close>
  (executed and answered), \<open>Lost\<close> (not executed) or \<open>Late\<close> (executed, the answer never
  arrives), and the code sees the same error in the last two cases; a crash of a process is a run
  in which all later calls of its handler are lost. SQL statements are part of the source: they are
  functions on the tables, with the constraints of \<open>migrations/\<close>, and a failing statement aborts
  its transaction as PostgreSQL does. The Lua scripts are part of the source as well. Redis itself is
  not: what the code relies on are the laws \<open>redis_ok\<close> and \<open>server_ok\<close> of theory
  \<open>RedisSrv\<close>, and the in-memory server \<open>mem_redis\<close> there satisfies them. Times and durations are
  integers in nanoseconds, durations with the bounds of \<open>int64\<close> written out where the code computes
  with them; addresses are words of 32 and 128 bits; counts of attempts and generations are
  integers whose range the schema bounds or, for generations, a hypothesis (\<open>gen_bound\<close>, \<open>10^14\<close>:
  Lua prints a number with 14 digits, so a larger generation does not survive the delayed queue).

  \<^bold>\<open>The theories\<close>, in the order of their dependencies.

  \<^item> \<open>Prelude\<close>: errors, computations with state and errors, and their Hoare calculus with the
    collection \<open>wp_rule\<close>; \<open>GoStrings\<close>: \<open>strconv\<close>, \<open>strings\<close> and error texts; \<open>Schema\<close>: rows,
    tables and constraints; \<open>RedisSrv\<close>: keyspace and commands; \<open>World\<close>: state,
    environment, calls, transactions.
  \<^item> \<open>JobRepo\<close> and \<open>CronRepo\<close>: \<open>internal/repository\<close>. Every method with its statements, its
    transaction and its translation of errors. \<open>JobRules\<close> has one proof rule per method,
    \<open>JobSpec\<close> and \<open>CronSpec\<close> what the methods promise: atomicity under every failure, no
    second start of a running job, outcomes by the state of the row, one occurrence per due cron row.
  \<^item> \<open>Streams\<close>: \<open>internal/stream\<close> with its scripts. \<open>Queues\<close> states what a queue promises its
    clients and shows it of the ready stream and the delayed queue; \<open>QueueSpec\<close>: what is
    enqueued is delivered, what is due becomes ready, the backlog counts outstanding entries.
  \<^item> \<open>Retry\<close>: \<open>internal/retry\<close>, the backoff with its closed form and its bounds.
  \<^item> \<open>Callbacks\<close>: \<open>internal/validator\<close> and \<open>internal/executor\<close>; \<open>CallbackSpec\<close>: the private
    ranges, where requests may go, when a callback counts as delivered.
  \<^item> \<open>Processor\<close>: \<open>internal/worker\<close> (\<open>Process\<close>, \<open>Quarantine\<close>, \<open>reclaimStale\<close>, \<open>Run\<close>);
    \<open>WorkerSpec\<close>: what a delivery achieves when its calls are answered.
  \<^item> \<open>Scheduler\<close>: \<open>internal/scheduler\<close> (the lock, the tick, the reconciler, \<open>Run\<close>);
    \<open>LeaderSpec\<close>: one leader at a time, a standby does nothing.
  \<^item> \<open>Limiter\<close>: \<open>internal/ratelimit\<close>; \<open>LimiterSpec\<close>: its bound and its exact decision.
  \<^item> \<open>ApiKey\<close>: \<open>internal/apikey\<close>; \<open>API\<close>: \<open>cmd/api\<close> (handlers) and
    \<open>internal/api\<close> (authentication, limits); \<open>ApiSpec\<close>: answers, authentication, repeated
    submissions; \<open>Middleware\<close>: \<open>internal/api/middleware.go\<close>; \<open>Router\<close>:
    \<open>cmd/api/router.go\<close> over the matching of \<open>http.ServeMux\<close>, with the public pages: every operation is
    reached at its address through one pattern, and only a request with a valid key acts.
  \<^item> \<open>Tracking\<close>: the invariant \<open>platform_inv\<close>; \<open>ProcessInv\<close>, \<open>WorkerInv\<close>, \<open>PlatformInv\<close>, \<open>HandlerInv\<close> and
    \<open>ServerInv\<close>: every handler preserves it; \<open>System\<close>: the step relation of the platform, its
    reachable states, and the invariant in all of them; \<open>History\<close>: what no statement ever does to a job, and that no
    attempt is started twice however statements interleave;
    \<open>EndToEnd\<close>: a job from the request that submits it to its finished row, due at once or at a later time;
    \<open>LossSpec\<close>: two runs showing that two reliability hypotheses are needed.
  \<^item> \<open>Config\<close>: \<open>internal/config\<close> and \<open>internal/logger\<close>; \<open>Boot\<close>: \<open>internal/db\<close>,
    \<open>internal/redisclient\<close>, \<open>internal/health\<close> and the \<open>main\<close> functions; \<open>LoopSpec\<close> and
    \<open>BootSpec\<close>: the loops and the programs end when told to, all they do meanwhile are steps of the
    platform, health answers, issued keys; \<open>Metrics\<close>: \<open>internal/metrics\<close>; \<open>Sink\<close>:
    \<open>cmd/callback\<close>; \<open>Tools\<close>: \<open>tools/stress\<close> and \<open>tools/loadtest\<close>.
  \<^item> \<open>Demo\<close> and \<open>DemoRun\<close>: a concrete environment and a run in it, in which the hypotheses of the
    theorems hold and the handlers are evaluated.

  \<^bold>\<open>Interfaces.\<close> The locales state what one part relies on of another: \<open>row_update\<close> (an
  UPDATE of one row under a guard; \<open>JobRepo\<close>, six instances), \<open>keyed_store\<close> and \<open>ack_log\<close>
  (\<open>Queues\<close>; the delayed queue and the ready stream), \<open>lease\<close> (\<open>LeaderSpec\<close>; the lock's scripts)
  and \<open>window_log\<close> (\<open>LimiterSpec\<close>; the limiter's script).

  \<^bold>\<open>Hypotheses.\<close> The invariants of the tables hold whatever fails. That no job is lost needs
  \<open>reliable\<close>: the server keeps its laws, identifiers and generations survive their encodings, the
  statement of \<open>ScheduleRetry\<close> is never executed with its reply lost, and \<open>XRANGE\<close> is answered; all
  other calls may fail in every way. Progress is shown where calls are answered (\<open>all_up\<close>). The rate limiter's exact
  behaviour needs \<open>calm\<close>, the lease the Redis laws, the cron theorems a schedule that moves forward
  (\<open>schedule_ok\<close>), the key round trip full reads of random bytes, the metrics counters within 64
  bits.

  \<^bold>\<open>Steps and loops.\<close> In the step relation a handler is one step, so the theorems on reachable
  states cover every order of handlers and every crash and lost reply inside one, not the
  interleaving of two handlers' statements; the theorems of \<open>History\<close> look at every statement alone
  and do not depend on it, those of \<open>LeaderSpec\<close> and \<open>LimiterSpec\<close> rest on single commands and let
  the rest of the system change anything else in between. The main loops run over a finite list of
  turns, with the interference of other processes between them. All other loops are structural
  recursions, or functions with a termination proof (the parser of durations, the decimal printer).
  No fuel is used: the redirects of one callback are counted down from the code's own limit.

  \<^bold>\<open>Not modelled.\<close> The contents of the embedded files (OpenAPI document, documentation, dashboard), the text
  format of the metrics and the redirect to a cleaned path are parameters of \<open>Router\<close>. \<open>tools/e2e\<close> is a linear script of requests. Log lines other than the start-up line and the
  access line, values printed into error texts, latencies and their percentiles, flag parsing, the
  delivery of signals, the HTTP listener, and the durations of time-outs and blocking reads
  are left out: a time-out is an outcome of a call. Generations are not wrapped at 64 bits.
\<close>

section \<open>Properties of the running platform\<close>









text \<open>C33. In every reachable state the keys of the tables are unique: job ids, idempotency keys,
  one outbox row per job, one execution per job, generation and attempt; and every outbox row and
  every execution belongs to a job.\<close>

theorem rows_unique:
  assumes "reachable E w"
  shows "distinct (map ID (jobs (db w))) \<and> distinct (map IdempotencyKey (jobs (db w)))
    \<and> distinct (map ObJobID (outbox (db w)))
    \<and> distinct (map (\<lambda>x. (ExJobID x, ExGeneration x, ExAttempt x)) (executions (db w)))
    \<and> ObJobID ` set (outbox (db w)) \<union> ExJobID ` set (executions (db w)) \<subseteq> ID ` set (jobs (db w))"
  using reachable_inv [OF assms]
  by (auto simp: platform_inv_def db_inv_def schema_ok_def jobs_ok_def outbox_ok_def executions_ok_def)

theorem rows_unique_witness:
  "distinct (map (\<lambda>x. (ExJobID x, ExGeneration x, ExAttempt x)) (executions (db demo_done)))"
  using rows_unique [OF demo_reachable(2)] by blast

end
